(* ===== verification/Prelude.thy ===== *)
theory Prelude
  imports Main "HOL-Library.Word" "HOL-Library.Monad_Syntax"
begin

text \<open>
  Shared vocabulary of the development: the machine types of the C++ sources, the fault
  model, and the generic lemmas the component theories use.

  \<^bold>\<open>Machine types.\<close> \<open>unsigned\<close>, \<open>uint8_t\<close>, \<open>Addr\<close> (\<open>uint64_t\<close>), \<open>ThreadID\<close> (\<open>int16_t\<close>) and
  \<open>InstSeqNum\<close> (\<open>uint64_t\<close>) are words of the width the sources give them, so every \<open>+\<close>,
  \<open>-\<close> and shift wraps as the compiled code does.

  \<^bold>\<open>Faults.\<close> An operation whose C++ text can fail an \<open>assert\<close>, index a \<open>std::vector\<close> out of
  range or shift by at least the width of the operand returns an \<open>option\<close>; \<open>None\<close> is that
  fault. Constructors that call \<open>fatal\<close> or \<open>panic\<close> return a sum whose left part is the
  \<open>bp_error\<close>: the message, or \<open>Fault\<close> where the constructor itself runs into such a fault.
\<close>

unbundle bit_operations_syntax

type_synonym unsigned = "32 word"
type_synonym uint8 = "8 word"
type_synonym Addr = "64 word"
type_synonym ThreadID = "16 word"
type_synonym InstSeqNum = "64 word"

datatype bp_error =
    Fatal string
  | Panic string
  | Fault

named_theorems fault_simps "rewrite rules that discharge in-range accesses"
named_theorems bp_defs "definitions unfolded when an operation is evaluated"

subsection \<open>Vectors, assertions and shifts\<close>

definition vec_at :: "'a list \<Rightarrow> nat \<Rightarrow> 'a option" where
  "vec_at xs i = (if i < length xs then Some (xs ! i) else None)"

definition vec_put :: "'a list \<Rightarrow> nat \<Rightarrow> 'a \<Rightarrow> 'a list option" where
  "vec_put xs i v = (if i < length xs then Some (xs[i := v]) else None)"

text \<open>\<open>xs[i].method()\<close> for a method that changes the element.\<close>

definition vec_mod :: "('a \<Rightarrow> 'a) \<Rightarrow> 'a list \<Rightarrow> nat \<Rightarrow> 'a list option" where
  "vec_mod f xs i = (if i < length xs then Some (xs[i := f (xs ! i)]) else None)"

definition assert_that :: "bool \<Rightarrow> unit option" where
  "assert_that b = (if b then Some () else None)"

text \<open>The subscript \<open>v[tid]\<close>: the signed 16-bit thread id is converted to \<open>size_t\<close>.\<close>

definition tid_index :: "ThreadID \<Rightarrow> nat" where
  "tid_index tid = unat (signed tid :: 64 word)"

text \<open>\<open>addr >> n\<close> on a 64-bit value, defined for \<open>n < 64\<close>.\<close>

definition shr64 :: "Addr \<Rightarrow> unsigned \<Rightarrow> Addr option" where
  "shr64 a n = (if unat n < 64 then Some (drop_bit (unat n) a) else None)"

text \<open>Arrays whose subscript is an \<open>int\<close>: a negative one is out of range.\<close>

definition arr_at :: "'a list \<Rightarrow> int \<Rightarrow> 'a option" where
  "arr_at xs i = (if 0 \<le> i \<and> nat i < length xs then Some (xs ! nat i) else None)"

definition arr_put :: "'a list \<Rightarrow> int \<Rightarrow> 'a \<Rightarrow> 'a list option" where
  "arr_put xs i v = (if 0 \<le> i \<and> nat i < length xs then Some (xs[nat i := v]) else None)"

text \<open>\<open>for (j = i; j < i + n; j++) body(j)\<close> over a state.\<close>

primrec for_up :: "nat \<Rightarrow> nat \<Rightarrow> (nat \<Rightarrow> 's \<Rightarrow> 's option) \<Rightarrow> 's \<Rightarrow> 's option" where
  "for_up 0 i body s = Some s"
| "for_up (Suc n) i body s = do { s \<leftarrow> body i s; for_up n (Suc i) body s }"

text \<open>Sequencing of the steps of a constructor: the first error wins.\<close>

definition ebind :: "'e + 'a \<Rightarrow> ('a \<Rightarrow> 'e + 'b) \<Rightarrow> 'e + 'b" where
  "ebind m f = (case m of Inl e \<Rightarrow> Inl e | Inr x \<Rightarrow> f x)"

definition error_if :: "bool \<Rightarrow> 'e \<Rightarrow> 'e + unit" where
  "error_if b e = (if b then Inl e else Inr ())"

definition no_fault :: "'a option \<Rightarrow> bp_error + 'a" where
  "no_fault m = (case m of None \<Rightarrow> Inl Fault | Some x \<Rightarrow> Inr x)"

lemma ebind_simps [simp]: "ebind (Inl e) f = Inl e" "ebind (Inr x) f = f x"
  by (simp_all add: ebind_def)

lemma ebind_eq_Inr: "ebind m f = Inr y \<longleftrightarrow> (\<exists>x. m = Inr x \<and> f x = Inr y)"
  by (cases m) simp_all

lemma error_if_eq_Inr [simp]: "error_if b e = Inr u \<longleftrightarrow> \<not> b"
  by (simp add: error_if_def)

lemma no_fault_eq_Inr [simp]: "no_fault m = Inr x \<longleftrightarrow> m = Some x"
  by (cases m) (simp_all add: no_fault_def)

lemma vec_at_Some [fault_simps]: "i < length xs \<Longrightarrow> vec_at xs i = Some (xs ! i)"
  by (simp add: vec_at_def)

lemma vec_put_Some [fault_simps]: "i < length xs \<Longrightarrow> vec_put xs i v = Some (xs[i := v])"
  by (simp add: vec_put_def)

lemma vec_mod_Some [fault_simps]:
  "i < length xs \<Longrightarrow> vec_mod f xs i = Some (xs[i := f (xs ! i)])"
  by (simp add: vec_mod_def)

lemma assert_that_True [fault_simps]: "b \<Longrightarrow> assert_that b = Some ()"
  by (simp add: assert_that_def)

lemma shr64_Some [fault_simps]: "unat n < 64 \<Longrightarrow> shr64 a n = Some (drop_bit (unat n) a)"
  by (simp add: shr64_def)

lemma vec_at_eq_Some: "vec_at xs i = Some x \<longleftrightarrow> i < length xs \<and> xs ! i = x"
  by (auto simp: vec_at_def)

lemma vec_put_eq_Some: "vec_put xs i v = Some ys \<longleftrightarrow> i < length xs \<and> ys = xs[i := v]"
  by (auto simp: vec_put_def)

lemma vec_mod_eq_Some:
  "vec_mod f xs i = Some ys \<longleftrightarrow> i < length xs \<and> ys = xs[i := f (xs ! i)]"
  by (auto simp: vec_mod_def)

lemma assert_that_eq_Some: "assert_that b = Some u \<longleftrightarrow> b"
  by (auto simp: assert_that_def)

lemma shr64_eq_Some: "shr64 a n = Some b \<longleftrightarrow> unat n < 64 \<and> b = drop_bit (unat n) a"
  by (auto simp: shr64_def)

lemmas fault_eq_Some =
  vec_at_eq_Some vec_put_eq_Some vec_mod_eq_Some assert_that_eq_Some shr64_eq_Some

lemma arr_at_Some [fault_simps]: "0 \<le> i \<Longrightarrow> nat i < length xs \<Longrightarrow> arr_at xs i = Some (xs ! nat i)"
  by (simp add: arr_at_def)

lemma arr_put_Some [fault_simps]: "0 \<le> i \<Longrightarrow> nat i < length xs \<Longrightarrow> arr_put xs i v = Some (xs[nat i := v])"
  by (simp add: arr_put_def)

lemma arr_at_nat: "arr_at xs (int i) = vec_at xs i"
  by (simp add: arr_at_def vec_at_def)

lemma for_up_invariant:
  assumes "I i s" and "\<And>j s. i \<le> j \<Longrightarrow> j < i + n \<Longrightarrow> I j s \<Longrightarrow> \<exists>s'. body j s = Some s' \<and> I (Suc j) s'"
  shows "\<exists>s'. for_up n i body s = Some s' \<and> I (i + n) s'"
  using assms
proof (induction n arbitrary: i s)
  case (Suc n)
  obtain s' where s': "body i s = Some s'" "I (Suc i) s'" using Suc.prems(2) [of i s] Suc.prems(1) by auto
  have "\<exists>s''. for_up n (Suc i) body s' = Some s'' \<and> I (Suc i + n) s''"
    by (rule Suc.IH [OF s'(2)]) (use Suc.prems(2) in auto)
  then show ?case using s'(1) by simp
qed simp

lemma list_all_list_update:
  "list_all P xs \<Longrightarrow> (i < length xs \<Longrightarrow> P v) \<Longrightarrow> list_all P (xs[i := v])"
  by (cases "i < length xs") (auto simp: list_all_length nth_list_update list_update_beyond)

lemma list_all_nth: "list_all P xs \<Longrightarrow> i < length xs \<Longrightarrow> P (xs ! i)"
  by (simp add: list_all_length)

lemma list_all_replicate: "P x \<Longrightarrow> list_all P (replicate n x)"
  by (simp add: list_all_length)

lemma list_update_eq_self: "i < length xs \<Longrightarrow> xs ! i = x \<Longrightarrow> xs[i := x] = xs"
  by auto

lemma takeWhile_le_filter:
  "sorted_wrt (\<lambda>x y. f x < f y) xs \<Longrightarrow> takeWhile (\<lambda>x. f x \<le> n) xs = filter (\<lambda>x. f x \<le> n) xs"
  for f :: "'a \<Rightarrow> 'b::linorder"
  by (induction xs) (auto simp: not_le intro!: filter_False [symmetric], meson leD less_trans)

lemma dropWhile_greater_filter:
  "sorted_wrt (\<lambda>x y. f y < f x) xs \<Longrightarrow> dropWhile (\<lambda>x. n < f x) xs = filter (\<lambda>x. f x \<le> n) xs"
  for f :: "'a \<Rightarrow> 'b::linorder"
  by (induction xs) (auto simp: not_less not_le intro!: filter_True [symmetric])

lemma dropWhile_le_filter:
  "sorted_wrt (\<lambda>x y. f x < f y) xs \<Longrightarrow> dropWhile (\<lambda>x. f x \<le> n) xs = filter (\<lambda>x. n < f x) xs"
  for f :: "'a \<Rightarrow> 'b::linorder"
  by (induction xs) (auto simp: not_less not_le intro!: filter_True [symmetric] intro: less_trans)

subsection \<open>Masks\<close>

lemma unat_and_less:
  fixes x n :: "'a::len word"
  assumes "n \<noteq> 0"
  shows "unat (x AND (n - 1)) < unat n"
proof -
  have "unat (x AND (n - 1)) \<le> unat (n - 1)"
    using word_and_le1 word_le_nat_alt by blast
  also have "\<dots> < unat n"
    using assms by (rule measure_unat)
  finally show ?thesis .
qed

lemma unat_and_le: "unat (x AND m) \<le> unat m" for x m :: "'a::len word"
  using word_and_le1 word_le_nat_alt by blast

lemma unat_ucast_and_less:
  fixes a :: Addr and n :: unsigned
  assumes "n \<noteq> 0"
  shows "unat (ucast (a AND ucast (n - 1)) :: unsigned) < unat n"
proof -
  have "(ucast (a AND ucast (n - 1)) :: unsigned) = ucast a AND (n - 1)"
    by (rule bit_word_eqI) (auto simp: bit_simps)
  with unat_and_less [OF assms] show ?thesis by simp
qed

lemma and_mask_idem [simp]: "(x AND m) AND m = x AND m" for x m :: "'a::len word"
  by (simp add: ac_simps)

lemma unat_ucast_uint8 [simp]: "unat (ucast c :: unsigned) = unat c" for c :: uint8
proof -
  have "unat c < 2 ^ 8" using unsigned_less [of c, where ?'a = nat] by simp
  then have "take_bit 32 (unat c) = unat c" by (intro take_bit_nat_eq_self) simp
  then show ?thesis by (simp add: unsigned_ucast_eq)
qed

lemma unat_ucast_addr [simp]: "unat (ucast n :: Addr) = unat n" for n :: unsigned
proof -
  have "unat n < 2 ^ 32" using unsigned_less [of n, where ?'a = nat] by simp
  then have "take_bit 64 (unat n) = unat n" by (intro take_bit_nat_eq_self) simp
  then show ?thesis by (simp add: unsigned_ucast_eq)
qed

end
