(* ===== verification/Int_Math.thy ===== *)
theory Int_Math
  imports Prelude
begin

text \<open>
  The integer helpers of \<open>base/intmath.hh\<close> and \<open>base/bitfield.hh\<close> that every predictor
  constructor calls: \<open>isPowerOf2\<close>, \<open>leastSigBit\<close>, \<open>floorLog2\<close>, \<open>ceilLog2\<close> at \<open>unsigned\<close> and
  \<open>mask\<close>. The lemmas relate the bit tricks to powers of two.
\<close>

definition leastSigBit :: "unsigned \<Rightarrow> unsigned" where
  "leastSigBit n = n AND NOT (n - 1)"

definition isPowerOf2 :: "unsigned \<Rightarrow> bool" where
  "isPowerOf2 n \<longleftrightarrow> n \<noteq> 0 \<and> leastSigBit n = n"

text \<open>One line \<open>if (x & m) { y += k; x >>= k; }\<close> of the cascade, on the pair \<open>(y, x)\<close>.\<close>

definition log2_halve :: "unsigned \<Rightarrow> nat \<Rightarrow> nat \<times> unsigned \<Rightarrow> nat \<times> unsigned" where
  "log2_halve m k p = (if snd p AND m \<noteq> 0 then (fst p + k, drop_bit k (snd p)) else p)"

text \<open>The \<open>assert(x > 0)\<close> is the \<open>None\<close> case.\<close>

definition floorLog2 :: "unsigned \<Rightarrow> nat option" where
  "floorLog2 x = do {
     assert_that (x > 0);
     let p = log2_halve 0xffff0000 16 (0, x);
     let p = log2_halve 0x0000ff00 8 p;
     let p = log2_halve 0x000000f0 4 p;
     let p = log2_halve 0x0000000c 2 p;
     Some (if snd p AND 0x00000002 \<noteq> 0 then fst p + 1 else fst p) }"

definition ceilLog2 :: "unsigned \<Rightarrow> nat option" where
  "ceilLog2 n = (if n = 1 then Some 0 else map_option Suc (floorLog2 (n - 1)))"

text \<open>\<open>mask(nbits)\<close> is a \<open>uint64_t\<close>; the callers store it in an \<open>unsigned\<close>.\<close>

definition mask64 :: "nat \<Rightarrow> 64 word" where
  "mask64 nbits = (if nbits = 64 then - 1 else push_bit nbits 1 - 1)"

subsection \<open>The cascade computes the integer logarithm\<close>

lemma bit_less_exp_imp:
  fixes x :: "'a::len word"
  assumes "unat x < 2 ^ n" and "bit x i"
  shows "i < n"
proof (rule ccontr)
  assume "\<not> i < n"
  then have "(2::nat) ^ n \<le> 2 ^ i" by simp
  with assms(1) have "unat x < 2 ^ i" by (rule less_le_trans)
  then have "unat x div 2 ^ i = 0" by simp
  moreover have "bit (unat x) i"
    using assms(2) by (simp add: bit_unsigned_iff)
  ultimately show False
    by (simp add: bit_iff_odd)
qed

lemma and_high_half:
  fixes x :: unsigned
  assumes "unat x < 2 ^ (2 * k)" and "2 * k \<le> 32"
  shows "x AND push_bit k (mask k) \<noteq> 0 \<longleftrightarrow> 2 ^ k \<le> unat x"
proof -
  have "drop_bit k (x AND push_bit k (mask k)) = drop_bit k x"
    using assms(2)
    by (intro bit_word_eqI) (auto simp: bit_simps dest: bit_less_exp_imp [OF assms(1)])
  moreover have "x AND push_bit k (mask k) = 0" if "drop_bit k x = 0"
  proof (rule bit_word_eqI)
    fix i
    show "bit (x AND push_bit k (mask k)) i = bit 0 i"
      using arg_cong [OF that, where f = "\<lambda>w. bit w (i - k)"] by (auto simp: bit_simps)
  qed
  ultimately have "x AND push_bit k (mask k) = 0 \<longleftrightarrow> drop_bit k x = 0"
    by (metis drop_bit_of_0)
  also have "\<dots> \<longleftrightarrow> unat x div 2 ^ k = 0"
    by (metis unat_drop_bit_eq drop_bit_eq_div unat_eq_zero)
  finally show ?thesis
    by (simp add: div_eq_0_iff not_less)
qed

lemma log2_step:
  fixes x :: unsigned
  assumes "N div 2 ^ y = unat x" and "0 < unat x" and "unat x < 2 ^ (2 * k)" and "2 * k \<le> 32"
    and "r = (if x AND push_bit k (mask k) \<noteq> 0 then (y + k, drop_bit k x) else (y, x))"
  shows "N div 2 ^ fst r = unat (snd r) \<and> 0 < unat (snd r) \<and> unat (snd r) < 2 ^ k"
proof (cases "2 ^ k \<le> unat x")
  case True
  have "unat (drop_bit k x) = unat x div 2 ^ k"
    by (simp only: unat_drop_bit_eq) (simp add: drop_bit_eq_div)
  moreover have "unat x div 2 ^ k < 2 ^ k"
    using assms(3) by (simp add: less_mult_imp_div_less mult_2 power_add)
  ultimately show ?thesis
    using True assms and_high_half [OF assms(3,4)]
    by (simp add: power_add div_mult2_eq [symmetric] div_greater_zero_iff)
      (metis assms(1) div_mult2_eq)
next
  case False
  then show ?thesis
    using assms and_high_half [OF assms(3,4)] by simp
qed

lemma log2_halve_step:
  assumes "N div 2 ^ fst p = unat (snd p)" and "0 < unat (snd p)" and "unat (snd p) < 2 ^ (2 * k)"
    and "2 * k \<le> 32" and "m = push_bit k (mask k)" and "q = log2_halve m k p"
  shows "N div 2 ^ fst q = unat (snd q)" and "0 < unat (snd q)" and "unat (snd q) < 2 ^ k"
  using log2_step [OF assms(1-4) refl] assms(5,6) by (simp_all add: log2_halve_def split: if_splits)

lemma log2_masks:
  "(0xffff0000 :: unsigned) = push_bit 16 (mask 16)" "(0xff00 :: unsigned) = push_bit 8 (mask 8)"
  "(0xf0 :: unsigned) = push_bit 4 (mask 4)" "(0xc :: unsigned) = push_bit 2 (mask 2)"
  "(2 :: unsigned) = push_bit 1 (mask 1)"
  by (simp_all add: mask_numeral)

lemma floorLog2_spec:
  assumes "x \<noteq> 0"
  shows "\<exists>y. floorLog2 x = Some y \<and> 2 ^ y \<le> unat x \<and> unat x < 2 ^ Suc y \<and> y < 32"
proof -
  have x: "unat x div 2 ^ fst (0::nat, x) = unat (snd (0::nat, x))" "0 < unat (snd (0::nat, x))"
    "unat (snd (0::nat, x)) < 2 ^ (2 * 16)"
    using assms unsigned_less [of x, where ?'a = nat] by (simp_all add: unat_gt_0)
  define p16 where "p16 = log2_halve 0xffff0000 16 (0, x)"
  define p8 where "p8 = log2_halve 0xff00 8 p16"
  define p4 where "p4 = log2_halve 0xf0 4 p8"
  define p2 where "p2 = log2_halve 0xc 2 p4"
  define p1 where "p1 = log2_halve 2 1 p2"
  note s16 = log2_halve_step [OF x _ log2_masks(1) p16_def, simplified]
  note s8 = log2_halve_step [of _ p16 8, OF _ _ _ _ log2_masks(2) p8_def, simplified, OF s16]
  note s4 = log2_halve_step [of _ p8 4, OF _ _ _ _ log2_masks(3) p4_def, simplified, OF s8]
  note s2 = log2_halve_step [of _ p4 2, OF _ _ _ _ log2_masks(4) p2_def, simplified, OF s4]
  note s1 = log2_halve_step [of _ p2 1, OF _ _ _ _ log2_masks(5) p1_def, simplified, OF s2]
  have "floorLog2 x = Some (fst p1)"
    using assms
    by (simp add: floorLog2_def assert_that_def word_gt_0 p1_def p2_def p4_def p8_def p16_def
        log2_halve_def [of 2 "Suc 0"] Let_def)
  moreover from s1 have "unat x div 2 ^ fst p1 = 1" by simp
  then have b: "2 ^ fst p1 \<le> unat x \<and> unat x < 2 ^ Suc (fst p1)"
    by (metis One_nat_def Suc_1 div_less div_less_iff_less_mult lessI linorder_not_less
        mult.commute nat.distinct(1) power_Suc zero_less_numeral zero_less_power)
  moreover from b x(3) have "(2::nat) ^ fst p1 < 2 ^ 32" by simp
  then have "fst p1 < 32" using power_less_imp_less_exp [of "2::nat" "fst p1" 32] by simp
  ultimately show ?thesis by blast
qed

lemma floorLog2_unique:
  assumes "2 ^ k \<le> unat x" and "unat x < 2 ^ Suc k"
  shows "floorLog2 x = Some k"
proof -
  have "x \<noteq> 0" using assms(1) by (auto simp: not_le)
  then obtain y where y: "floorLog2 x = Some y" "2 ^ y \<le> unat x" "unat x < 2 ^ Suc y"
    using floorLog2_spec by blast
  have "(2::nat) ^ y < 2 ^ Suc k" "(2::nat) ^ k < 2 ^ Suc y"
    using y assms by linarith+
  then have "y < Suc k" "k < Suc y"
    by (simp_all only: power_strict_increasing_iff one_less_numeral_iff semiring_norm)
  with y(1) show ?thesis by simp
qed

subsection \<open>Powers of two\<close>

lemma unat_exp [simp]: "k < 32 \<Longrightarrow> unat ((2::unsigned) ^ k) = 2 ^ k"
proof -
  assume "k < 32"
  then have "(2::nat) ^ k < 2 ^ 32" by (intro power_strict_increasing) simp_all
  then have "unat (of_nat (2 ^ k) :: unsigned) = 2 ^ k" by (simp add: unat_of_nat del: of_nat_power)
  then show ?thesis by simp
qed

lemma bit_of_between:
  fixes x :: unsigned
  assumes "2 ^ k \<le> unat x" and "unat x < 2 ^ Suc k"
  shows "bit x k"
proof -
  have "unat x div 2 ^ k = 1"
    using assms by (intro div_nat_eqI) simp_all
  then have "bit (unat x) k" by (simp add: bit_iff_odd)
  then show ?thesis by (simp add: bit_unsigned_iff)
qed

lemma isPowerOf2_disjoint: "isPowerOf2 n \<Longrightarrow> \<not> (bit n i \<and> bit (n - 1) i)"
  unfolding isPowerOf2_def leastSigBit_def
  by (metis bit_and_iff bit_not_iff)

theorem isPowerOf2_iff: "isPowerOf2 n \<longleftrightarrow> (\<exists>k < 32. n = 2 ^ k)"
proof
  assume p: "isPowerOf2 n"
  then have n: "n \<noteq> 0" by (simp add: isPowerOf2_def)
  then obtain k where k: "2 ^ k \<le> unat n" "unat n < 2 ^ Suc k" "k < 32"
    using floorLog2_spec by blast
  have "\<not> bit (n - 1) k" using isPowerOf2_disjoint [OF p] bit_of_between [OF k(1,2)] by blast
  then have "\<not> 2 ^ k \<le> unat (n - 1)"
    using bit_of_between [of k "n - 1"] k(2) n by (fastforce simp: unat_minus_one)
  with k(1) n have "unat n = 2 ^ k" by (simp add: unat_minus_one)
  then have "n = 2 ^ k" using k(3) by (simp add: word_unat_eq_iff)
  with k(3) show "\<exists>k < 32. n = 2 ^ k" by blast
next
  assume "\<exists>k < 32. n = 2 ^ k"
  then obtain k where k: "k < 32" and n: "n = 2 ^ k" by blast
  have "n AND NOT (n - 1) = n"
    using k unfolding n
    by (intro bit_word_eqI) (auto simp: bit_simps bit_exp_iff simp flip: mask_eq_exp_minus_1)
  moreover have "n \<noteq> 0" using k unfolding n by (metis power_not_zero unat_0 unat_exp zero_neq_numeral)
  ultimately show "isPowerOf2 n" by (simp add: isPowerOf2_def leastSigBit_def)
qed

lemma ceilLog2_exp: "k < 32 \<Longrightarrow> ceilLog2 (2 ^ k) = Some k"
proof (cases k)
  case (Suc j)
  assume k: "k < 32"
  then have "(2::unsigned) ^ k \<noteq> 0" by (metis power_not_zero unat_0 unat_exp zero_neq_numeral)
  then have u: "unat ((2::unsigned) ^ k - 1) = 2 ^ k - 1" using k by (simp add: unat_minus_one)
  then have "floorLog2 (2 ^ k - 1) = Some j"
    using Suc by (intro floorLog2_unique) simp_all
  moreover have "(2::unsigned) ^ k \<noteq> 1"
    using k Suc by (metis nat_zero_less_power_iff one_less_numeral_iff one_less_power unat_1 unat_exp less_irrefl semiring_norm(76) zero_less_Suc)
  ultimately show ?thesis using Suc by (simp add: ceilLog2_def)
qed (simp add: ceilLog2_def)

lemma ucast_mask64: "k < 32 \<Longrightarrow> (ucast (mask64 k) :: unsigned) = 2 ^ k - 1"
  by (rule bit_word_eqI)
    (auto simp: mask64_def bit_simps push_bit_of_1 simp flip: mask_eq_exp_minus_1)

lemma ceilLog2_mask:
  "isPowerOf2 n \<Longrightarrow> \<exists>k. ceilLog2 n = Some k \<and> k < 32 \<and> ucast (mask64 k) = n - 1 \<and> unat n = 2 ^ k"
  using ceilLog2_exp ucast_mask64 by (auto simp: isPowerOf2_iff)

text \<open>
  The constructors set \<open>globalHistoryMask = globalPredictorSize - 1\<close> with the comment
  that this is equivalent to \<open>mask(log2(globalPredictorSize))\<close>, and they set
  \<open>localPredictorMask = mask(ceilLog2(localPredictorSize))\<close>. For every size that
  \<open>isPowerOf2\<close> accepts the two agree: the logarithm is defined and the mask is \<open>n - 1\<close>.
\<close>

theorem mask_ceilLog2:
  assumes "isPowerOf2 n"
  shows "\<exists>k. ceilLog2 n = Some k \<and> k < 32 \<and> ucast (mask64 k) = n - 1 \<and> unat n = 2 ^ k"
  using assms by (rule ceilLog2_mask)

theorem mask_ceilLog2_witness: "\<exists>k. ceilLog2 8192 = Some k \<and> k < 32 \<and> ucast (mask64 k) = (8191 :: unsigned)"
proof -
  have "isPowerOf2 8192" by code_simp
  then show ?thesis using mask_ceilLog2 [of 8192] by auto
qed

end
