(* ===== verification/Sat_Counter.thy ===== *)
theory Sat_Counter
  imports Int_Math
begin

text \<open>
  \<open>cpu/pred/sat_counter.hh\<close>: the n-bit saturating counter all tables are made of. The
  contract of a counter as its clients use it is the locale \<open>saturating\<close> over the value
  \<open>read()\<close>; the counter of the source interprets it. The lemmas of the locale about runs of
  increments and decrements are what the learning properties of the predictors rest on.
\<close>

record SatCounter =
  initialVal :: uint8
  maxVal :: uint8
  counter :: uint8

text \<open>
  \<open>SatCounter()\<close> leaves \<open>maxVal\<close> uninitialised; the parameter \<open>junk\<close> is whatever the
  memory holds.
\<close>

definition SatCounter_default :: "uint8 \<Rightarrow> SatCounter" where
  "SatCounter_default junk = \<lparr>initialVal = 0, maxVal = junk, counter = 0\<rparr>"

text \<open>
  \<open>(1 << bits) - 1\<close> in \<open>int\<close>, stored in a \<open>uint8_t\<close>. The expression overflows \<open>int\<close>, or
  shifts by at least the width, from \<open>bits = 31\<close> on.
\<close>

definition maxVal_of_bits :: "unsigned \<Rightarrow> uint8 option" where
  "maxVal_of_bits bits =
     (if unat bits < 31 then Some (ucast (push_bit (unat bits) 1 - 1 :: unsigned)) else None)"

definition SatCounter_bits :: "unsigned \<Rightarrow> SatCounter option" where
  "SatCounter_bits bits = do {
     m \<leftarrow> maxVal_of_bits bits;
     Some \<lparr>initialVal = 0, maxVal = m, counter = 0\<rparr> }"

definition SatCounter_init :: "unsigned \<Rightarrow> uint8 \<Rightarrow> bp_error + SatCounter" where
  "SatCounter_init bits initial_val =
     (case maxVal_of_bits bits of
        None \<Rightarrow> Inl Fault
      | Some m \<Rightarrow>
          if initial_val > m then Inl (Fatal ''BP: Initial counter value exceeds max size.'')
          else Inr \<lparr>initialVal = initial_val, maxVal = m, counter = initial_val\<rparr>)"

definition setBits :: "unsigned \<Rightarrow> SatCounter \<Rightarrow> SatCounter option" where
  "setBits bits c = do { m \<leftarrow> maxVal_of_bits bits; Some (c\<lparr>maxVal := m\<rparr>) }"

definition sat_reset :: "SatCounter \<Rightarrow> SatCounter" where
  "sat_reset c = c\<lparr>counter := initialVal c\<rparr>"

definition increment :: "SatCounter \<Rightarrow> SatCounter" where
  "increment c = (if counter c < maxVal c then c\<lparr>counter := counter c + 1\<rparr> else c)"

definition decrement :: "SatCounter \<Rightarrow> SatCounter" where
  "decrement c = (if counter c > 0 then c\<lparr>counter := counter c - 1\<rparr> else c)"

definition sat_read :: "SatCounter \<Rightarrow> uint8" where
  "sat_read c = counter c"

text \<open>
  The loop \<open>for (i = 0; i < size; ++i) ctrs[i].setBits(bits)\<close> over a freshly resized vector.
\<close>

definition fresh_counters :: "uint8 \<Rightarrow> unsigned \<Rightarrow> unsigned \<Rightarrow> SatCounter list option" where
  "fresh_counters junk sz bits =
     those (map (setBits bits) (replicate (unat sz) (SatCounter_default junk)))"

text \<open>\<open>ctrs[i].read() > threshold\<close>: the \<open>uint8_t\<close> is promoted to \<open>unsigned\<close>.\<close>

definition above :: "unsigned \<Rightarrow> SatCounter \<Rightarrow> bool" where
  "above threshold c \<longleftrightarrow> threshold < ucast (sat_read c)"

text \<open>\<open>(ULL(1) << (bits - 1)) - 1\<close>, stored in an \<open>unsigned\<close>; \<open>bits - 1\<close> wraps.\<close>

definition threshold_of_bits :: "unsigned \<Rightarrow> unsigned option" where
  "threshold_of_bits bits =
     (if unat (bits - 1) < 64 then Some (ucast (push_bit (unat (bits - 1)) 1 - 1 :: 64 word))
      else None)"

text \<open>
  \<open>(ULL(1) << 2*(bits - 1)) - 1\<close>, the threshold of the second choice counters of the predictors
  with three components.
\<close>

definition threshold2_of_bits :: "unsigned \<Rightarrow> unsigned option" where
  "threshold2_of_bits bits =
     (if unat (2 * (bits - 1)) < 64 then Some (ucast (push_bit (unat (2 * (bits - 1))) 1 - 1 :: 64 word))
      else None)"

subsection \<open>The contract of a saturating counter\<close>

locale saturating =
  fixes val :: "'c \<Rightarrow> nat" and top :: "'c \<Rightarrow> nat"
    and up :: "'c \<Rightarrow> 'c" and down :: "'c \<Rightarrow> 'c" and ok :: "'c \<Rightarrow> bool"
  assumes val_le: "ok c \<Longrightarrow> val c \<le> top c"
    and ok_up: "ok c \<Longrightarrow> ok (up c)"
    and ok_down: "ok c \<Longrightarrow> ok (down c)"
    and top_up: "top (up c) = top c"
    and top_down: "top (down c) = top c"
    and val_up: "ok c \<Longrightarrow> val (up c) = min (top c) (val c + 1)"
    and val_down: "ok c \<Longrightarrow> val (down c) = val c - 1"
begin

lemma top_up_n: "top ((up ^^ n) c) = top c"
  by (induction n) (simp_all add: top_up)

lemma top_down_n: "top ((down ^^ n) c) = top c"
  by (induction n) (simp_all add: top_down)

lemma ok_up_n: "ok c \<Longrightarrow> ok ((up ^^ n) c)"
  by (induction n) (simp_all add: ok_up)

lemma ok_down_n: "ok c \<Longrightarrow> ok ((down ^^ n) c)"
  by (induction n) (simp_all add: ok_down)

lemma val_up_n: "ok c \<Longrightarrow> val ((up ^^ n) c) = min (top c) (val c + n)"
proof (induction n)
  case 0
  then show ?case using val_le by simp
next
  case (Suc n)
  then show ?case by (simp add: val_up ok_up_n top_up_n)
qed

lemma val_down_n: "ok c \<Longrightarrow> val ((down ^^ n) c) = val c - n"
  by (induction n) (simp_all add: val_down ok_down_n)

lemma up_n_saturates: "ok c \<Longrightarrow> top c \<le> n \<Longrightarrow> val ((up ^^ n) c) = top c"
  by (simp add: val_up_n)

lemma down_n_saturates: "ok c \<Longrightarrow> top c \<le> n \<Longrightarrow> val ((down ^^ n) c) = 0"
  using val_le [of c] by (simp add: val_down_n)

end

definition sat_ok :: "SatCounter \<Rightarrow> bool" where
  "sat_ok c \<longleftrightarrow> counter c \<le> maxVal c \<and> initialVal c \<le> maxVal c"

lemma maxVal_keep [simp]:
  "maxVal (increment c) = maxVal c" "maxVal (decrement c) = maxVal c" "maxVal (sat_reset c) = maxVal c"
  by (simp_all add: increment_def decrement_def sat_reset_def)

lemma initialVal_keep [simp]:
  "initialVal (increment c) = initialVal c" "initialVal (decrement c) = initialVal c"
  "initialVal (sat_reset c) = initialVal c"
  by (simp_all add: increment_def decrement_def sat_reset_def)

lemma unat_increment:
  assumes "sat_ok c"
  shows "unat (counter (increment c)) = min (unat (maxVal c)) (unat (counter c) + 1)"
proof (cases "counter c < maxVal c")
  case True
  then have "unat (counter c + 1) = unat (counter c) + 1"
    by unat_arith
  with True show ?thesis by (simp add: increment_def word_less_nat_alt)
next
  case False
  with assms show ?thesis by (simp add: increment_def sat_ok_def word_less_nat_alt word_le_nat_alt)
qed

lemma unat_decrement: "unat (counter (decrement c)) = unat (counter c) - 1"
  by (auto simp: decrement_def unat_minus_one word_gt_0)

lemma sat_ok_simps [intro]:
  "sat_ok c \<Longrightarrow> sat_ok (increment c)"
  "sat_ok c \<Longrightarrow> sat_ok (decrement c)"
  "sat_ok c \<Longrightarrow> sat_ok (sat_reset c)"
  using unat_increment [of c] unat_decrement [of c]
  by (auto simp: sat_ok_def word_le_nat_alt) (simp add: sat_reset_def)

interpretation sat: saturating "\<lambda>c. unat (counter c)" "\<lambda>c. unat (maxVal c)" increment decrement sat_ok
  by unfold_locales
    (auto simp: unat_increment unat_decrement, simp add: sat_ok_def word_le_nat_alt)

subsection \<open>Tables of counters\<close>

definition ctr_ok :: "unsigned \<Rightarrow> SatCounter \<Rightarrow> bool" where
  "ctr_ok bits c \<longleftrightarrow> sat_ok c \<and> maxVal_of_bits bits = Some (maxVal c)"

definition ctrs_ok :: "unsigned \<Rightarrow> unsigned \<Rightarrow> SatCounter list \<Rightarrow> bool" where
  "ctrs_ok sz bits cs \<longleftrightarrow> length cs = unat sz \<and> list_all (ctr_ok bits) cs"

lemma ctr_ok_step:
  "ctr_ok bits c \<Longrightarrow> ctr_ok bits (increment c)" "ctr_ok bits c \<Longrightarrow> ctr_ok bits (decrement c)"
  by (auto simp: ctr_ok_def)

lemma ctrs_ok_length: "ctrs_ok sz bits cs \<Longrightarrow> length cs = unat sz"
  by (simp add: ctrs_ok_def)

lemma ctrs_ok_nth: "ctrs_ok sz bits cs \<Longrightarrow> i < unat sz \<Longrightarrow> ctr_ok bits (cs ! i)"
  by (simp add: ctrs_ok_def list_all_length)

lemma ctrs_ok_update:
  "ctrs_ok sz bits cs \<Longrightarrow> (i < unat sz \<Longrightarrow> ctr_ok bits c) \<Longrightarrow> ctrs_ok sz bits (cs[i := c])"
  by (auto simp: ctrs_ok_def intro: list_all_list_update)

lemma ctrs_ok_train:
  "ctrs_ok sz bits cs \<Longrightarrow> ctrs_ok sz bits (cs[i := (if b then increment else decrement) (cs ! i)])"
  by (rule ctrs_ok_update) (simp_all add: ctrs_ok_nth ctr_ok_step)

lemma those_map_Some: "(\<And>x. x \<in> set xs \<Longrightarrow> f x = Some (g x)) \<Longrightarrow> those (map f xs) = Some (map g xs)"
  by (induction xs) auto

text \<open>The table is the same whatever the uninitialised \<open>maxVal\<close> was.\<close>

lemma fresh_counters_Some:
  assumes "maxVal_of_bits bits = Some m"
  shows "fresh_counters junk sz bits =
    Some (replicate (unat sz) \<lparr>initialVal = 0, maxVal = m, counter = 0\<rparr>)"
proof -
  have "those (map (setBits bits) (replicate (unat sz) (SatCounter_default junk))) =
    Some (map (\<lambda>c. c\<lparr>maxVal := m\<rparr>) (replicate (unat sz) (SatCounter_default junk)))"
    using assms by (intro those_map_Some) (simp add: setBits_def)
  then show ?thesis by (simp add: fresh_counters_def SatCounter_default_def)
qed

lemma fresh_counters_None:
  assumes "maxVal_of_bits bits = None" and "sz \<noteq> 0"
  shows "fresh_counters junk sz bits = None"
proof -
  obtain n where "unat sz = Suc n" using assms(2) by (metis not0_implies_Suc unat_eq_zero)
  with assms(1) show ?thesis by (simp add: fresh_counters_def setBits_def)
qed

lemma ctrs_ok_fresh: "fresh_counters junk sz bits = Some cs \<Longrightarrow> sz \<noteq> 0 \<Longrightarrow> ctrs_ok sz bits cs"
  by (cases "maxVal_of_bits bits")
    (auto simp: fresh_counters_Some fresh_counters_None ctrs_ok_def ctr_ok_def sat_ok_def
      intro!: list_all_replicate)

subsection \<open>Counter, bound and threshold at a counter width\<close>

lemma unat_maxVal_of_bits:
  assumes "unat bits \<le> 8" and "maxVal_of_bits bits = Some m"
  shows "unat m = 2 ^ unat bits - 1"
proof -
  have m: "m = ucast (push_bit (unat bits) 1 - 1 :: unsigned)"
    using assms(2) by (simp add: maxVal_of_bits_def split: if_splits)
  consider "unat bits = 0" | "unat bits = 1" | "unat bits = 2" | "unat bits = 3" | "unat bits = 4"
    | "unat bits = 5" | "unat bits = 6" | "unat bits = 7" | "unat bits = 8"
    using assms(1) by linarith
  then show ?thesis by cases (simp_all only: m, simp_all)
qed

lemma maxVal_of_bits_Some: "unat bits \<le> 8 \<Longrightarrow> \<exists>m. maxVal_of_bits bits = Some m"
  by (simp add: maxVal_of_bits_def)

lemma threshold_of_bits_Some:
  assumes "1 \<le> unat bits" and "unat bits \<le> 32"
  shows "threshold_of_bits bits = Some (2 ^ (unat bits - 1) - 1)"
proof -
  have "bits \<noteq> 0" using assms(1) by auto
  then have u: "unat (bits - 1) = unat bits - 1" by (rule unat_minus_one)
  then have lt: "unat (bits - 1) < 32" using assms(2) by simp
  have "(ucast (push_bit (unat (bits - 1)) 1 - 1 :: 64 word) :: unsigned) = 2 ^ unat (bits - 1) - 1"
    using ucast_mask64 [OF lt] lt by (simp add: mask64_def)
  with lt show ?thesis by (simp add: threshold_of_bits_def u)
qed

lemma threshold2_of_bits_Some:
  assumes "1 \<le> unat bits" and "unat bits \<le> 8"
  shows "threshold2_of_bits bits = Some (2 ^ (2 * (unat bits - 1)) - 1)"
proof -
  have "bits \<noteq> 0" using assms(1) by auto
  then have v: "unat (bits - 1) = unat bits - 1" by (rule unat_minus_one)
  have u: "unat (2 * (bits - 1)) = 2 * (unat bits - 1)"
    unfolding unat_word_ariths(2) v using assms(2) by simp
  then have lt: "unat (2 * (bits - 1)) < 32" "2 * (unat bits - 1) < 64" using assms(2) by simp_all
  have "(ucast (push_bit (unat (2 * (bits - 1))) 1 - 1 :: 64 word) :: unsigned) = 2 ^ unat (2 * (bits - 1)) - 1"
    using ucast_mask64 [OF lt(1)] lt by (simp add: mask64_def)
  with lt show ?thesis by (simp only: threshold2_of_bits_def u if_True)
qed

text \<open>From two bits on a counter of that width cannot get above the second threshold.\<close>

lemma never_above_threshold2:
  assumes "2 \<le> unat bits" and "unat bits \<le> 8" and "unat w \<le> unat bits" and "ctr_ok w c"
    and "threshold2_of_bits bits = Some th"
  shows "\<not> above th c"
proof -
  let ?k = "2 * (unat bits - 1)"
  have th: "th = 2 ^ ?k - 1" using threshold2_of_bits_Some [of bits] assms by simp
  have lt: "?k < 32" using assms by simp
  then have "(2::unsigned) ^ ?k \<noteq> 0" by (metis power_not_zero unat_0 unat_exp zero_neq_numeral)
  then have "unat th = 2 ^ ?k - 1" using lt by (simp add: th unat_minus_one)
  moreover have "unat (counter c) \<le> 2 ^ unat w - 1"
    using assms(2-4) unat_maxVal_of_bits [of w "maxVal c"] by (simp add: ctr_ok_def sat_ok_def word_le_nat_alt)
  moreover have "(2::nat) ^ unat w \<le> 2 ^ ?k" using assms(1,3) by (intro power_increasing) auto
  ultimately show ?thesis
    by (simp only: above_def sat_read_def word_less_nat_alt unat_ucast_uint8)
qed

lemma above_iff:
  assumes "1 \<le> unat bits" and "unat bits \<le> 8" and "threshold_of_bits bits = Some th"
  shows "above th c \<longleftrightarrow> 2 ^ (unat bits - 1) \<le> unat (counter c)"
proof -
  have th: "th = 2 ^ (unat bits - 1) - 1" using threshold_of_bits_Some [of bits] assms by simp
  have lt: "unat bits - 1 < 32" using assms by simp
  then have "(2::unsigned) ^ (unat bits - 1) \<noteq> 0" by (metis power_not_zero unat_0 unat_exp zero_neq_numeral)
  then have "unat th = 2 ^ (unat bits - 1) - 1" using lt by (simp add: th unat_minus_one)
  moreover have "unat (ucast (counter c) :: unsigned) = unat (counter c)"
    by (rule unat_ucast_uint8)
  moreover have "(1::nat) \<le> 2 ^ (unat bits - 1)" by simp
  ultimately show ?thesis
    by (simp only: above_def sat_read_def word_less_nat_alt) linarith
qed

lemma half_le_max:
  assumes "1 \<le> unat bits" and "unat bits \<le> 8" and "ctr_ok bits c"
  shows "2 ^ (unat bits - 1) \<le> unat (maxVal c)" and "unat (maxVal c) < 2 * 2 ^ (unat bits - 1)"
proof -
  have m: "unat (maxVal c) = 2 ^ unat bits - 1"
    using assms by (intro unat_maxVal_of_bits) (simp_all add: ctr_ok_def)
  obtain n where "unat bits = Suc n" using assms(1) by (cases "unat bits") auto
  then show "2 ^ (unat bits - 1) \<le> unat (maxVal c)" "unat (maxVal c) < 2 * 2 ^ (unat bits - 1)"
    by (simp_all add: m)
qed

text \<open>Half of the range is enough to cross the middle, from wherever the counter starts.\<close>

lemma train_n_half:
  assumes "1 \<le> unat bits" and "unat bits \<le> 8" and "ctr_ok bits c" and "2 ^ (unat bits - 1) \<le> n"
  shows "2 ^ (unat bits - 1) \<le> unat (counter ((increment ^^ n) c))"
    and "unat (counter ((decrement ^^ n) c)) < 2 ^ (unat bits - 1)"
proof -
  have ok: "sat_ok c" using assms(3) by (simp add: ctr_ok_def)
  show "2 ^ (unat bits - 1) \<le> unat (counter ((increment ^^ n) c))"
    using half_le_max(1) [OF assms(1-3)] assms(4) by (simp add: sat.val_up_n [OF ok])
  have "unat (counter c) - n < 2 ^ (unat bits - 1)"
    using half_le_max(2) [OF assms(1-3)] assms(4) sat.val_le [OF ok] by linarith
  then show "unat (counter ((decrement ^^ n) c)) < 2 ^ (unat bits - 1)" by (simp add: sat.val_down_n [OF ok])
qed

text \<open>
  \<^bold>\<open>C21.\<close> A counter of \<open>bits\<close> bits that was seen taken \<open>2\<close> to the \<open>bits - 1\<close> times in a row is
  above the threshold the predictors use, whatever it held before, and after as many
  not-taken outcomes it is not; so every table entry learns a constant outcome in half its
  range.
\<close>

theorem counter_learns:
  assumes "1 \<le> unat bits" and "unat bits \<le> 8" and "ctr_ok bits c"
    and "threshold_of_bits bits = Some th" and "2 ^ (unat bits - 1) \<le> n"
  shows "above th ((increment ^^ n) c) \<and> \<not> above th ((decrement ^^ n) c)"
  using train_n_half [OF assms(1-3,5)] by (simp add: above_iff [OF assms(1,2,4)])

theorem counter_learns_witness:
  "above 1 ((increment ^^ 2) \<lparr>initialVal = 0, maxVal = 3, counter = 0\<rparr>)"
proof -
  have "ctr_ok 2 \<lparr>initialVal = 0, maxVal = 3, counter = 0\<rparr>" "threshold_of_bits 2 = Some 1" by code_simp+
  then show ?thesis using counter_learns [of 2 "\<lparr>initialVal = 0, maxVal = 3, counter = 0\<rparr>" 1 2] by simp
qed

end
