(* ===== verification/Pred_Interface.thy ===== *)
theory Pred_Interface
  imports Sat_Counter
begin

text \<open>
  The interface between the \<open>BPredUnit\<close> base class and the direction predictors derived from
  it (\<open>cpu/pred/bpred_unit.hh\<close>): the virtual functions as a record of operations, the
  statistics the derived classes increment, and two contracts as locales.

  \<open>direction_predictor\<close> is what \<open>BPredUnit\<close> relies on to run at all: under an invariant no
  virtual function faults, the invariant and the configuration are kept, and the history
  object a prediction hands out stays acceptable to \<open>update\<close>, \<open>squash\<close>, \<open>btbUpdate\<close> and
  \<open>getGHR\<close>. \<open>speculative_predictor\<close> adds that \<open>squash\<close> undoes what the prediction did to
  the speculative state (the view), which is the global history of the threads.
\<close>

text \<open>The heap object behind \<open>void *bp_history\<close> is a value; \<open>None\<close> is the null pointer.\<close>

record ('s, 'h) DirPred =
  dp_lookup :: "'s \<Rightarrow> ThreadID \<Rightarrow> Addr \<Rightarrow> (bool \<times> 'h option \<times> 's) option"
  dp_uncondBranch :: "'s \<Rightarrow> ThreadID \<Rightarrow> Addr \<Rightarrow> ('h option \<times> 's) option"
  dp_btbUpdate :: "'s \<Rightarrow> ThreadID \<Rightarrow> Addr \<Rightarrow> 'h option \<Rightarrow> 's option"
  dp_update :: "'s \<Rightarrow> ThreadID \<Rightarrow> Addr \<Rightarrow> bool \<Rightarrow> 'h option \<Rightarrow> bool \<Rightarrow> 's option"
  dp_squash :: "'s \<Rightarrow> ThreadID \<Rightarrow> 'h option \<Rightarrow> 's option"
  dp_getGHR :: "'s \<Rightarrow> ThreadID \<Rightarrow> 'h option \<Rightarrow> unsigned option"

text \<open>
  The scalars \<open>BPredUnit\<close> declares for the ensemble experiments, incremented by
  \<open>updateAdditionalStats\<close> of the derived classes.
\<close>

record ExpertStats =
  atLeastOneCorrectExpertOnMispredict :: nat
  allExpertsWrong :: nat
  allExpertsRight :: nat
  lowWeightExpertsWon :: nat
  oneCorrectExpert :: nat
  twoCorrectExpert :: nat
  threeCorrectExpert :: nat

definition zero_stats :: ExpertStats where
  "zero_stats = \<lparr>atLeastOneCorrectExpertOnMispredict = 0, allExpertsWrong = 0, allExpertsRight = 0,
     lowWeightExpertsWon = 0, oneCorrectExpert = 0, twoCorrectExpert = 0, threeCorrectExpert = 0\<rparr>"

text \<open>\<open>static const int invalidPredictorIndex = -1\<close>, stored in \<open>unsigned\<close> fields.\<close>

definition invalidPredictorIndex :: unsigned where
  "invalidPredictorIndex = - 1"

text \<open>\<open>(h << 1) | taken\<close>\<close>

definition shift_in :: "unsigned \<Rightarrow> bool \<Rightarrow> unsigned" where
  "shift_in h taken = push_bit 1 h OR of_bool taken"

text \<open>\<open>if (taken) c.increment(); else c.decrement();\<close>\<close>

definition train :: "bool \<Rightarrow> SatCounter \<Rightarrow> SatCounter" where
  "train taken = (if taken then increment else decrement)"

lemma ctrs_ok_train_at: "ctrs_ok sz bits cs \<Longrightarrow> ctrs_ok sz bits (cs[i := train b (cs ! i)])"
  using ctrs_ok_train [of sz bits cs i b] by (simp add: train_def)

lemma shift_in_simps [simp]:
  "shift_in h True = push_bit 1 h OR 1" "shift_in h False = push_bit 1 h"
  by (simp_all add: shift_in_def)

text \<open>Masking before or after the shift gives the same register contents.\<close>

lemma bit_shift_in: "bit (shift_in h b) n \<longleftrightarrow> n < 32 \<and> (if n = 0 then b else bit h (n - 1))"
  unfolding shift_in_def
  by (simp only: bit_or_iff bit_push_bit_iff bit_of_bool_iff possible_bit_word) auto

lemma shift_in_and_mask: "shift_in (h AND mask k) b AND mask k = shift_in h b AND mask k"
  by (rule bit_word_eqI) (auto simp: bit_shift_in bit_simps)

text \<open>
  \<open>calcLocHistIdx\<close>, the same text in every class with a local history table:
  \<open>(branch_addr >> instShiftAmt) & (localHistoryTableSize - 1)\<close>.
\<close>

definition loc_hist_idx :: "unsigned \<Rightarrow> unsigned \<Rightarrow> Addr \<Rightarrow> unsigned option" where
  "loc_hist_idx sh sz a = do { x \<leftarrow> shr64 a sh; Some (ucast (x AND ucast (sz - 1))) }"

definition lhi :: "unsigned \<Rightarrow> unsigned \<Rightarrow> Addr \<Rightarrow> unsigned" where
  "lhi sh sz a = ucast (drop_bit (unat sh) a AND ucast (sz - 1))"

lemma loc_hist_idx_eq: "unat sh < 64 \<Longrightarrow> loc_hist_idx sh sz a = Some (lhi sh sz a)"
  by (simp add: loc_hist_idx_def lhi_def fault_simps)

lemma lhi_less: "sz \<noteq> 0 \<Longrightarrow> unat (lhi sh sz a) < unat sz" "sz \<noteq> 0 \<Longrightarrow> lhi sh sz a < sz"
  by (simp_all add: lhi_def unat_ucast_and_less word_less_nat_alt)

text \<open>
  The two other ways the classes index a table with an address: \<open>(addr >> shift) & mask\<close>, and the
  gshare hash \<open>((addr >> shift) ^ history) & mask\<close>.
\<close>

definition pc_idx :: "unsigned \<Rightarrow> unsigned \<Rightarrow> Addr \<Rightarrow> unsigned option" where
  "pc_idx sh m a = do { x \<leftarrow> shr64 a sh; Some (ucast (x AND ucast m)) }"

definition hash_idx :: "unsigned \<Rightarrow> unsigned \<Rightarrow> Addr \<Rightarrow> unsigned \<Rightarrow> unsigned option" where
  "hash_idx sh m a h = do { x \<leftarrow> shr64 a sh; Some (ucast ((x XOR ucast h) AND ucast m)) }"

definition pci :: "unsigned \<Rightarrow> unsigned \<Rightarrow> Addr \<Rightarrow> unsigned" where
  "pci sh m a = ucast (drop_bit (unat sh) a AND ucast m)"

definition hashi :: "unsigned \<Rightarrow> unsigned \<Rightarrow> Addr \<Rightarrow> unsigned \<Rightarrow> unsigned" where
  "hashi sh m a h = ucast ((drop_bit (unat sh) a XOR ucast h) AND ucast m)"

lemma pc_idx_eq: "unat sh < 64 \<Longrightarrow> pc_idx sh m a = Some (pci sh m a)"
  by (simp add: pc_idx_def pci_def fault_simps)

lemma hash_idx_eq: "unat sh < 64 \<Longrightarrow> hash_idx sh m a h = Some (hashi sh m a h)"
  by (simp add: hash_idx_def hashi_def fault_simps)

lemma pci_less: "sz \<noteq> 0 \<Longrightarrow> unat (pci sh (sz - 1) a) < unat sz" "sz \<noteq> 0 \<Longrightarrow> pci sh (sz - 1) a < sz"
  by (simp_all add: pci_def unat_ucast_and_less word_less_nat_alt)

lemma hashi_less: "sz \<noteq> 0 \<Longrightarrow> unat (hashi sh (sz - 1) a h) < unat sz" "sz \<noteq> 0 \<Longrightarrow> hashi sh (sz - 1) a h < sz"
  by (simp_all add: hashi_def unat_ucast_and_less word_less_nat_alt)

lemma hashi_masked: "hashi sh m a (h AND m) = hashi sh m a h"
  by (rule bit_word_eqI) (auto simp: hashi_def bit_simps)

text \<open>\<open>h & (mask & ~ULL(1))\<close>, stored in an \<open>unsigned\<close>.\<close>

definition clear_lsb :: "unsigned \<Rightarrow> unsigned \<Rightarrow> unsigned" where
  "clear_lsb m h = ucast ((ucast h :: 64 word) AND (ucast m AND NOT 1))"

lemma clear_lsb_eq: "clear_lsb m h = h AND m AND NOT 1"
  by (rule bit_word_eqI) (auto simp: clear_lsb_def bit_simps)

lemma clear_lsb_shift_in: "clear_lsb (mask k) (shift_in h b AND mask k) = shift_in h False AND mask k"
  by (rule bit_word_eqI) (auto simp: clear_lsb_eq bit_shift_in bit_simps bit_1_iff simp del: shift_in_simps)

subsection \<open>What the base class relies on\<close>

locale direction_predictor =
  fixes P :: "('s, 'h) DirPred"
    and inv :: "'s \<Rightarrow> bool"
    and cfg :: "'s \<Rightarrow> 'c"
    and threads :: "'c \<Rightarrow> nat"
    and hist_ok :: "'c \<Rightarrow> 'h option \<Rightarrow> bool"
  assumes lookup_ok:
      "inv s \<Longrightarrow> tid_index t < threads (cfg s) \<Longrightarrow>
        \<exists>b h s'. dp_lookup P s t a = Some (b, h, s') \<and> inv s' \<and> cfg s' = cfg s \<and> hist_ok (cfg s) h"
    and uncond_ok:
      "inv s \<Longrightarrow> tid_index t < threads (cfg s) \<Longrightarrow>
        \<exists>h s'. dp_uncondBranch P s t a = Some (h, s') \<and> inv s' \<and> cfg s' = cfg s \<and> hist_ok (cfg s) h"
    and btbUpdate_ok:
      "inv s \<Longrightarrow> tid_index t < threads (cfg s) \<Longrightarrow> hist_ok (cfg s) h \<Longrightarrow>
        \<exists>s'. dp_btbUpdate P s t a h = Some s' \<and> inv s' \<and> cfg s' = cfg s"
    and update_ok:
      "inv s \<Longrightarrow> tid_index t < threads (cfg s) \<Longrightarrow> hist_ok (cfg s) h \<Longrightarrow>
        \<exists>s'. dp_update P s t a b h q = Some s' \<and> inv s' \<and> cfg s' = cfg s"
    and squash_ok:
      "inv s \<Longrightarrow> tid_index t < threads (cfg s) \<Longrightarrow> hist_ok (cfg s) h \<Longrightarrow>
        \<exists>s'. dp_squash P s t h = Some s' \<and> inv s' \<and> cfg s' = cfg s"
    and getGHR_ok:
      "inv s \<Longrightarrow> tid_index t < threads (cfg s) \<Longrightarrow> hist_ok (cfg s) h \<Longrightarrow>
        \<exists>g. dp_getGHR P s t h = Some g"

subsection \<open>Predictors whose squash undoes the prediction\<close>

text \<open>
  \<open>undo t h\<close> is the effect of \<open>squash\<close> on the view. It inverts \<open>lookup\<close> and \<open>uncondBranch\<close>,
  also when \<open>btbUpdate\<close> corrected the prediction in between; a commit does not touch the view.
\<close>

locale speculative_predictor = direction_predictor P inv cfg threads hist_ok
  for P :: "('s, 'h) DirPred" and inv :: "'s \<Rightarrow> bool" and cfg :: "'s \<Rightarrow> 'c"
    and threads :: "'c \<Rightarrow> nat" and hist_ok :: "'c \<Rightarrow> 'h option \<Rightarrow> bool" +
  fixes view :: "'s \<Rightarrow> 'v"
    and undo :: "ThreadID \<Rightarrow> 'h option \<Rightarrow> 'v \<Rightarrow> 'v"
  assumes squash_view:
      "inv s \<Longrightarrow> tid_index t < threads (cfg s) \<Longrightarrow> hist_ok (cfg s) h \<Longrightarrow>
        dp_squash P s t h = Some s' \<Longrightarrow> view s' = undo t h (view s)"
    and undo_lookup:
      "inv s \<Longrightarrow> tid_index t < threads (cfg s) \<Longrightarrow>
        dp_lookup P s t a = Some (b, h, s') \<Longrightarrow> undo t h (view s') = view s"
    and undo_uncond:
      "inv s \<Longrightarrow> tid_index t < threads (cfg s) \<Longrightarrow>
        dp_uncondBranch P s t a = Some (h, s') \<Longrightarrow> undo t h (view s') = view s"
    and undo_lookup_btbUpdate:
      "inv s \<Longrightarrow> tid_index t < threads (cfg s) \<Longrightarrow>
        dp_lookup P s t a = Some (b, h, s') \<Longrightarrow> dp_btbUpdate P s' t a h = Some s'' \<Longrightarrow>
        undo t h (view s'') = view s"
    and undo_uncond_btbUpdate:
      "inv s \<Longrightarrow> tid_index t < threads (cfg s) \<Longrightarrow>
        dp_uncondBranch P s t a = Some (h, s') \<Longrightarrow> dp_btbUpdate P s' t a h = Some s'' \<Longrightarrow>
        undo t h (view s'') = view s"
    and commit_view:
      "inv s \<Longrightarrow> tid_index t < threads (cfg s) \<Longrightarrow> hist_ok (cfg s) h \<Longrightarrow>
        dp_update P s t a b h False = Some s' \<Longrightarrow> view s' = view s"

end
