(* ===== verification/Return_Stack.thy ===== *)
theory Return_Stack
  imports Pred_Interface
begin

text \<open>
  \<open>cpu/pred/ras.hh\<close> and \<open>ras.cc\<close>: the return address stack, a circular buffer. Its abstract
  value is the list of all \<open>numEntries\<close> slots read downwards from the top; the locale
  \<open>circular_stack\<close> states the operations on that list and \<open>ReturnAddrStack\<close> interprets it.
\<close>

record 'pc ReturnAddrStack =
  addrStack :: "'pc list"
  ras_numEntries :: unsigned
  usedEntries :: unsigned
  tos :: unsigned

text \<open>
  \<open>reset\<close> calls \<open>PCState::set(0)\<close> on every slot: the parameter \<open>set0\<close>. \<open>init\<close> first resizes the
  vector with default-constructed elements: the parameter \<open>pc_default\<close>.
\<close>

definition RAS_reset :: "('pc \<Rightarrow> 'pc) \<Rightarrow> 'pc ReturnAddrStack \<Rightarrow> 'pc ReturnAddrStack" where
  "RAS_reset set0 r = r\<lparr>usedEntries := 0, tos := 0, addrStack := map set0 (addrStack r)\<rparr>"

definition RAS_init :: "'pc \<Rightarrow> ('pc \<Rightarrow> 'pc) \<Rightarrow> unsigned \<Rightarrow> 'pc ReturnAddrStack" where
  "RAS_init pc_default set0 n =
     RAS_reset set0 \<lparr>addrStack = replicate (unat n) pc_default, ras_numEntries = n, usedEntries = 0, tos = 0\<rparr>"

definition RAS_top :: "'pc ReturnAddrStack \<Rightarrow> 'pc option" where
  "RAS_top r = vec_at (addrStack r) (unat (tos r))"

definition RAS_topIdx :: "'pc ReturnAddrStack \<Rightarrow> unsigned" where
  "RAS_topIdx r = tos r"

definition RAS_empty :: "'pc ReturnAddrStack \<Rightarrow> bool" where
  "RAS_empty r \<longleftrightarrow> usedEntries r = 0"

definition RAS_full :: "'pc ReturnAddrStack \<Rightarrow> bool" where
  "RAS_full r \<longleftrightarrow> usedEntries r = ras_numEntries r"

definition incrTos :: "'pc ReturnAddrStack \<Rightarrow> 'pc ReturnAddrStack" where
  "incrTos r = (let t = tos r + 1 in r\<lparr>tos := (if t = ras_numEntries r then 0 else t)\<rparr>)"

definition decrTos :: "'pc ReturnAddrStack \<Rightarrow> 'pc ReturnAddrStack" where
  "decrTos r = r\<lparr>tos := (if tos r = 0 then ras_numEntries r - 1 else tos r - 1)\<rparr>"

definition RAS_push :: "'pc ReturnAddrStack \<Rightarrow> 'pc \<Rightarrow> 'pc ReturnAddrStack option" where
  "RAS_push r return_addr = do {
     let r = incrTos r;
     st \<leftarrow> vec_put (addrStack r) (unat (tos r)) return_addr;
     let r = r\<lparr>addrStack := st\<rparr>;
     Some (if usedEntries r \<noteq> ras_numEntries r then r\<lparr>usedEntries := usedEntries r + 1\<rparr> else r) }"

definition RAS_pop :: "'pc ReturnAddrStack \<Rightarrow> 'pc ReturnAddrStack" where
  "RAS_pop r =
     (let r = (if usedEntries r > 0 then r\<lparr>usedEntries := usedEntries r - 1\<rparr> else r) in decrTos r)"

definition RAS_restore :: "'pc ReturnAddrStack \<Rightarrow> unsigned \<Rightarrow> 'pc \<Rightarrow> 'pc ReturnAddrStack option" where
  "RAS_restore r top_entry_idx restored = do {
     let r = r\<lparr>tos := top_entry_idx\<rparr>;
     st \<leftarrow> vec_put (addrStack r) (unat (tos r)) restored;
     Some (r\<lparr>addrStack := st\<rparr>) }"

subsection \<open>Invariant and abstract value\<close>

definition ras_ok :: "'pc ReturnAddrStack \<Rightarrow> bool" where
  "ras_ok r \<longleftrightarrow> ras_numEntries r \<noteq> 0 \<and> length (addrStack r) = unat (ras_numEntries r) \<and>
     tos r < ras_numEntries r \<and> usedEntries r \<le> ras_numEntries r"

definition ras_list :: "'pc ReturnAddrStack \<Rightarrow> 'pc list" where
  "ras_list r = (let n = length (addrStack r) in
     map (\<lambda>j. addrStack r ! ((unat (tos r) + n - j) mod n)) [0..<n])"

lemma length_ras_list [simp]: "length (ras_list r) = length (addrStack r)"
  by (simp add: ras_list_def Let_def)

lemma unat_incrTos:
  assumes "ras_ok r"
  shows "unat (tos (incrTos r)) = (unat (tos r) + 1) mod unat (ras_numEntries r)"
proof (cases "tos r + 1 = ras_numEntries r")
  case True
  have "unat (tos r) + 1 = unat (ras_numEntries r)"
    using True assms by (metis Suc_eq_plus1 add.commute ras_ok_def unatSuc)
  with True show ?thesis by (simp add: incrTos_def)
next
  case False
  from assms have lt: "tos r < ras_numEntries r" by (simp add: ras_ok_def)
  then have "unat (tos r + 1) = unat (tos r) + 1" by unat_arith
  moreover from this False lt have "unat (tos r) + 1 < unat (ras_numEntries r)"
    by (metis Suc_eq_plus1 Suc_lessI word_less_nat_alt word_unat_eq_iff)
  ultimately show ?thesis using False by (simp add: incrTos_def)
qed

lemma unat_decrTos:
  assumes "ras_ok r"
  shows "unat (tos (decrTos r)) = (unat (tos r) + unat (ras_numEntries r) - 1) mod unat (ras_numEntries r)"
proof (cases "tos r = 0")
  case True
  from assms have "0 < unat (ras_numEntries r)" by (simp add: ras_ok_def unat_gt_0)
  with True assms show ?thesis by (simp add: decrTos_def ras_ok_def unat_minus_one)
next
  case False
  with assms show ?thesis
    by (simp add: decrTos_def ras_ok_def unat_minus_one word_less_nat_alt)
      (metis (no_types, lifting) False Nat.add_diff_assoc2 Suc_leI less_imp_diff_less mod_add_self2 mod_less unat_gt_0)
qed

lemma incrTos_simps [simp]:
  "addrStack (incrTos r) = addrStack r" "ras_numEntries (incrTos r) = ras_numEntries r"
  "usedEntries (incrTos r) = usedEntries r"
  by (simp_all add: incrTos_def Let_def)

lemma decrTos_simps [simp]:
  "addrStack (decrTos r) = addrStack r" "ras_numEntries (decrTos r) = ras_numEntries r"
  "usedEntries (decrTos r) = usedEntries r"
  by (simp_all add: decrTos_def)

lemma incrTos_less: "ras_ok r \<Longrightarrow> unat (tos (incrTos r)) < unat (ras_numEntries r)"
  by (simp add: unat_incrTos ras_ok_def unat_gt_0)

lemma decrTos_less: "ras_ok r \<Longrightarrow> unat (tos (decrTos r)) < unat (ras_numEntries r)"
  by (simp add: unat_decrTos ras_ok_def unat_gt_0)

lemma RAS_push_eq:
  assumes "ras_ok r"
  shows "RAS_push r x = Some (r\<lparr>tos := tos (incrTos r), addrStack := (addrStack r)[unat (tos (incrTos r)) := x],
           usedEntries := (if usedEntries r \<noteq> ras_numEntries r then usedEntries r + 1 else usedEntries r)\<rparr>)"
proof -
  have "unat (tos (incrTos r)) < length (addrStack r)"
    using assms incrTos_less [OF assms] by (simp add: ras_ok_def)
  then show ?thesis by (simp add: RAS_push_def vec_put_Some) (simp add: incrTos_def Let_def)
qed

lemma RAS_pop_eq:
  "RAS_pop r = r\<lparr>tos := tos (decrTos r), usedEntries := usedEntries r - (if usedEntries r > 0 then 1 else 0)\<rparr>"
  by (simp add: RAS_pop_def decrTos_def Let_def)

lemma RAS_pop_numEntries [simp]: "ras_numEntries (RAS_pop r) = ras_numEntries r"
  by (simp add: RAS_pop_eq)

lemma RAS_restore_eq:
  "ras_ok r \<Longrightarrow> i < ras_numEntries r \<Longrightarrow>
    RAS_restore r i x = Some (r\<lparr>tos := i, addrStack := (addrStack r)[unat i := x]\<rparr>)"
  by (simp add: RAS_restore_def vec_put_Some ras_ok_def word_less_nat_alt)

lemma RAS_top_eq: "ras_ok r \<Longrightarrow> RAS_top r = Some (addrStack r ! unat (tos r))"
  by (simp add: RAS_top_def vec_at_Some ras_ok_def word_less_nat_alt)

lemma ras_ok_push: "ras_ok r \<Longrightarrow> RAS_push r x = Some r' \<Longrightarrow> ras_ok r'"
  using incrTos_less [of r]
  by (auto simp: RAS_push_eq ras_ok_def word_less_nat_alt word_le_nat_alt) (unat_arith)+

lemma ras_ok_pop: "ras_ok r \<Longrightarrow> ras_ok (RAS_pop r)"
  using decrTos_less [of r]
  by (auto simp: RAS_pop_eq ras_ok_def word_less_nat_alt word_le_nat_alt) (unat_arith)+

lemma ras_ok_restore: "ras_ok r \<Longrightarrow> i < ras_numEntries r \<Longrightarrow> RAS_restore r i x = Some r' \<Longrightarrow> ras_ok r'"
  by (auto simp: RAS_restore_eq ras_ok_def)

lemma ras_ok_reset: "ras_ok r \<Longrightarrow> ras_ok (RAS_reset set0 r)"
  by (auto simp: RAS_reset_def ras_ok_def word_gt_0)

lemma ras_ok_init: "n \<noteq> 0 \<Longrightarrow> ras_ok (RAS_init pc_default set0 n)"
  by (auto simp: RAS_init_def RAS_reset_def ras_ok_def word_gt_0)

subsection \<open>The contract: a list that forgets its oldest entry\<close>

fun pushes :: "('r \<Rightarrow> 'pc \<Rightarrow> 'r option) \<Rightarrow> 'r \<Rightarrow> 'pc list \<Rightarrow> 'r option" where
  "pushes push r [] = Some r"
| "pushes push r (x # xs) = do { r' \<leftarrow> push r x; pushes push r' xs }"

fun pops :: "('r \<Rightarrow> 'pc option) \<Rightarrow> ('r \<Rightarrow> 'r) \<Rightarrow> nat \<Rightarrow> 'r \<Rightarrow> 'pc list option" where
  "pops peek pop 0 r = Some []"
| "pops peek pop (Suc n) r = do { x \<leftarrow> peek r; ys \<leftarrow> pops peek pop n (pop r); Some (x # ys) }"

locale circular_stack =
  fixes ok :: "'r \<Rightarrow> bool" and lst :: "'r \<Rightarrow> 'pc list"
    and peek :: "'r \<Rightarrow> 'pc option" and push :: "'r \<Rightarrow> 'pc \<Rightarrow> 'r option" and pop :: "'r \<Rightarrow> 'r"
  assumes lst_nonempty: "ok r \<Longrightarrow> lst r \<noteq> []"
    and top_lst: "ok r \<Longrightarrow> peek r = Some (hd (lst r))"
    and push_lst: "ok r \<Longrightarrow> \<exists>r'. push r x = Some r' \<and> ok r' \<and> lst r' = x # butlast (lst r)"
    and pop_lst: "ok r \<Longrightarrow> ok (pop r) \<and> lst (pop r) = rotate1 (lst r)"
begin

lemma pushes_lst:
  "ok r \<Longrightarrow> \<exists>r'. pushes push r xs = Some r' \<and> ok r' \<and> lst r' = take (length (lst r)) (rev xs @ lst r)"
proof (induction xs arbitrary: r)
  case (Cons x xs)
  then obtain r1 where r1: "push r x = Some r1" "ok r1" "lst r1 = x # butlast (lst r)"
    using push_lst by blast
  then have len: "length (lst r1) = length (lst r)" using lst_nonempty [OF Cons.prems] by simp
  have "lst r1 = take (length (lst r)) (x # lst r)"
    using r1(3) lst_nonempty [OF Cons.prems] by (cases "lst r") (simp_all add: butlast_conv_take)
  then have "take (length (lst r)) (rev xs @ lst r1) = take (length (lst r)) (rev (x # xs) @ lst r)"
    by (simp add: min_def)
  then show ?case using Cons.IH [OF r1(2)] r1(1) len by auto
qed simp

lemma pops_lst: "ok r \<Longrightarrow> k \<le> length (lst r) \<Longrightarrow> pops peek pop k r = Some (take k (lst r))"
proof (induction k arbitrary: r)
  case (Suc k)
  obtain y ys where l: "lst r = y # ys" using lst_nonempty [OF Suc.prems(1)] by (cases "lst r") auto
  then have "lst (pop r) = ys @ [y]" and "ok (pop r)" using pop_lst [OF Suc.prems(1)] by simp_all
  then show ?case using Suc l by (simp add: top_lst)
qed simp

lemma pushes_pops:
  assumes "ok r" and "k \<le> length (lst r)"
  shows "\<exists>r'. pushes push r xs = Some r' \<and> ok r' \<and> pops peek pop k r' = Some (take k (rev xs @ lst r))"
proof -
  obtain r' where r': "pushes push r xs = Some r'" "ok r'"
    "lst r' = take (length (lst r)) (rev xs @ lst r)" using pushes_lst [OF assms(1)] by blast
  moreover have "k \<le> length (lst r')" using r'(3) assms(2) by simp
  ultimately show ?thesis using pops_lst [of r' k] assms(2) by (simp add: min_def)
qed

end

lemma ras_list_top: "ras_ok r \<Longrightarrow> hd (ras_list r) = addrStack r ! unat (tos r)"
  by (auto simp: ras_list_def ras_ok_def Let_def word_less_nat_alt hd_map unat_gt_0 hd_upt)

lemma ras_list_nth:
  "j < length (addrStack r) \<Longrightarrow>
    ras_list r ! j = addrStack r ! ((unat (tos r) + length (addrStack r) - j) mod length (addrStack r))"
  by (simp add: ras_list_def Let_def)

lemma mod_step_back: "t < n \<Longrightarrow> j < n \<Longrightarrow> ((t + n - 1) mod n + n - j) mod n = (t + n - Suc j) mod n"
  for t n j :: nat
proof (cases t)
  case 0
  assume "t < n" "j < n"
  with 0 show ?thesis by (simp add: mod_if)
next
  case (Suc t')
  assume "t < n" "j < n"
  with Suc show ?thesis by (simp add: mod_if)
qed

lemma mod_step_fwd: "t < n \<Longrightarrow> j < n \<Longrightarrow> ((t + 1) mod n + n - Suc j) mod n = (t + n - j) mod n"
  for t n j :: nat
  by (cases "t + 1 = n") (auto simp: mod_if)

lemma mod_fwd_neq: "t < n \<Longrightarrow> Suc j < n \<Longrightarrow> (t + n - j) mod n \<noteq> (t + 1) mod n" for t n j :: nat
  by (cases "t + 1 = n") (auto simp: mod_if)

lemma ras_ok_bounds:
  assumes "ras_ok r"
  shows "length (addrStack r) = unat (ras_numEntries r)" "0 < length (addrStack r)"
    "unat (tos r) < length (addrStack r)"
  using assms by (simp_all add: ras_ok_def unat_gt_0 word_less_nat_alt)

lemma ras_list_push:
  assumes "ras_ok r" and "RAS_push r x = Some r'"
  shows "ras_list r' = x # butlast (ras_list r)"
proof -
  note b = ras_ok_bounds [OF assms(1)]
  let ?n = "length (addrStack r)" and ?t = "unat (tos r)"
  have t': "unat (tos (incrTos r)) = (?t + 1) mod ?n" using unat_incrTos [OF assms(1)] b by simp
  have lt: "(?t + 1) mod ?n < ?n" using b by simp
  have r': "addrStack r' = (addrStack r)[(?t + 1) mod ?n := x]" "unat (tos r') = (?t + 1) mod ?n"
    using assms by (auto simp: RAS_push_eq t')
  show ?thesis
  proof (rule nth_equalityI)
    show "length (ras_list r') = length (x # butlast (ras_list r))" using r' b by simp
    fix i assume "i < length (ras_list r')"
    then have i: "i < ?n" by (simp add: r')
    show "ras_list r' ! i = (x # butlast (ras_list r)) ! i"
    proof (cases i)
      case 0
      then show ?thesis using i lt by (simp add: ras_list_nth r')
    next
      case (Suc j)
      then have "ras_list r' ! i = (addrStack r)[(?t + 1) mod ?n := x] ! ((?t + ?n - j) mod ?n)"
        using i mod_step_fwd [OF b(3), of j] by (simp add: ras_list_nth r')
      also have "\<dots> = addrStack r ! ((?t + ?n - j) mod ?n)"
        using mod_fwd_neq [OF b(3), of j] Suc i by simp
      also have "\<dots> = ras_list r ! j" using Suc i by (simp add: ras_list_nth)
      finally show ?thesis using Suc i by (simp add: nth_butlast)
    qed
  qed
qed

lemma ras_list_pop:
  assumes "ras_ok r"
  shows "ras_list (RAS_pop r) = rotate1 (ras_list r)"
proof (rule nth_equalityI)
  note b = ras_ok_bounds [OF assms]
  let ?n = "length (addrStack r)" and ?t = "unat (tos r)"
  have t': "unat (tos (RAS_pop r)) = (?t + ?n - 1) mod ?n"
    using unat_decrTos [OF assms] b by (simp add: RAS_pop_eq)
  have st: "addrStack (RAS_pop r) = addrStack r" by (simp add: RAS_pop_eq)
  then show "length (ras_list (RAS_pop r)) = length (rotate1 (ras_list r))" by simp
  fix i assume "i < length (ras_list (RAS_pop r))"
  then have i: "i < ?n" by (simp add: st)
  then have "ras_list (RAS_pop r) ! i = addrStack r ! ((?t + ?n - Suc i) mod ?n)"
    using mod_step_back [OF b(3) i] by (simp add: ras_list_nth st t')
  also have "\<dots> = ras_list r ! (Suc i mod ?n)"
    using i b by (cases "Suc i = ?n") (auto simp: ras_list_nth)
  finally show "ras_list (RAS_pop r) ! i = rotate1 (ras_list r) ! i"
    using i by (simp add: nth_rotate1)
qed

interpretation ras: circular_stack ras_ok ras_list RAS_top RAS_push RAS_pop
proof unfold_locales
  fix r :: "'b ReturnAddrStack" and x :: 'b
  assume ok: "ras_ok r"
  show "ras_list r \<noteq> []" using ras_ok_bounds [OF ok] by (metis length_ras_list length_greater_0_conv)
  show "RAS_top r = Some (hd (ras_list r))" using ok by (simp add: RAS_top_eq ras_list_top)
  show "\<exists>r'. RAS_push r x = Some r' \<and> ras_ok r' \<and> ras_list r' = x # butlast (ras_list r)"
    using RAS_push_eq [OF ok, of x] ras_ok_push [OF ok] ras_list_push [OF ok] by metis
  show "ras_ok (RAS_pop r) \<and> ras_list (RAS_pop r) = rotate1 (ras_list r)"
    using ok by (simp add: ras_ok_pop ras_list_pop)
qed

text \<open>A stack of three entries after one push.\<close>

definition sample_ras :: "Addr ReturnAddrStack" where
  "sample_ras = the (RAS_push (RAS_init 0 (\<lambda>_. 0) 3) 7)"

lemma sample_ras_ok: "ras_ok sample_ras"
  by code_simp

text \<open>
  \<^bold>\<open>C17.\<close> Returns match calls: after any sequence of calls pushed their return addresses, the
  next \<open>k \<le> numEntries\<close> returns read them youngest first, followed by what the stack held
  before; when the calls are more than the stack is deep, the youngest \<open>numEntries\<close> remain.
\<close>

theorem RAS_calls_then_returns:
  assumes "ras_ok r" and "k \<le> unat (ras_numEntries r)"
  shows "\<exists>r'. pushes RAS_push r xs = Some r' \<and> ras_ok r' \<and>
    pops RAS_top RAS_pop k r' = Some (take k (rev xs @ ras_list r))"
  using ras.pushes_pops [OF assms(1), of k xs] assms by (simp add: ras_ok_def)

theorem RAS_calls_then_returns_witness:
  "\<exists>r'. pushes RAS_push sample_ras [0x10, 0x20] = Some r' \<and> ras_ok r' \<and>
    pops RAS_top RAS_pop 3 r' = Some [0x20, 0x10, 7]"
proof -
  have "3 \<le> unat (ras_numEntries sample_ras)" "take 3 (rev [0x10, 0x20] @ ras_list sample_ras) = [0x20, 0x10, 7]"
    by code_simp+
  then show ?thesis using RAS_calls_then_returns [OF sample_ras_ok, of 3 "[0x10, 0x20]"] by metis
qed

text \<open>
  The two repairs \<open>BPredUnit::squash\<close> makes. Restoring the index and the entry a
  return had saved undoes its pop; popping undoes a call's push up to the oldest entry, which
  the call has overwritten.
\<close>

theorem RAS_repair:
  assumes "ras_ok r" and "RAS_top r = Some saved" and "RAS_push r x = Some r'"
  shows "map_option ras_list (RAS_restore (RAS_pop r) (RAS_topIdx r) saved) = Some (ras_list r) \<and>
    ras_list (RAS_pop r') = butlast (ras_list r) @ [x]"
proof
  note b = ras_ok_bounds [OF assms(1)]
  have "(addrStack r)[unat (tos r) := saved] = addrStack r"
    using assms(1,2) b by (intro list_update_eq_self) (simp_all add: RAS_top_eq)
  moreover have "addrStack (RAS_pop r) = addrStack r" "ras_numEntries (RAS_pop r) = ras_numEntries r"
    by (simp_all add: RAS_pop_eq)
  ultimately have "RAS_restore (RAS_pop r) (RAS_topIdx r) saved =
      Some ((RAS_pop r)\<lparr>tos := tos r, addrStack := addrStack r\<rparr>)"
    using assms(1) RAS_restore_eq [OF ras_ok_pop [OF assms(1)], of "tos r" saved]
    by (simp add: RAS_topIdx_def ras_ok_def)
  then show "map_option ras_list (RAS_restore (RAS_pop r) (RAS_topIdx r) saved) = Some (ras_list r)"
    by (simp add: ras_list_def)
  show "ras_list (RAS_pop r') = butlast (ras_list r) @ [x]"
    using ras_list_pop [OF ras_ok_push] ras_list_push assms(1,3) by fastforce
qed

theorem RAS_repair_witness:
  "map_option ras_list (RAS_restore (RAS_pop sample_ras) (RAS_topIdx sample_ras) 7) = Some (ras_list sample_ras)"
proof -
  have "RAS_top sample_ras = Some 7" "RAS_push sample_ras 9 = Some (the (RAS_push sample_ras 9))" by code_simp+
  then show ?thesis using RAS_repair [OF sample_ras_ok, of 7 9] by blast
qed

end
