(* ===== verification/Branch_Target.thy ===== *)
theory Branch_Target
  imports Pred_Interface
begin

text \<open>
  \<open>cpu/pred/btb.hh\<close> and \<open>btb.cc\<close>: the direct-mapped branch target buffer. \<open>TheISA::PCState\<close> is
  the type variable \<open>'pc\<close>; \<open>PCState(0)\<close> is the parameter \<open>pc0\<close>. The contract of a target
  buffer is the locale \<open>target_buffer\<close>; \<open>DefaultBTB\<close> interprets it.
\<close>

record 'pc BTBEntry =
  be_tag :: Addr
  be_target :: 'pc
  be_tid :: ThreadID
  be_valid :: bool

record 'pc DefaultBTB =
  btb :: "'pc BTBEntry list"
  btb_numEntries :: unsigned
  btb_idxMask :: unsigned
  btb_tagBits :: unsigned
  btb_tagMask :: unsigned
  btb_instShiftAmt :: unsigned
  btb_tagShiftAmt :: unsigned
  btb_log2NumThreads :: unsigned

text \<open>\<open>BTBEntry()\<close> does not initialise \<open>tid\<close>; \<open>junk\<close> is what the memory holds.\<close>

definition BTBEntry_default :: "'pc \<Rightarrow> ThreadID \<Rightarrow> 'pc BTBEntry" where
  "BTBEntry_default pc0 junk = \<lparr>be_tag = 0, be_target = pc0, be_tid = junk, be_valid = False\<rparr>"

text \<open>\<open>(1 << tagBits) - 1\<close> in \<open>int\<close>, defined below 31 bits.\<close>

definition tagMask_of_bits :: "unsigned \<Rightarrow> unsigned option" where
  "tagMask_of_bits bits = (if unat bits < 31 then Some (push_bit (unat bits) 1 - 1) else None)"

definition DefaultBTB_new ::
    "'pc \<Rightarrow> ThreadID \<Rightarrow> unsigned \<Rightarrow> unsigned \<Rightarrow> unsigned \<Rightarrow> unsigned \<Rightarrow> bp_error + 'pc DefaultBTB" where
  "DefaultBTB_new pc0 junk num_entries tag_bits inst_shift num_threads =
     ebind (no_fault (floorLog2 num_threads)) (\<lambda>log2_threads.
     ebind (error_if (\<not> isPowerOf2 num_entries) (Fatal ''BTB entries is not a power of 2!'')) (\<lambda>_.
     ebind (no_fault (tagMask_of_bits tag_bits)) (\<lambda>tag_mask.
     ebind (no_fault (floorLog2 num_entries)) (\<lambda>log2_entries.
       Inr \<lparr>btb = replicate (unat num_entries) (BTBEntry_default pc0 junk),
            btb_numEntries = num_entries,
            btb_idxMask = num_entries - 1,
            btb_tagBits = tag_bits,
            btb_tagMask = tag_mask,
            btb_instShiftAmt = inst_shift,
            btb_tagShiftAmt = inst_shift + of_nat log2_entries,
            btb_log2NumThreads = of_nat log2_threads\<rparr>))))"

definition BTB_reset :: "'pc DefaultBTB \<Rightarrow> 'pc DefaultBTB" where
  "BTB_reset b = b\<lparr>btb := map (\<lambda>e. e\<lparr>be_valid := False\<rparr>) (btb b)\<rparr>"

text \<open>
  \<open>tid << n\<close>: the thread id is promoted to \<open>int\<close>; the shift is defined for a non-negative id
  and \<open>n < 32\<close>, and its result is converted to the 64-bit type of the other operand.
\<close>

definition tid_shl :: "ThreadID \<Rightarrow> unsigned \<Rightarrow> Addr option" where
  "tid_shl tid n =
     (if 0 \<le> sint tid \<and> unat n < 32 then Some (signed (push_bit (unat n) (signed tid :: unsigned)))
      else None)"

definition BTB_getIndex :: "'pc DefaultBTB \<Rightarrow> Addr \<Rightarrow> ThreadID \<Rightarrow> unsigned option" where
  "BTB_getIndex b instPC tid = do {
     a \<leftarrow> shr64 instPC (btb_instShiftAmt b);
     t \<leftarrow> tid_shl tid (btb_tagShiftAmt b - btb_instShiftAmt b - btb_log2NumThreads b);
     Some (ucast ((a XOR t) AND ucast (btb_idxMask b))) }"

definition BTB_getTag :: "'pc DefaultBTB \<Rightarrow> Addr \<Rightarrow> Addr option" where
  "BTB_getTag b instPC = do {
     a \<leftarrow> shr64 instPC (btb_tagShiftAmt b);
     Some (a AND ucast (btb_tagMask b)) }"

definition BTB_valid :: "'pc DefaultBTB \<Rightarrow> Addr \<Rightarrow> ThreadID \<Rightarrow> bool option" where
  "BTB_valid b instPC tid = do {
     btb_idx \<leftarrow> BTB_getIndex b instPC tid;
     inst_tag \<leftarrow> BTB_getTag b instPC;
     assert_that (btb_idx < btb_numEntries b);
     e \<leftarrow> vec_at (btb b) (unat btb_idx);
     Some (be_valid e \<and> inst_tag = be_tag e \<and> be_tid e = tid) }"

definition BTB_lookup :: "'pc \<Rightarrow> 'pc DefaultBTB \<Rightarrow> Addr \<Rightarrow> ThreadID \<Rightarrow> 'pc option" where
  "BTB_lookup pc0 b instPC tid = do {
     btb_idx \<leftarrow> BTB_getIndex b instPC tid;
     inst_tag \<leftarrow> BTB_getTag b instPC;
     assert_that (btb_idx < btb_numEntries b);
     e \<leftarrow> vec_at (btb b) (unat btb_idx);
     Some (if be_valid e \<and> inst_tag = be_tag e \<and> be_tid e = tid then be_target e else pc0) }"

definition BTB_update :: "'pc DefaultBTB \<Rightarrow> Addr \<Rightarrow> 'pc \<Rightarrow> ThreadID \<Rightarrow> 'pc DefaultBTB option" where
  "BTB_update b instPC target tid = do {
     btb_idx \<leftarrow> BTB_getIndex b instPC tid;
     assert_that (btb_idx < btb_numEntries b);
     tag \<leftarrow> BTB_getTag b instPC;
     es \<leftarrow> vec_put (btb b) (unat btb_idx)
             \<lparr>be_tag = tag, be_target = target, be_tid = tid, be_valid = True\<rparr>;
     Some (b\<lparr>btb := es\<rparr>) }"

subsection \<open>Well-formed buffers\<close>

definition btb_ok :: "'pc DefaultBTB \<Rightarrow> bool" where
  "btb_ok b \<longleftrightarrow>
     btb_numEntries b \<noteq> 0 \<and> length (btb b) = unat (btb_numEntries b) \<and>
     btb_idxMask b = btb_numEntries b - 1 \<and>
     unat (btb_instShiftAmt b) < 64 \<and> unat (btb_tagShiftAmt b) < 64 \<and>
     unat (btb_tagShiftAmt b - btb_instShiftAmt b - btb_log2NumThreads b) < 32"

definition btb_cfg :: "'pc DefaultBTB \<Rightarrow> unsigned \<times> unsigned \<times> unsigned \<times> unsigned \<times> unsigned \<times> unsigned" where
  "btb_cfg b = (btb_numEntries b, btb_idxMask b, btb_tagMask b, btb_instShiftAmt b, btb_tagShiftAmt b,
     btb_log2NumThreads b)"

text \<open>The index as a total function, for a well-formed buffer and a non-negative thread id.\<close>

definition btb_idx :: "'pc DefaultBTB \<Rightarrow> Addr \<Rightarrow> ThreadID \<Rightarrow> nat" where
  "btb_idx b a t = unat (ucast ((drop_bit (unat (btb_instShiftAmt b)) a XOR
      signed (push_bit (unat (btb_tagShiftAmt b - btb_instShiftAmt b - btb_log2NumThreads b))
        (signed t :: unsigned))) AND ucast (btb_idxMask b)) :: unsigned)"

definition btb_tag :: "'pc DefaultBTB \<Rightarrow> Addr \<Rightarrow> Addr" where
  "btb_tag b a = drop_bit (unat (btb_tagShiftAmt b)) a AND ucast (btb_tagMask b)"

lemma btb_idx_less: "btb_ok b \<Longrightarrow> btb_idx b a t < unat (btb_numEntries b)"
  by (simp add: btb_ok_def btb_idx_def unat_ucast_and_less)

lemma BTB_getTag_eq: "btb_ok b \<Longrightarrow> BTB_getTag b a = Some (btb_tag b a)"
  by (simp add: BTB_getTag_def btb_tag_def btb_ok_def fault_simps)

lemma BTB_getIndex_eq:
  assumes "btb_ok b" and "0 \<le> sint t"
  obtains i where "BTB_getIndex b a t = Some i" and "unat i = btb_idx b a t" and "i < btb_numEntries b"
  using assms btb_idx_less [OF assms(1), of a t]
  by (auto simp: BTB_getIndex_def btb_ok_def fault_simps tid_shl_def btb_idx_def word_less_nat_alt)

lemma BTB_valid_eq:
  assumes "btb_ok b" and "0 \<le> sint t"
  shows "BTB_valid b a t = Some (let e = btb b ! btb_idx b a t in be_valid e \<and> btb_tag b a = be_tag e \<and> be_tid e = t)"
proof -
  obtain i where i: "BTB_getIndex b a t = Some i" "unat i = btb_idx b a t" "i < btb_numEntries b"
    using BTB_getIndex_eq [OF assms] .
  then show ?thesis
    using assms(1) btb_idx_less [OF assms(1), of a t]
    by (simp add: BTB_valid_def BTB_getTag_eq fault_simps Let_def) (simp add: btb_ok_def fault_simps)
qed

lemma BTB_lookup_eq:
  assumes "btb_ok b" and "0 \<le> sint t"
  shows "BTB_lookup pc0 b a t = Some (let e = btb b ! btb_idx b a t in
    if be_valid e \<and> btb_tag b a = be_tag e \<and> be_tid e = t then be_target e else pc0)"
proof -
  obtain i where i: "BTB_getIndex b a t = Some i" "unat i = btb_idx b a t" "i < btb_numEntries b"
    using BTB_getIndex_eq [OF assms] .
  then show ?thesis
    using assms(1) btb_idx_less [OF assms(1), of a t]
    by (simp add: BTB_lookup_def BTB_getTag_eq fault_simps Let_def) (simp add: btb_ok_def fault_simps)
qed

lemma BTB_update_eq:
  assumes "btb_ok b" and "0 \<le> sint t"
  shows "BTB_update b a tgt t = Some (b\<lparr>btb := (btb b)[btb_idx b a t :=
    \<lparr>be_tag = btb_tag b a, be_target = tgt, be_tid = t, be_valid = True\<rparr>]\<rparr>)"
proof -
  obtain i where i: "BTB_getIndex b a t = Some i" "unat i = btb_idx b a t" "i < btb_numEntries b"
    using BTB_getIndex_eq [OF assms] .
  then show ?thesis
    using assms(1) btb_idx_less [OF assms(1), of a t]
    by (simp add: BTB_update_def BTB_getTag_eq fault_simps Let_def) (simp add: btb_ok_def fault_simps)
qed

subsection \<open>The contract of a target buffer\<close>

text \<open>A run of updates, in program order.\<close>

fun updates :: "('b \<Rightarrow> Addr \<Rightarrow> 'pc \<Rightarrow> ThreadID \<Rightarrow> 'b option) \<Rightarrow> 'b \<Rightarrow> (Addr \<times> 'pc \<times> ThreadID) list \<Rightarrow> 'b option" where
  "updates upd b [] = Some b"
| "updates upd b ((a, x, t) # us) = do { b' \<leftarrow> upd b a x t; updates upd b' us }"

locale target_buffer =
  fixes ok :: "'b \<Rightarrow> bool"
    and slot :: "'b \<Rightarrow> Addr \<Rightarrow> ThreadID \<Rightarrow> nat"
    and hit :: "'b \<Rightarrow> Addr \<Rightarrow> ThreadID \<Rightarrow> bool option"
    and look :: "'b \<Rightarrow> Addr \<Rightarrow> ThreadID \<Rightarrow> 'pc option"
    and upd :: "'b \<Rightarrow> Addr \<Rightarrow> 'pc \<Rightarrow> ThreadID \<Rightarrow> 'b option"
  assumes upd_ok: "ok b \<Longrightarrow> 0 \<le> sint t \<Longrightarrow> \<exists>b'. upd b a x t = Some b' \<and> ok b' \<and> slot b' = slot b"
    and hit_ok: "ok b \<Longrightarrow> 0 \<le> sint t \<Longrightarrow> \<exists>v. hit b a t = Some v"
    and look_ok: "ok b \<Longrightarrow> 0 \<le> sint t \<Longrightarrow> \<exists>x. look b a t = Some x"
    and hit_upd: "ok b \<Longrightarrow> 0 \<le> sint t \<Longrightarrow> upd b a x t = Some b' \<Longrightarrow> hit b' a t = Some True"
    and look_upd: "ok b \<Longrightarrow> 0 \<le> sint t \<Longrightarrow> upd b a x t = Some b' \<Longrightarrow> look b' a t = Some x"
    and upd_other: "ok b \<Longrightarrow> 0 \<le> sint t \<Longrightarrow> 0 \<le> sint t' \<Longrightarrow> upd b a x t = Some b' \<Longrightarrow>
      slot b a' t' \<noteq> slot b a t \<Longrightarrow> hit b' a' t' = hit b a' t' \<and> look b' a' t' = look b a' t'"
begin

lemma updates_ok:
  assumes "ok b" and "\<forall>(a, x, t) \<in> set us. 0 \<le> sint t"
  shows "\<exists>b'. updates upd b us = Some b' \<and> ok b' \<and> slot b' = slot b"
  using assms
proof (induction us arbitrary: b)
  case (Cons u us)
  obtain a x t where u: "u = (a, x, t)" by (cases u)
  obtain b1 where b1: "upd b a x t = Some b1" "ok b1" "slot b1 = slot b"
    using upd_ok Cons.prems u by fastforce
  moreover obtain b2 where "updates upd b1 us = Some b2" "ok b2" "slot b2 = slot b1"
    using Cons.IH [OF b1(2)] Cons.prems by auto
  ultimately show ?case by (simp add: u)
qed simp

lemma updates_other:
  assumes "ok b" and "0 \<le> sint t'" and "\<forall>(a, x, t) \<in> set us. 0 \<le> sint t \<and> slot b a' t' \<noteq> slot b a t"
    and "updates upd b us = Some b'"
  shows "hit b' a' t' = hit b a' t' \<and> look b' a' t' = look b a' t'"
  using assms
proof (induction us arbitrary: b)
  case (Cons u us)
  obtain a x t where u: "u = (a, x, t)" by (cases u)
  obtain b1 where b1: "upd b a x t = Some b1" "ok b1" "slot b1 = slot b"
    using upd_ok Cons.prems u by fastforce
  have "hit b1 a' t' = hit b a' t' \<and> look b1 a' t' = look b a' t'"
    using Cons.prems b1(1) u by (intro upd_other [of b t t' a x b1 a']) auto
  moreover have "hit b' a' t' = hit b1 a' t' \<and> look b' a' t' = look b1 a' t'"
    using Cons.prems b1 u by (intro Cons.IH) auto
  ultimately show ?case by simp
qed simp

lemma updates_last:
  assumes "ok b" and "\<forall>(a, x, t) \<in> set (us @ vs). 0 \<le> sint t" and "0 \<le> sint t"
    and "\<forall>(a', x', t') \<in> set vs. slot b a t \<noteq> slot b a' t'"
  shows "\<exists>b'. updates upd b (us @ (a, x, t) # vs) = Some b' \<and> hit b' a t = Some True \<and> look b' a t = Some x"
proof -
  have app: "updates upd b (xs @ ys) = do { c \<leftarrow> updates upd b xs; updates upd c ys }" for b xs ys
    by (induction upd b xs rule: updates.induct) (auto split: option.splits bind_splits)
  obtain b1 where b1: "updates upd b us = Some b1" "ok b1" "slot b1 = slot b"
    using updates_ok [OF assms(1), of us] assms(2) by auto
  obtain b2 where b2: "upd b1 a x t = Some b2" "ok b2" "slot b2 = slot b1"
    using upd_ok [OF b1(2) assms(3)] by blast
  obtain b3 where b3: "updates upd b2 vs = Some b3"
    using updates_ok [OF b2(2), of vs] assms(2) by auto
  have "hit b3 a t = hit b2 a t \<and> look b3 a t = look b2 a t"
    using assms b1(3) b2 b3 by (intro updates_other [of b2 t vs a b3]) (auto simp: ball_Un)
  then show ?thesis
    using hit_upd [OF b1(2) assms(3) b2(1)] look_upd [OF b1(2) assms(3) b2(1)] b1 b2 b3
    by (simp add: app)
qed

end

lemma btb_ok_upd [simp]: "btb_ok (b\<lparr>btb := (btb b)[i := e]\<rparr>) = btb_ok b"
  by (simp add: btb_ok_def)

lemma btb_idx_upd [simp]: "btb_idx (b\<lparr>btb := es\<rparr>) = btb_idx b"
  by (simp add: btb_idx_def fun_eq_iff)

lemma btb_tag_upd [simp]: "btb_tag (b\<lparr>btb := es\<rparr>) = btb_tag b"
  by (simp add: btb_tag_def fun_eq_iff)

interpretation tb: target_buffer btb_ok btb_idx BTB_valid "BTB_lookup pc0" BTB_update for pc0 :: 'pc
proof unfold_locales
  fix b :: "'pc DefaultBTB" and a a' :: Addr and t t' :: ThreadID and x :: 'pc and b' :: "'pc DefaultBTB"
  assume b: "btb_ok b" and t: "0 \<le> sint t"
  note len = btb_idx_less [OF b, of a t]
  show "\<exists>b'. BTB_update b a x t = Some b' \<and> btb_ok b' \<and> btb_idx b' = btb_idx b"
    by (simp add: BTB_update_eq [OF b t] b)
  show "\<exists>v. BTB_valid b a t = Some v" "\<exists>x. BTB_lookup pc0 b a t = Some x"
    by (simp_all add: BTB_valid_eq [OF b t] BTB_lookup_eq [OF b t])
  assume u: "BTB_update b a x t = Some b'"
  then have b': "b' = b\<lparr>btb := (btb b)[btb_idx b a t :=
      \<lparr>be_tag = btb_tag b a, be_target = x, be_tid = t, be_valid = True\<rparr>]\<rparr>"
    by (simp add: BTB_update_eq [OF b t])
  then have ok': "btb_ok b'" by (simp add: b)
  have len': "btb_idx b a t < length (btb b)" using len b by (simp add: btb_ok_def)
  show "BTB_valid b' a t = Some True" "BTB_lookup pc0 b' a t = Some x"
    unfolding BTB_valid_eq [OF ok' t] BTB_lookup_eq [OF ok' t] using len' by (simp_all add: b' Let_def)
  assume t': "0 \<le> sint t'" and "btb_idx b a' t' \<noteq> btb_idx b a t"
  then show "BTB_valid b' a' t' = BTB_valid b a' t' \<and> BTB_lookup pc0 b' a' t' = BTB_lookup pc0 b a' t'"
    unfolding BTB_valid_eq [OF ok' t'] BTB_lookup_eq [OF ok' t'] BTB_valid_eq [OF b t'] BTB_lookup_eq [OF b t']
    by (simp add: b' Let_def)
qed

subsection \<open>Properties of the constructed buffer\<close>

text \<open>What the constructor establishes: the geometry of the index and the tag.\<close>

definition btb_geom :: "'pc DefaultBTB \<Rightarrow> nat \<Rightarrow> bool" where
  "btb_geom b k \<longleftrightarrow> k < 32 \<and> btb_numEntries b = 2 ^ k \<and> btb_idxMask b = mask k \<and>
     unat (btb_tagShiftAmt b) = unat (btb_instShiftAmt b) + k \<and> btb_tagMask b = mask (unat (btb_tagBits b))"

lemma tagMask_of_bits_Some: "tagMask_of_bits bits = Some m \<Longrightarrow> m = mask (unat bits) \<and> unat bits < 31"
  by (auto simp: tagMask_of_bits_def mask_eq_exp_minus_1 split: if_splits)

lemma of_nat_log2 [simp]: "k < 64 \<Longrightarrow> unat (of_nat k :: unsigned) = k"
  by (simp add: unat_of_nat take_bit_nat_eq_self)

lemma DefaultBTB_new_ok:
  assumes "DefaultBTB_new pc0 junk n tb sh nt = Inr b" and "unat sh + 32 \<le> 64" and "nt \<le> n"
  shows "btb_ok b" and "\<exists>k. btb_geom b k" and "\<forall>e \<in> set (btb b). \<not> be_valid e" and "btb_tagBits b = tb"
proof -
  obtain lt tm le where d: "floorLog2 nt = Some lt" "isPowerOf2 n" "tagMask_of_bits tb = Some tm"
    "floorLog2 n = Some le" and b: "b = \<lparr>btb = replicate (unat n) (BTBEntry_default pc0 junk),
        btb_numEntries = n, btb_idxMask = n - 1, btb_tagBits = tb, btb_tagMask = tm,
        btb_instShiftAmt = sh, btb_tagShiftAmt = sh + of_nat le, btb_log2NumThreads = of_nat lt\<rparr>"
    using assms(1) by (auto simp: DefaultBTB_new_def ebind_eq_Inr)
  obtain k where k: "k < 32" "n = 2 ^ k" using d(2) by (auto simp: isPowerOf2_iff)
  then have u: "unat n = 2 ^ k" by simp
  then have le: "le = k" using floorLog2_unique [of k n] d(4) by simp
  have nt0: "nt \<noteq> 0" using d(1) by (auto simp: floorLog2_def assert_that_def)
  then have lt: "2 ^ lt \<le> unat nt" using floorLog2_spec [of nt] d(1) by auto
  moreover have "unat nt \<le> 2 ^ k" using assms(3) u by (simp add: word_le_nat_alt)
  ultimately have "(2::nat) ^ lt \<le> 2 ^ k" by (rule order_trans)
  then have ltk: "lt \<le> k" by simp
  have sum: "unat (sh + of_nat k) = unat sh + k"
    using assms(2) k(1) by (subst unat_plus_simple [THEN iffD1]) (auto simp: word_le_nat_alt unat_word_ariths)
  have "sh + of_nat k - sh - of_nat lt = (of_nat (k - lt) :: unsigned)"
    using ltk by simp
  then have df: "unat (sh + of_nat k - sh - of_nat lt) < 32"
    using k(1) by simp
  have n0: "n \<noteq> 0" using d(2) by (simp add: isPowerOf2_def)
  show "btb_ok b" using n0 sum df assms(2) k(1) by (simp add: btb_ok_def b le)
  show "\<exists>k. btb_geom b k"
    using k sum tagMask_of_bits_Some [OF d(3)]
    by (intro exI [of _ k]) (simp add: btb_geom_def b le mask_eq_exp_minus_1)
  show "\<forall>e \<in> set (btb b). \<not> be_valid e" by (simp add: b BTBEntry_default_def)
  show "btb_tagBits b = tb" by (simp add: b)
qed

lemma idx_eq_imp_bits:
  fixes A A' T :: Addr
  assumes "(ucast ((A XOR T) AND ucast (mask k :: unsigned)) :: unsigned) = ucast ((A' XOR T) AND ucast (mask k :: unsigned))"
    and "i < k" and "k < 32"
  shows "bit A i = bit A' i"
  using arg_cong [OF assms(1), where f = "\<lambda>w. bit w i"] assms(2,3) by (auto simp: bit_simps)

lemma tag_eq_imp_bits:
  fixes a a' :: Addr
  assumes "drop_bit s a AND ucast (mask j :: unsigned) = drop_bit s a' AND ucast (mask j :: unsigned)"
    and "i < j" and "j < 32"
  shows "bit a (s + i) = bit a' (s + i)"
  using arg_cong [OF assms(1), where f = "\<lambda>w. bit w i"] assms(2,3) by (auto simp: bit_simps)

text \<open>A buffer of four entries for one thread, with addresses as targets.\<close>

definition sample_btb :: "Addr DefaultBTB" where
  "sample_btb = projr (DefaultBTB_new 0 0 4 8 2 1)"

lemma sample_btb_new: "DefaultBTB_new 0 0 4 8 2 1 = Inr sample_btb"
  by code_simp

lemma sample_btb_ok: "btb_ok sample_btb"
  by code_simp

text \<open>
  \<^bold>\<open>C18.\<close> A target written for a branch is found again: after any run of updates, \<open>valid\<close> holds
  and \<open>lookup\<close> returns the target of the most recent update of that branch, as long as no
  later update was hashed to the same entry.
\<close>

theorem BTB_lookup_after_update:
  assumes "btb_ok b" and "\<forall>(a, x, t) \<in> set (us @ vs). 0 \<le> sint t" and "0 \<le> sint t"
    and "\<forall>(a', x', t') \<in> set vs. btb_idx b a t \<noteq> btb_idx b a' t'"
  shows "\<exists>b'. updates BTB_update b (us @ (a, x, t) # vs) = Some b' \<and>
    BTB_valid b' a t = Some True \<and> BTB_lookup pc0 b' a t = Some x"
  using assms by (rule tb.updates_last)

theorem BTB_lookup_after_update_witness:
  "\<exists>b'. updates BTB_update sample_btb [(0x80, 0x10, 0), (0x80, 0x200, 0), (0x44, 0x20, 0)] = Some b' \<and>
    BTB_valid b' 0x80 0 = Some True \<and> BTB_lookup 0 b' 0x80 0 = Some 0x200"
proof -
  have "btb_idx sample_btb 0x80 0 \<noteq> btb_idx sample_btb 0x44 0" by code_simp
  then show ?thesis
    using BTB_lookup_after_update [of sample_btb "[(0x80, 0x10, 0)]" "[(0x44, 0x20, 0)]" 0 "0x80" "0x200" 0] sample_btb_ok
    by simp
qed

text \<open>
  \<^bold>\<open>C19.\<close> A hit is never for a branch that differs in the compared bits: if an entry written for
  \<open>(a, t)\<close> hits for \<open>(a', t')\<close>, the thread is the same and the two addresses agree on all
  \<open>log2(numEntries) + tagBits\<close> bits above the instruction offset. Different branches can alias
  only beyond the tag.
\<close>

theorem BTB_hit_agrees:
  assumes new: "DefaultBTB_new pc0 junk n tb sh nt = Inr b0" and sh: "unat sh + 32 \<le> 64" and nt: "nt \<le> n"
    and cfg: "btb_cfg b = btb_cfg b0" "btb_tagBits b = btb_tagBits b0" "length (btb b) = length (btb b0)"
    and t: "0 \<le> sint t" "0 \<le> sint t'"
    and upd: "BTB_update b a x t = Some b'" and same: "btb_idx b a t = btb_idx b a' t'"
    and hit: "BTB_valid b' a' t' = Some True"
  shows "t' = t \<and> (\<exists>k. unat n = 2 ^ k \<and>
    take_bit (k + unat tb) (drop_bit (unat sh) a) = take_bit (k + unat tb) (drop_bit (unat sh) a'))"
proof -
  note new_ok = DefaultBTB_new_ok [OF new sh nt]
  have ok: "btb_ok b" using new_ok(1) cfg by (simp add: btb_ok_def btb_cfg_def)
  obtain k where g: "btb_geom b k" using new_ok(2) cfg by (auto simp: btb_geom_def btb_cfg_def)
  have b': "b' = b\<lparr>btb := (btb b)[btb_idx b a t :=
      \<lparr>be_tag = btb_tag b a, be_target = x, be_tid = t, be_valid = True\<rparr>]\<rparr>"
    using upd by (simp add: BTB_update_eq [OF ok t(1)])
  have ok': "btb_ok b'" by (simp add: b' ok)
  have len: "btb_idx b a t < length (btb b)" using btb_idx_less [OF ok, of a t] ok by (simp add: btb_ok_def)
  have h: "btb_tag b a' = btb_tag b a" "t = t'"
    using hit len unfolding BTB_valid_eq [OF ok' t(2)] by (simp_all add: b' same Let_def)
  have sh_b: "btb_instShiftAmt b = sh" "btb_numEntries b = n" "btb_tagBits b = tb"
    using cfg new by (auto simp: btb_cfg_def DefaultBTB_new_def ebind_eq_Inr)
  have tb31: "unat tb < 31" using new tagMask_of_bits_Some by (auto simp: DefaultBTB_new_def ebind_eq_Inr)
  have "bit (drop_bit (unat sh) a) i = bit (drop_bit (unat sh) a') i" if "i < k + unat tb" for i
  proof (cases "i < k")
    case True
    show ?thesis
      using same g unfolding btb_idx_def h(2) btb_geom_def sh_b
      by (intro idx_eq_imp_bits [OF _ True]) (simp_all add: word_unat_eq_iff)
  next
    case False
    then have "bit a' (unat (btb_tagShiftAmt b) + (i - k)) = bit a (unat (btb_tagShiftAmt b) + (i - k))"
      using h(1) g that tb31 unfolding btb_tag_def btb_geom_def sh_b
      by (intro tag_eq_imp_bits [of _ _ "unat tb"]) simp_all
    with False g show ?thesis by (simp add: bit_simps btb_geom_def sh_b)
  qed
  then have "take_bit (k + unat tb) (drop_bit (unat sh) a) = take_bit (k + unat tb) (drop_bit (unat sh) a')"
    by (intro bit_word_eqI) (auto simp: bit_simps)
  moreover have "unat n = 2 ^ k" using g by (simp add: btb_geom_def sh_b(2))
  ultimately show ?thesis using h(2) by blast
qed

theorem BTB_hit_agrees_witness:
  "\<exists>k. unat (4 :: unsigned) = 2 ^ k \<and> take_bit (k + 8) (drop_bit 2 (0x10080 :: Addr)) = take_bit (k + 8) (drop_bit 2 0x80)"
proof -
  let ?b' = "the (BTB_update sample_btb 0x10080 0x200 0)"
  have sh: "unat (2 :: unsigned) + 32 \<le> 64" and n: "(1 :: unsigned) \<le> 4" and t: "0 \<le> sint (0 :: ThreadID)" by simp_all
  have u: "BTB_update sample_btb 0x10080 0x200 0 = Some ?b'" by code_simp
  have i: "btb_idx sample_btb 0x10080 0 = btb_idx sample_btb 0x80 0" by code_simp
  have v: "BTB_valid ?b' 0x80 0 = Some True" by code_simp
  show ?thesis using BTB_hit_agrees [OF sample_btb_new sh n refl refl refl t t u i v] by simp
qed

end
