(* ===== verification/Indirect_Pred.thy ===== *)
theory Indirect_Pred
  imports Return_Stack Branch_Target
begin

text \<open>
  \<open>cpu/pred/indirect.hh\<close> and \<open>indirect.cc\<close>: the set-associative predictor of indirect targets.
  The set is chosen by a hash of the address, the global history and the targets of the last
  \<open>pathLength\<close> indirect branches of the thread. \<open>PCState(0)\<close> is the parameter \<open>pc0\<close>,
  \<open>PCState::instAddr\<close> the parameter \<open>instAddr\<close>, and the value of \<open>rand()\<close> the parameter \<open>rnd\<close>.
\<close>

record 'pc IPredEntry =
  ip_tag :: Addr
  ip_target :: 'pc

record HistoryEntry =
  pcAddr :: Addr
  targetAddr :: Addr
  he_seqNum :: InstSeqNum

record ThreadInfo =
  pathHist :: "HistoryEntry list"
  headHistEntry :: unsigned

record 'pc IndirectPredictor =
  hashGHR :: bool
  hashTargets :: bool
  numSets :: unsigned
  numWays :: unsigned
  ip_tagBits :: unsigned
  pathLength :: unsigned
  instShift :: unsigned
  targetCache :: "'pc IPredEntry list list"
  threadInfo :: "ThreadInfo list"

definition IndirectPredictor_new ::
    "'pc \<Rightarrow> bool \<Rightarrow> bool \<Rightarrow> unsigned \<Rightarrow> unsigned \<Rightarrow> unsigned \<Rightarrow> unsigned \<Rightarrow> unsigned \<Rightarrow> unsigned \<Rightarrow>
     bp_error + 'pc IndirectPredictor" where
  "IndirectPredictor_new pc0 hash_ghr hash_targets num_sets num_ways tag_bits path_len inst_shift num_threads =
     ebind (error_if (\<not> isPowerOf2 num_sets)
       (Panic ''Indirect predictor requires power of 2 number of sets'')) (\<lambda>_.
     Inr \<lparr>hashGHR = hash_ghr, hashTargets = hash_targets, numSets = num_sets, numWays = num_ways,
          ip_tagBits = tag_bits, pathLength = path_len, instShift = inst_shift,
          targetCache = replicate (unat num_sets)
            (replicate (unat num_ways) \<lparr>ip_tag = 0, ip_target = pc0\<rparr>),
          threadInfo = replicate (unat num_threads) \<lparr>pathHist = [], headHistEntry = 0\<rparr>\<rparr>)"

text \<open>
  The loop of \<open>getSetIndex\<close> over the path history, youngest entry first; \<open>p\<close> counts the
  entries already hashed.
\<close>

fun hash_path :: "unsigned \<Rightarrow> unsigned \<Rightarrow> unsigned \<Rightarrow> unsigned \<Rightarrow> Addr \<Rightarrow> HistoryEntry list \<Rightarrow> Addr option" where
  "hash_path inst_shift hash_shift path_len p hash [] = Some hash"
| "hash_path inst_shift hash_shift path_len p hash (e # es) =
     (if p < path_len then do {
        a \<leftarrow> shr64 (targetAddr e) (inst_shift + p * hash_shift);
        hash_path inst_shift hash_shift path_len (p + 1) (hash XOR a) es }
      else Some hash)"

definition getSetIndex :: "'pc IndirectPredictor \<Rightarrow> Addr \<Rightarrow> unsigned \<Rightarrow> ThreadID \<Rightarrow> Addr option" where
  "getSetIndex ip br_addr ghr tid = do {
     t_info \<leftarrow> vec_at (threadInfo ip) (tid_index tid);
     hash \<leftarrow> shr64 br_addr (instShift ip);
     let hash = (if hashGHR ip then hash XOR ucast ghr else hash);
     hash \<leftarrow> (if hashTargets ip then do {
         log2_sets \<leftarrow> floorLog2 (numSets ip);
         assert_that (pathLength ip \<noteq> 0);
         let hash_shift = of_nat log2_sets div pathLength ip;
         hash_path (instShift ip) hash_shift (pathLength ip) 0 hash (rev (pathHist t_info)) }
       else Some hash);
     Some (hash AND ucast (numSets ip - 1)) }"

definition ip_getTag :: "'pc IndirectPredictor \<Rightarrow> Addr \<Rightarrow> Addr option" where
  "ip_getTag ip br_addr = do {
     a \<leftarrow> shr64 br_addr (instShift ip);
     m \<leftarrow> tagMask_of_bits (ip_tagBits ip);
     Some (a AND ucast m) }"

text \<open>\<open>Some None\<close> is a miss, \<open>Some (Some target)\<close> a hit.\<close>

definition ip_lookup :: "'pc IndirectPredictor \<Rightarrow> Addr \<Rightarrow> unsigned \<Rightarrow> ThreadID \<Rightarrow> 'pc option option" where
  "ip_lookup ip br_addr ghr tid = do {
     set_index \<leftarrow> getSetIndex ip br_addr ghr tid;
     tag \<leftarrow> ip_getTag ip br_addr;
     assert_that (set_index < ucast (numSets ip));
     iset \<leftarrow> vec_at (targetCache ip) (unat set_index);
     Some (map_option ip_target (find (\<lambda>way. ip_tag way = tag) iset)) }"

definition recordIndirect ::
    "'pc IndirectPredictor \<Rightarrow> Addr \<Rightarrow> Addr \<Rightarrow> InstSeqNum \<Rightarrow> ThreadID \<Rightarrow> 'pc IndirectPredictor option" where
  "recordIndirect ip br_addr tgt_addr seq_num tid = do {
     let entry = \<lparr>pcAddr = br_addr, targetAddr = tgt_addr, he_seqNum = seq_num\<rparr>;
     ts \<leftarrow> vec_mod (\<lambda>ti. ti\<lparr>pathHist := pathHist ti @ [entry]\<rparr>) (threadInfo ip) (tid_index tid);
     Some (ip\<lparr>threadInfo := ts\<rparr>) }"

definition commit_info :: "unsigned \<Rightarrow> InstSeqNum \<Rightarrow> ThreadInfo \<Rightarrow> ThreadInfo" where
  "commit_info path_len seq_num ti =
     (if pathHist ti = [] then ti
      else if unat (headHistEntry ti) < length (pathHist ti) \<and>
              he_seqNum (pathHist ti ! unat (headHistEntry ti)) \<le> seq_num
           then (if headHistEntry ti \<ge> path_len then ti\<lparr>pathHist := tl (pathHist ti)\<rparr>
                 else ti\<lparr>headHistEntry := headHistEntry ti + 1\<rparr>)
           else ti)"

definition ip_commit :: "'pc IndirectPredictor \<Rightarrow> InstSeqNum \<Rightarrow> ThreadID \<Rightarrow> 'pc IndirectPredictor option" where
  "ip_commit ip seq_num tid = do {
     ts \<leftarrow> vec_mod (commit_info (pathLength ip) seq_num) (threadInfo ip) (tid_index tid);
     Some (ip\<lparr>threadInfo := ts\<rparr>) }"

definition squash_info :: "InstSeqNum \<Rightarrow> ThreadInfo \<Rightarrow> ThreadInfo" where
  "squash_info seq_num ti = ti\<lparr>pathHist := takeWhile (\<lambda>e. \<not> he_seqNum e > seq_num) (pathHist ti)\<rparr>"

definition ip_squash :: "'pc IndirectPredictor \<Rightarrow> InstSeqNum \<Rightarrow> ThreadID \<Rightarrow> 'pc IndirectPredictor option" where
  "ip_squash ip seq_num tid = do {
     ts \<leftarrow> vec_mod (squash_info seq_num) (threadInfo ip) (tid_index tid);
     Some (ip\<lparr>threadInfo := ts\<rparr>) }"

text \<open>
  The first loop of \<open>recordTarget\<close>: write the target into the first way with the tag; \<open>None\<close>
  when no way has it.
\<close>

fun update_way :: "Addr \<Rightarrow> 'pc \<Rightarrow> 'pc IPredEntry list \<Rightarrow> 'pc IPredEntry list option" where
  "update_way tag target [] = None"
| "update_way tag target (w # ws) =
     (if ip_tag w = tag then Some (w\<lparr>ip_target := target\<rparr> # ws)
      else map_option (Cons w) (update_way tag target ws))"

definition recordTarget ::
    "('pc \<Rightarrow> Addr) \<Rightarrow> unsigned \<Rightarrow> 'pc IndirectPredictor \<Rightarrow> InstSeqNum \<Rightarrow> unsigned \<Rightarrow> 'pc \<Rightarrow> ThreadID \<Rightarrow>
     'pc IndirectPredictor option" where
  "recordTarget instAddr rnd ip seq_num ghr target tid = do {
     t_info \<leftarrow> vec_at (threadInfo ip) (tid_index tid);
     assert_that (pathHist t_info \<noteq> []);
     let hist_entry = last (pathHist t_info);
     let popped = t_info\<lparr>pathHist := butlast (pathHist t_info)\<rparr>;
     let ip = ip\<lparr>threadInfo := (threadInfo ip)[tid_index tid := popped]\<rparr>;
     set_index \<leftarrow> getSetIndex ip (pcAddr hist_entry) ghr tid;
     tag \<leftarrow> ip_getTag ip (pcAddr hist_entry);
     let hist_entry = hist_entry\<lparr>targetAddr := instAddr target\<rparr>;
     let ip = ip\<lparr>threadInfo := (threadInfo ip)[tid_index tid := popped\<lparr>pathHist := pathHist popped @ [hist_entry]\<rparr>]\<rparr>;
     assert_that (set_index < ucast (numSets ip));
     iset \<leftarrow> vec_at (targetCache ip) (unat set_index);
     iset' \<leftarrow> (case update_way tag target iset of
         Some ws \<Rightarrow> Some ws
       | None \<Rightarrow> do {
           assert_that (numWays ip \<noteq> 0);
           vec_put iset (unat (rnd mod numWays ip)) \<lparr>ip_tag = tag, ip_target = target\<rparr> });
     Some (ip\<lparr>targetCache := (targetCache ip)[unat set_index := iset']\<rparr>) }"

subsection \<open>Well-formed predictors\<close>

definition ip_ok :: "'pc IndirectPredictor \<Rightarrow> bool" where
  "ip_ok ip \<longleftrightarrow> isPowerOf2 (numSets ip) \<and> numWays ip \<noteq> 0 \<and> pathLength ip \<noteq> 0 \<and>
     unat (ip_tagBits ip) < 31 \<and> unat (instShift ip) < 32 \<and>
     length (targetCache ip) = unat (numSets ip) \<and>
     list_all (\<lambda>s. length s = unat (numWays ip)) (targetCache ip)"

lemma floorLog2_less:
  assumes "isPowerOf2 n"
  shows "\<exists>k<32. floorLog2 n = Some k \<and> unat n = 2 ^ k"
proof -
  obtain k where k: "k < 32" "n = 2 ^ k" using assms by (auto simp: isPowerOf2_iff)
  then have "unat n = 2 ^ k" by simp
  with k show ?thesis using floorLog2_unique [of k n] by auto
qed

lemma hash_shift_bound:
  fixes p :: unsigned
  assumes "k < 32" and "p < len" and "unat sh < 32"
  shows "unat (sh + p * (of_nat k div len)) < 64"
proof -
  have k: "unat (of_nat k :: unsigned) = k" using assms(1) by simp
  have "unat p * (k div unat len) \<le> unat len * (k div unat len)"
    using assms(2) by (simp add: word_less_nat_alt less_imp_le)
  also have "\<dots> \<le> k" by (simp add: times_div_less_eq_dividend)
  finally have le: "unat p * (k div unat len) \<le> k" .
  have "unat (p * (of_nat k div len)) = unat p * (k div unat len) mod 2 ^ 32"
    by (simp add: unat_word_ariths unat_div k mod_mult_right_eq)
  then have "unat (p * (of_nat k div len)) \<le> k" using le by simp
  moreover have "unat (sh + p * (of_nat k div len)) \<le> unat sh + unat (p * (of_nat k div len))"
    by (simp add: unat_word_ariths)
  ultimately show ?thesis using assms by linarith
qed

lemma hash_path_Some:
  assumes "k < 32" and "unat sh < 32"
  shows "\<exists>h. hash_path sh (of_nat k div len) len p hash es = Some h"
proof (induction es arbitrary: p hash)
  case (Cons e es)
  then show ?case using hash_shift_bound [OF assms(1) _ assms(2), of p len] by (simp add: fault_simps)
qed simp

lemma hash_path_window:
  assumes "map targetAddr (take (unat len - unat p) es) = map targetAddr (take (unat len - unat p) es')"
  shows "hash_path sh hs len p hash es = hash_path sh hs len p hash es'"
  using assms
proof (induction es arbitrary: es' p hash)
  case Nil
  then show ?case by (cases es') (auto simp: word_less_nat_alt)
next
  case (Cons e es)
  show ?case
  proof (cases "p < len")
    case True
    then have p: "unat (p + 1) = unat p + 1" by unat_arith
    obtain n where n: "unat len - unat p = Suc n" using True by (auto simp: word_less_nat_alt dest: less_imp_Suc_add)
    with Cons.prems obtain e' es1 where es': "es' = e' # es1" "targetAddr e = targetAddr e'"
      "map targetAddr (take n es) = map targetAddr (take n es1)" by (cases es') auto
    moreover have "unat len - unat (p + 1) = n" using n p by simp
    ultimately show ?thesis using Cons.IH [of "p + 1" es1] by simp
  next
    case False
    then show ?thesis by (cases es') auto
  qed
qed

text \<open>The targets the set index depends on: those of the youngest \<open>pathLength\<close> branches.\<close>

definition path_window :: "'pc IndirectPredictor \<Rightarrow> ThreadID \<Rightarrow> Addr list" where
  "path_window ip tid = map targetAddr (take (unat (pathLength ip)) (rev (pathHist (threadInfo ip ! tid_index tid))))"

definition ip_cfg :: "'pc IndirectPredictor \<Rightarrow> bool \<times> bool \<times> unsigned \<times> unsigned \<times> unsigned \<times> unsigned \<times> unsigned \<times> nat" where
  "ip_cfg ip = (hashGHR ip, hashTargets ip, numSets ip, numWays ip, ip_tagBits ip, pathLength ip, instShift ip,
     length (threadInfo ip))"

lemma getSetIndex_ok:
  assumes "ip_ok ip" and "tid_index t < length (threadInfo ip)"
  obtains i where "getSetIndex ip a ghr t = Some i" and "i < ucast (numSets ip)"
    and "unat i < length (targetCache ip)"
proof -
  obtain k where k: "k < 32" "floorLog2 (numSets ip) = Some k"
    using floorLog2_less assms(1) by (auto simp: ip_ok_def)
  have n0: "numSets ip \<noteq> 0" using assms(1) by (simp add: ip_ok_def isPowerOf2_def)
  have "unat (instShift ip) < 32" using assms(1) by (simp add: ip_ok_def)
  then obtain f where f: "\<And>p h es. hash_path (instShift ip) (of_nat k div pathLength ip) (pathLength ip) p h es = Some (f p h es)"
    using hash_path_Some [OF k(1)] by metis
  have "\<exists>h. getSetIndex ip a ghr t = Some (h AND ucast (numSets ip - 1))"
    using assms k by (auto simp: getSetIndex_def ip_ok_def fault_simps Let_def f)
  then obtain h where h: "getSetIndex ip a ghr t = Some (h AND ucast (numSets ip - 1))" by blast
  have "unat (ucast (h AND ucast (numSets ip - 1)) :: unsigned) < unat (numSets ip)"
    by (rule unat_ucast_and_less [OF n0])
  moreover have le: "unat (h AND ucast (numSets ip - 1)) \<le> unat (numSets ip - 1)"
    using unat_and_le [of h "ucast (numSets ip - 1)"] by simp
  moreover have "unat (numSets ip - 1) < unat (numSets ip)" by (rule measure_unat [OF n0])
  ultimately show thesis using assms(1) that [OF h] by (simp add: ip_ok_def word_less_nat_alt)
qed

lemma getSetIndex_cong:
  assumes "ip_cfg ip = ip_cfg ip'" and "path_window ip t = path_window ip' t"
    and "tid_index t < length (threadInfo ip)"
  shows "getSetIndex ip a ghr t = getSetIndex ip' a ghr t"
proof -
  have "hash_path sh hs (pathLength ip) 0 h (rev (pathHist (threadInfo ip ! tid_index t))) =
    hash_path sh hs (pathLength ip) 0 h (rev (pathHist (threadInfo ip' ! tid_index t)))" for sh hs h
    using assms(1,2) by (intro hash_path_window) (simp add: path_window_def ip_cfg_def)
  then show ?thesis using assms(1,3)
    by (simp add: getSetIndex_def ip_cfg_def fault_simps Let_def cong: if_cong)
qed

lemma ip_getTag_ok: "ip_ok ip \<Longrightarrow> \<exists>tag. ip_getTag ip a = Some tag"
  by (simp add: ip_getTag_def ip_ok_def fault_simps tagMask_of_bits_def)

lemma ip_lookup_ok:
  assumes "ip_ok ip" and "tid_index t < length (threadInfo ip)"
  shows "\<exists>r. ip_lookup ip a ghr t = Some r"
proof -
  obtain i where i: "getSetIndex ip a ghr t = Some i" "i < ucast (numSets ip)" "unat i < length (targetCache ip)"
    using getSetIndex_ok [OF assms] .
  obtain tag where "ip_getTag ip a = Some tag" using ip_getTag_ok [OF assms(1)] by blast
  with i show ?thesis by (simp add: ip_lookup_def fault_simps)
qed

subsection \<open>Recording and finding a target\<close>

lemma update_way_find:
  "update_way tag x ws = Some ws' \<Longrightarrow>
    length ws' = length ws \<and> map_option ip_target (find (\<lambda>w. ip_tag w = tag) ws') = Some x"
  by (induction ws arbitrary: ws') (auto split: if_splits)

lemma update_way_None: "update_way tag x ws = None \<Longrightarrow> \<forall>w \<in> set ws. ip_tag w \<noteq> tag"
  by (induction ws) (auto split: if_splits)

lemma find_replaced:
  assumes "\<forall>w \<in> set ws. ip_tag w \<noteq> tag" and "i < length ws"
  shows "find (\<lambda>w. ip_tag w = tag) (ws[i := \<lparr>ip_tag = tag, ip_target = x\<rparr>]) = Some \<lparr>ip_tag = tag, ip_target = x\<rparr>"
  using assms by (induction ws arbitrary: i) (auto split: nat.splits)

text \<open>\<open>recordTarget\<close> as one equation: the set it selects and the set it writes.\<close>

lemma recordTarget_eq:
  assumes "ip_ok ip" and "tid_index t < length (threadInfo ip)"
    and "pathHist (threadInfo ip ! tid_index t) \<noteq> []"
    and "ip1 = ip\<lparr>threadInfo := (threadInfo ip)[tid_index t := (threadInfo ip ! tid_index t)
           \<lparr>pathHist := butlast (pathHist (threadInfo ip ! tid_index t))\<rparr>]\<rparr>"
    and "e = last (pathHist (threadInfo ip ! tid_index t))"
  obtains i tag iset' where "getSetIndex ip1 (pcAddr e) ghr t = Some i" and "unat i < length (targetCache ip)"
    and "i < ucast (numSets ip)"
    and "ip_getTag ip (pcAddr e) = Some tag" and "length iset' = unat (numWays ip)"
    and "map_option ip_target (find (\<lambda>w. ip_tag w = tag) iset') = Some target"
    and "recordTarget ia rnd ip sn ghr target t = Some (ip\<lparr>targetCache := (targetCache ip)[unat i := iset'],
      threadInfo := (threadInfo ip)[tid_index t := (threadInfo ip ! tid_index t)\<lparr>pathHist :=
        butlast (pathHist (threadInfo ip ! tid_index t)) @ [e\<lparr>targetAddr := ia target\<rparr>]\<rparr>]\<rparr>)"
proof -
  have ok1: "ip_ok ip1" using assms(1) by (simp add: ip_ok_def assms(4))
  have len1: "tid_index t < length (threadInfo ip1)" using assms(2) by (simp add: assms(4))
  obtain i where i: "getSetIndex ip1 (pcAddr e) ghr t = Some i" "i < ucast (numSets ip1)"
    "unat i < length (targetCache ip1)" using getSetIndex_ok [OF ok1 len1] .
  obtain tag where tag: "ip_getTag ip1 (pcAddr e) = Some tag" using ip_getTag_ok [OF ok1] by blast
  have tag': "ip_getTag ip (pcAddr e) = Some tag" using tag by (simp add: ip_getTag_def assms(4))
  have i': "i < ucast (numSets ip)" "unat i < length (targetCache ip)" using i by (simp_all add: assms(4))
  let ?s = "targetCache ip ! unat i"
  have ways: "length ?s = unat (numWays ip)" "numWays ip \<noteq> 0"
    using assms(1) i'(2) by (auto simp: ip_ok_def list_all_length)
  have lt: "unat (rnd mod numWays ip) < length ?s"
    using ways by (simp add: unat_mod unat_gt_0)
  let ?w = "\<lparr>ip_tag = tag, ip_target = target\<rparr>"
  define iset' where "iset' = (case update_way tag target ?s of Some ws \<Rightarrow> ws
    | None \<Rightarrow> ?s[unat (rnd mod numWays ip) := ?w])"
  have res: "length iset' = unat (numWays ip) \<and>
      map_option ip_target (find (\<lambda>w. ip_tag w = tag) iset') = Some target"
    using update_way_find [of tag target ?s] update_way_None [of tag target ?s] lt ways
    by (auto simp: iset'_def find_replaced split: option.splits)
  have "recordTarget ia rnd ip sn ghr target t = Some (ip\<lparr>targetCache := (targetCache ip)[unat i := iset'],
      threadInfo := (threadInfo ip)[tid_index t := (threadInfo ip ! tid_index t)\<lparr>pathHist :=
        butlast (pathHist (threadInfo ip ! tid_index t)) @ [e\<lparr>targetAddr := ia target\<rparr>]\<rparr>]\<rparr>)"
    using assms(2,3) i i' tag lt ways(2)
    by (simp add: recordTarget_def fault_simps Let_def iset'_def
          flip: assms(4,5) split: option.splits)
      (simp add: assms(4) fault_simps)
  with i i' tag' res show thesis using that by blast
qed

text \<open>
  \<^bold>\<open>C20.\<close> A recorded indirect target is predicted again: after \<open>recordTarget\<close>, a lookup of that
  branch with the same global history returns the recorded target, whenever the targets of the
  last \<open>pathLength\<close> indirect branches are those that preceded the recorded branch.
\<close>

theorem recordTarget_lookup:
  assumes ok: "ip_ok ip" and t: "tid_index t < length (threadInfo ip)"
    and ne: "pathHist (threadInfo ip ! tid_index t) = es @ [e]"
    and rec: "recordTarget ia rnd ip sn ghr target t = Some ip'"
    and cfg: "ip_cfg ip2 = ip_cfg ip'" and cache: "targetCache ip2 = targetCache ip'"
    and path: "path_window ip2 t = map targetAddr (take (unat (pathLength ip)) (rev es))"
  shows "ip_lookup ip2 (pcAddr e) ghr t = Some (Some target)"
proof -
  define ip1 where "ip1 = ip\<lparr>threadInfo := (threadInfo ip)[tid_index t := (threadInfo ip ! tid_index t)
           \<lparr>pathHist := butlast (pathHist (threadInfo ip ! tid_index t))\<rparr>]\<rparr>"
  obtain i tag iset' where i: "getSetIndex ip1 (pcAddr e) ghr t = Some i" "unat i < length (targetCache ip)"
      "i < ucast (numSets ip)"
    and tag: "ip_getTag ip (pcAddr e) = Some tag"
    and f: "map_option ip_target (find (\<lambda>w. ip_tag w = tag) iset') = Some target"
    and r: "recordTarget ia rnd ip sn ghr target t = Some (ip\<lparr>targetCache := (targetCache ip)[unat i := iset'],
      threadInfo := (threadInfo ip)[tid_index t := (threadInfo ip ! tid_index t)\<lparr>pathHist :=
        butlast (pathHist (threadInfo ip ! tid_index t)) @ [e\<lparr>targetAddr := ia target\<rparr>]\<rparr>]\<rparr>)"
    using recordTarget_eq [OF ok t _ ip1_def] ne by (metis last_snoc snoc_eq_iff_butlast)
  have ip': "ip' = ip\<lparr>targetCache := (targetCache ip)[unat i := iset'],
      threadInfo := (threadInfo ip)[tid_index t := (threadInfo ip ! tid_index t)\<lparr>pathHist :=
        butlast (pathHist (threadInfo ip ! tid_index t)) @ [e\<lparr>targetAddr := ia target\<rparr>]\<rparr>]\<rparr>"
    using r rec by simp
  have cfg2: "ip_cfg ip2 = ip_cfg ip1" using cfg by (simp add: ip' ip1_def ip_cfg_def)
  have "path_window ip2 t = path_window ip1 t" using path t ne by (simp add: path_window_def ip1_def)
  moreover have "tid_index t < length (threadInfo ip2)" using cfg2 t by (simp add: ip_cfg_def ip1_def)
  ultimately have "getSetIndex ip2 (pcAddr e) ghr t = Some i"
    using getSetIndex_cong [OF cfg2] i(1) by simp
  moreover have "ip_getTag ip2 (pcAddr e) = Some tag"
    using tag cfg2 by (simp add: ip_getTag_def ip_cfg_def ip1_def)
  moreover have "numSets ip2 = numSets ip" using cfg2 by (simp add: ip_cfg_def ip1_def)
  moreover have "vec_at (targetCache ip2) (unat i) = Some iset'"
    using i(2) by (simp add: cache ip' vec_at_def)
  ultimately show ?thesis using i(3) f by (simp add: ip_lookup_def fault_simps)
qed

text \<open>Two sets of two ways, one thread, with one recorded indirect branch.\<close>

definition sample_ipred :: "Addr IndirectPredictor" where
  "sample_ipred = the (recordIndirect (projr (IndirectPredictor_new 0 True True 2 2 8 3 2 1)) 0x40 0x100 1 0)"

lemma sample_ipred_ok: "ip_ok sample_ipred"
  by code_simp

theorem recordTarget_lookup_witness:
  "ip_lookup (sample_ipred\<lparr>targetCache := targetCache (the (recordTarget (\<lambda>a. a) 0 sample_ipred 1 5 0x300 0)),
      threadInfo := [\<lparr>pathHist = [], headHistEntry = 0\<rparr>]\<rparr>) 0x40 5 0 = Some (Some 0x300)"
proof -
  let ?r = "the (recordTarget (\<lambda>a. a) 0 sample_ipred 1 5 0x300 0)"
  let ?e = "\<lparr>pcAddr = 0x40, targetAddr = 0x100, he_seqNum = 1\<rparr>"
  let ?ip2 = "sample_ipred\<lparr>targetCache := targetCache ?r, threadInfo := [\<lparr>pathHist = [], headHistEntry = 0\<rparr>]\<rparr>"
  have t: "tid_index 0 < length (threadInfo sample_ipred)" by code_simp
  have p: "pathHist (threadInfo sample_ipred ! tid_index 0) = [] @ [?e]" by code_simp
  have r: "recordTarget (\<lambda>a. a) 0 sample_ipred 1 5 0x300 0 = Some ?r" by code_simp
  have c: "ip_cfg ?ip2 = ip_cfg ?r" by code_simp
  have w: "path_window ?ip2 0 = map targetAddr (take (unat (pathLength sample_ipred)) (rev []))" by code_simp
  show ?thesis using recordTarget_lookup [OF sample_ipred_ok t p r c _ w] by simp
qed

lemma recordTarget_ok:
  assumes "ip_ok ip" and "tid_index t < length (threadInfo ip)"
    and "pathHist (threadInfo ip ! tid_index t) \<noteq> []"
  shows "\<exists>ip'. recordTarget ia rnd ip sn ghr target t = Some ip' \<and> ip_ok ip' \<and> ip_cfg ip' = ip_cfg ip \<and>
    threadInfo ip' = (threadInfo ip)[tid_index t := (threadInfo ip ! tid_index t)\<lparr>pathHist :=
        butlast (pathHist (threadInfo ip ! tid_index t)) @
        [(last (pathHist (threadInfo ip ! tid_index t)))\<lparr>targetAddr := ia target\<rparr>]\<rparr>]"
  by (rule recordTarget_eq [OF assms refl refl, of ghr target ia rnd sn])
    (use assms(1) in \<open>auto simp: ip_ok_def ip_cfg_def intro!: list_all_list_update\<close>)

lemma ip_cfg_threadInfo: "ip_cfg (ip\<lparr>threadInfo := ts\<rparr>) = ip_cfg ip \<longleftrightarrow> length ts = length (threadInfo ip)"
  by (auto simp: ip_cfg_def)

lemma ip_ok_threadInfo [simp]: "ip_ok (ip\<lparr>threadInfo := ts\<rparr>) = ip_ok ip"
  by (simp add: ip_ok_def)

lemma IndirectPredictor_new_ok:
  assumes "IndirectPredictor_new pc0 hg ht ns nw tb pl sh nt = Inr ip"
    and "nw \<noteq> 0" and "pl \<noteq> 0" and "unat tb < 31" and "unat sh < 32"
  shows "ip_ok ip \<and> threadInfo ip = replicate (unat nt) \<lparr>pathHist = [], headHistEntry = 0\<rparr>"
  using assms by (auto simp: IndirectPredictor_new_def ebind_eq_Inr ip_ok_def intro!: list_all_replicate)

text \<open>
  With the sequence numbers of the path history in order, \<open>squash\<close> removes exactly the
  entries younger than the squashed instruction.
\<close>

lemma squash_info_filter:
  "sorted_wrt (\<lambda>x y. he_seqNum x < he_seqNum y) (pathHist ti) \<Longrightarrow>
    pathHist (squash_info sn ti) = filter (\<lambda>e. he_seqNum e \<le> sn) (pathHist ti)"
  by (simp add: squash_info_def not_less takeWhile_le_filter)

end
