(* ===== verification/BPred_Unit.thy ===== *)
theory BPred_Unit
  imports Indirect_Pred "HOL-Library.Sublist"
begin

text \<open>
  \<open>cpu/pred/bpred_unit.hh\<close> and \<open>bpred_unit.cc\<close>: the base class that drives a direction predictor,
  the BTB, the return address stacks and the indirect predictor, and keeps one queue of
  outstanding predictions per thread.

  The derived class is the parameter \<open>P\<close> of type \<open>DirPred\<close>. The instruction set is a parameter
  too (\<open>isa_ops\<close>, \<open>StaticInst\<close>): \<open>PCState\<close> is the type variable \<open>'pc\<close>, and the functions of
  \<open>TheISA\<close> the code calls are fields. Trace output and probe notifications are left out.
\<close>

record 'pc isa_ops =
  PCState_zero :: 'pc
  PCState_default :: 'pc
  PCState_set0 :: "'pc \<Rightarrow> 'pc"
  instAddr :: "'pc \<Rightarrow> Addr"
  buildRetPC :: "'pc \<Rightarrow> 'pc \<Rightarrow> 'pc"

record 'pc StaticInst =
  isUncondCtrl :: bool
  isReturn :: bool
  isCall :: bool
  isDirectCtrl :: bool
  advancePC :: "'pc \<Rightarrow> 'pc"

record ('h, 'pc) PredictorHistory =
  seqNum :: InstSeqNum
  ph_pc :: Addr
  bpHistory :: "'h option"
  RASTarget :: 'pc
  RASIndex :: unsigned
  ph_tid :: ThreadID
  predTaken :: bool
  usedRAS :: bool
  pushedRAS :: bool
  wasCall :: bool
  wasReturn :: bool
  wasIndirect :: bool

record BPStats =
  st_lookups :: nat
  st_condPredicted :: nat
  st_condIncorrect :: nat
  st_BTBLookups :: nat
  st_BTBHits :: nat
  st_BTBCorrect :: nat
  st_usedRAS :: nat
  st_RASIncorrect :: nat
  st_indirectLookups :: nat
  st_indirectHits :: nat
  st_indirectMisses :: nat
  st_indirectMispredicted :: nat

text \<open>The field \<open>dir\<close> is the state of the derived class. A history deque is a list, front first.\<close>

record ('s, 'h, 'pc) BPredUnit =
  dir :: 's
  bp_numThreads :: unsigned
  predHist :: "('h, 'pc) PredictorHistory list list"
  bp_BTB :: "'pc DefaultBTB"
  bp_RAS :: "'pc ReturnAddrStack list"
  useIndirect :: bool
  iPred :: "'pc IndirectPredictor"
  stats :: BPStats

record BPParams =
  p_numThreads :: unsigned
  p_BTBEntries :: unsigned
  p_BTBTagSize :: unsigned
  p_instShiftAmt :: unsigned
  p_RASSize :: unsigned
  p_useIndirect :: bool
  p_indirectHashGHR :: bool
  p_indirectHashTargets :: bool
  p_indirectSets :: unsigned
  p_indirectWays :: unsigned
  p_indirectTagSize :: unsigned
  p_indirectPathLength :: unsigned

definition PredictorHistory_new ::
    "'pc \<Rightarrow> InstSeqNum \<Rightarrow> Addr \<Rightarrow> bool \<Rightarrow> 'h option \<Rightarrow> ThreadID \<Rightarrow> ('h, 'pc) PredictorHistory" where
  "PredictorHistory_new pc0 seq_num instPC pred_taken bp_history tid =
     \<lparr>seqNum = seq_num, ph_pc = instPC, bpHistory = bp_history, RASTarget = pc0, RASIndex = 0,
      ph_tid = tid, predTaken = pred_taken, usedRAS = False, pushedRAS = False, wasCall = False,
      wasReturn = False, wasIndirect = False\<rparr>"

definition BPredUnit_new ::
    "'pc isa_ops \<Rightarrow> ThreadID \<Rightarrow> BPParams \<Rightarrow> 's \<Rightarrow> bp_error + ('s, 'h, 'pc) BPredUnit" where
  "BPredUnit_new isa junk p s =
     ebind (DefaultBTB_new (PCState_zero isa) junk (p_BTBEntries p) (p_BTBTagSize p) (p_instShiftAmt p)
       (p_numThreads p)) (\<lambda>b.
     ebind (IndirectPredictor_new (PCState_zero isa) (p_indirectHashGHR p) (p_indirectHashTargets p)
       (p_indirectSets p) (p_indirectWays p) (p_indirectTagSize p) (p_indirectPathLength p)
       (p_instShiftAmt p) (p_numThreads p)) (\<lambda>ip.
     Inr \<lparr>dir = s, bp_numThreads = p_numThreads p,
          predHist = replicate (unat (p_numThreads p)) [],
          bp_BTB = b,
          bp_RAS = replicate (unat (p_numThreads p))
            (RAS_init (PCState_default isa) (PCState_set0 isa) (p_RASSize p)),
          useIndirect = p_useIndirect p,
          iPred = ip,
          stats = \<lparr>st_lookups = 0, st_condPredicted = 0, st_condIncorrect = 0, st_BTBLookups = 0,
            st_BTBHits = 0, st_BTBCorrect = 0, st_usedRAS = 0, st_RASIncorrect = 0, st_indirectLookups = 0,
            st_indirectHits = 0, st_indirectMisses = 0, st_indirectMispredicted = 0\<rparr>\<rparr>))"

text \<open>
  The statistics \<open>regStats\<close> registers: the full name and the description of each, in order.
  \<open>atLeastOneCorrectExpertOnMispredict\<close> is commented out in the source. \<open>BTBHitPct\<close> is the formula
  \<open>(BTBHits / BTBLookups) * 100\<close>, the others are the counters of \<open>BPStats\<close> and \<open>ExpertStats\<close>.
\<close>

definition regStats :: "string \<Rightarrow> (string \<times> string) list" where
  "regStats name =
     [(name @ ''.lookups'', ''Number of BP lookups''),
      (name @ ''.condPredicted'', ''Number of conditional branches predicted''),
      (name @ ''.condIncorrect'', ''Number of conditional branches incorrect''),
      (name @ ''.BTBLookups'', ''Number of BTB lookups''),
      (name @ ''.BTBHits'', ''Number of BTB hits''),
      (name @ ''.BTBCorrect'', ''Number of correct BTB predictions (this stat may not work properly.''),
      (name @ ''.BTBHitPct'', ''BTB Hit Percentage''),
      (name @ ''.usedRAS'', ''Number of times the RAS was used to get a target.''),
      (name @ ''.RASInCorrect'', ''Number of incorrect RAS predictions.''),
      (name @ ''.indirectLookups'', ''Number of indirect predictor lookups.''),
      (name @ ''.indirectHits'', ''Number of indirect target hits.''),
      (name @ ''.indirectMisses'', ''Number of indirect misses.''),
      (name @ ''indirectMispredicted'', ''Number of mispredicted indirect branches.''),
      (name @ ''.oneCorrectExpert'', ''Number of times when there is a single correct expert on a mispredict.''),
      (name @ ''.twoCorrectExpert'', ''Number of times when there are two correct experts on a mispredict.''),
      (name @ ''.threeCorrectExpert'', ''Number of times when there are three correct experts on a mispredict.''),
      (name @ ''.allExpertsWrong'', ''Number of times all experts voted incorrectly.''),
      (name @ ''.allExpertsRight'', ''Number of times all experts voted correctly.''),
      (name @ ''.lowWeightExpertsWon'',
         ''Number of times where lower weighted experts overrode the highest weight expert.'')]"

definition drainSanityCheck :: "('s, 'h, 'pc) BPredUnit \<Rightarrow> unit option" where
  "drainSanityCheck u = assert_that (list_all (\<lambda>ph. ph = []) (predHist u))"

text \<open>\<open>BTBValid\<close>, \<open>BTBLookup\<close> and \<open>BTBUpdate\<close>: the accessors for thread 0.\<close>

definition BTBValid :: "('s, 'h, 'pc) BPredUnit \<Rightarrow> Addr \<Rightarrow> bool option" where
  "BTBValid u instPC = BTB_valid (bp_BTB u) instPC 0"

definition BTBLookup :: "'pc isa_ops \<Rightarrow> ('s, 'h, 'pc) BPredUnit \<Rightarrow> Addr \<Rightarrow> 'pc option" where
  "BTBLookup isa u instPC = BTB_lookup (PCState_zero isa) (bp_BTB u) instPC 0"

definition BTBUpdate :: "('s, 'h, 'pc) BPredUnit \<Rightarrow> Addr \<Rightarrow> 'pc \<Rightarrow> ('s, 'h, 'pc) BPredUnit option" where
  "BTBUpdate u instPC target = do { b \<leftarrow> BTB_update (bp_BTB u) instPC target 0; Some (u\<lparr>bp_BTB := b\<rparr>) }"

subsection \<open>predict\<close>

text \<open>The direction: \<open>uncondBranch\<close> or \<open>lookup\<close> of the derived class.\<close>

definition predict_direction ::
    "('s, 'h) DirPred \<Rightarrow> ('s, 'h, 'pc) BPredUnit \<Rightarrow> 'pc StaticInst \<Rightarrow> Addr \<Rightarrow> ThreadID \<Rightarrow>
     (bool \<times> 'h option \<times> ('s, 'h, 'pc) BPredUnit) option" where
  "predict_direction P u inst a tid =
     (if isUncondCtrl inst then do {
        (h, s) \<leftarrow> dp_uncondBranch P (dir u) tid a;
        Some (True, h, u\<lparr>dir := s\<rparr>) }
      else do {
        (b, h, s) \<leftarrow> dp_lookup P (dir u) tid a;
        Some (b, h, u\<lparr>dir := s, stats := (stats u)\<lparr>st_condPredicted := st_condPredicted (stats u) + 1\<rparr>\<rparr>) })"

text \<open>A predicted-taken return takes its target from the return address stack.\<close>

definition predict_return ::
    "'pc isa_ops \<Rightarrow> ('s, 'h, 'pc) BPredUnit \<Rightarrow> ('h, 'pc) PredictorHistory \<Rightarrow> 'pc \<Rightarrow> ThreadID \<Rightarrow>
     (bool \<times> 'pc \<times> ('h, 'pc) PredictorHistory \<times> ('s, 'h, 'pc) BPredUnit) option" where
  "predict_return isa u rec pc tid = do {
     r \<leftarrow> vec_at (bp_RAS u) (tid_index tid);
     rasTop \<leftarrow> RAS_top r;
     let target = buildRetPC isa pc rasTop;
     let rec = rec\<lparr>wasReturn := True, usedRAS := True, RASIndex := RAS_topIdx r, RASTarget := rasTop\<rparr>;
     Some (True, target, rec, u\<lparr>bp_RAS := (bp_RAS u)[tid_index tid := RAS_pop r],
       stats := (stats u)\<lparr>st_usedRAS := st_usedRAS (stats u) + 1\<rparr>\<rparr>) }"

text \<open>A call pushes; when no target is found, a conditional call pops again.\<close>

definition push_call ::
    "('s, 'h, 'pc) BPredUnit \<Rightarrow> ('h, 'pc) PredictorHistory \<Rightarrow> 'pc StaticInst \<Rightarrow> 'pc \<Rightarrow> ThreadID \<Rightarrow>
     (('h, 'pc) PredictorHistory \<times> ('s, 'h, 'pc) BPredUnit) option" where
  "push_call u rec inst pc tid =
     (if isCall inst then do {
        r \<leftarrow> vec_at (bp_RAS u) (tid_index tid);
        r' \<leftarrow> RAS_push r pc;
        Some (rec\<lparr>pushedRAS := True, wasCall := True\<rparr>, u\<lparr>bp_RAS := (bp_RAS u)[tid_index tid := r']\<rparr>) }
      else Some (rec, u))"

definition pop_call ::
    "('s, 'h, 'pc) BPredUnit \<Rightarrow> ('h, 'pc) PredictorHistory \<Rightarrow> ThreadID \<Rightarrow>
     (('h, 'pc) PredictorHistory \<times> ('s, 'h, 'pc) BPredUnit) option" where
  "pop_call u rec tid = do {
     rs \<leftarrow> vec_mod RAS_pop (bp_RAS u) (tid_index tid);
     Some (rec\<lparr>pushedRAS := False\<rparr>, u\<lparr>bp_RAS := rs\<rparr>) }"

text \<open>A direct branch, or any branch when the indirect predictor is off: the BTB.\<close>

definition predict_btb ::
    "('s, 'h) DirPred \<Rightarrow> 'pc isa_ops \<Rightarrow> ('s, 'h, 'pc) BPredUnit \<Rightarrow> ('h, 'pc) PredictorHistory \<Rightarrow>
     'pc StaticInst \<Rightarrow> 'pc \<Rightarrow> ThreadID \<Rightarrow>
     (bool \<times> 'pc \<times> ('h, 'pc) PredictorHistory \<times> ('s, 'h, 'pc) BPredUnit) option" where
  "predict_btb P isa u rec inst pc tid = do {
     v \<leftarrow> BTB_valid (bp_BTB u) (instAddr isa pc) tid;
     if v then do {
       let u = u\<lparr>stats := (stats u)\<lparr>st_BTBHits := st_BTBHits (stats u) + 1\<rparr>\<rparr>;
       target \<leftarrow> BTB_lookup (PCState_zero isa) (bp_BTB u) (instAddr isa pc) tid;
       Some (True, target, rec, u) }
     else do {
       (rec, u) \<leftarrow>
         (if \<not> isCall inst \<and> \<not> isReturn inst then do {
            s \<leftarrow> dp_btbUpdate P (dir u) tid (instAddr isa pc) (bpHistory rec);
            Some (rec, u\<lparr>dir := s\<rparr>) }
          else if isCall inst \<and> \<not> isUncondCtrl inst then pop_call u rec tid
          else Some (rec, u));
       Some (False, advancePC inst pc, rec, u) } }"

text \<open>An indirect branch: the indirect predictor, which also records the predicted target.\<close>

definition predict_indirect ::
    "('s, 'h) DirPred \<Rightarrow> 'pc isa_ops \<Rightarrow> ('s, 'h, 'pc) BPredUnit \<Rightarrow> ('h, 'pc) PredictorHistory \<Rightarrow>
     'pc StaticInst \<Rightarrow> InstSeqNum \<Rightarrow> 'pc \<Rightarrow> ThreadID \<Rightarrow>
     (bool \<times> 'pc \<times> ('h, 'pc) PredictorHistory \<times> ('s, 'h, 'pc) BPredUnit) option" where
  "predict_indirect P isa u rec inst sn pc tid = do {
     let rec = rec\<lparr>wasIndirect := True\<rparr>;
     let u = u\<lparr>stats := (stats u)\<lparr>st_indirectLookups := st_indirectLookups (stats u) + 1\<rparr>\<rparr>;
     ghr \<leftarrow> dp_getGHR P (dir u) tid (bpHistory rec);
     found \<leftarrow> ip_lookup (iPred u) (instAddr isa pc) ghr tid;
     (taken, target, rec, u) \<leftarrow> (case found of
         Some target \<Rightarrow>
           Some (True, target, rec, u\<lparr>stats := (stats u)\<lparr>st_indirectHits := st_indirectHits (stats u) + 1\<rparr>\<rparr>)
       | None \<Rightarrow> do {
           let u = u\<lparr>stats := (stats u)\<lparr>st_indirectMisses := st_indirectMisses (stats u) + 1\<rparr>\<rparr>;
           (rec, u) \<leftarrow>
             (if \<not> isCall inst \<and> \<not> isReturn inst then Some (rec, u)
              else if isCall inst \<and> \<not> isUncondCtrl inst then pop_call u rec tid
              else Some (rec, u));
           Some (False, advancePC inst pc, rec, u) });
     ip \<leftarrow> recordIndirect (iPred u) (instAddr isa pc) (instAddr isa target) sn tid;
     Some (taken, target, rec, u\<lparr>iPred := ip\<rparr>) }"

text \<open>The target: nothing to look up when predicted not taken.\<close>

definition predict_target ::
    "('s, 'h) DirPred \<Rightarrow> 'pc isa_ops \<Rightarrow> ('s, 'h, 'pc) BPredUnit \<Rightarrow> bool \<Rightarrow> ('h, 'pc) PredictorHistory \<Rightarrow>
     'pc StaticInst \<Rightarrow> InstSeqNum \<Rightarrow> 'pc \<Rightarrow> ThreadID \<Rightarrow>
     (bool \<times> 'pc \<times> ('h, 'pc) PredictorHistory \<times> ('s, 'h, 'pc) BPredUnit) option" where
  "predict_target P isa u pred_taken rec inst sn pc tid =
     (if pred_taken then
        if isReturn inst then predict_return isa u rec pc tid
        else do {
          let u = u\<lparr>stats := (stats u)\<lparr>st_BTBLookups := st_BTBLookups (stats u) + 1\<rparr>\<rparr>;
          (rec, u) \<leftarrow> push_call u rec inst pc tid;
          if isDirectCtrl inst \<or> \<not> useIndirect u then predict_btb P isa u rec inst pc tid
          else predict_indirect P isa u rec inst sn pc tid }
      else Some (False, advancePC inst pc, if isReturn inst then rec\<lparr>wasReturn := True\<rparr> else rec, u))"

text \<open>The result: the prediction, the predicted PC and the state after it.\<close>

definition predict ::
    "('s, 'h) DirPred \<Rightarrow> 'pc isa_ops \<Rightarrow> ('s, 'h, 'pc) BPredUnit \<Rightarrow> 'pc StaticInst \<Rightarrow> InstSeqNum \<Rightarrow> 'pc \<Rightarrow> ThreadID \<Rightarrow>
     (bool \<times> 'pc \<times> ('s, 'h, 'pc) BPredUnit) option" where
  "predict P isa u inst sn pc tid = do {
     let u = u\<lparr>stats := (stats u)\<lparr>st_lookups := st_lookups (stats u) + 1\<rparr>\<rparr>;
     (pred_taken, bp_history, u) \<leftarrow> predict_direction P u inst (instAddr isa pc) tid;
     let predict_record = PredictorHistory_new (PCState_zero isa) sn (instAddr isa pc) pred_taken bp_history tid;
     (pred_taken, target, predict_record, u) \<leftarrow> predict_target P isa u pred_taken predict_record inst sn pc tid;
     phs \<leftarrow> vec_mod (Cons predict_record) (predHist u) (tid_index tid);
     Some (pred_taken, target, u\<lparr>predHist := phs\<rparr>) }"

subsection \<open>update and squash\<close>

text \<open>The loop of \<open>update\<close>, over the outstanding predictions from the oldest on.\<close>

fun commit_loop ::
    "('s, 'h) DirPred \<Rightarrow> InstSeqNum \<Rightarrow> ThreadID \<Rightarrow> 's \<Rightarrow> ('h, 'pc) PredictorHistory list \<Rightarrow>
     ('s \<times> ('h, 'pc) PredictorHistory list) option" where
  "commit_loop P done_sn tid s [] = Some (s, [])"
| "commit_loop P done_sn tid s (e # es) =
     (if seqNum e \<le> done_sn then do {
        s' \<leftarrow> dp_update P s tid (ph_pc e) (predTaken e) (bpHistory e) False;
        commit_loop P done_sn tid s' es }
      else Some (s, e # es))"

definition bp_update ::
    "('s, 'h) DirPred \<Rightarrow> ('s, 'h, 'pc) BPredUnit \<Rightarrow> InstSeqNum \<Rightarrow> ThreadID \<Rightarrow> ('s, 'h, 'pc) BPredUnit option" where
  "bp_update P u done_sn tid = do {
     ip \<leftarrow> ip_commit (iPred u) done_sn tid;
     ph \<leftarrow> vec_at (predHist u) (tid_index tid);
     (s, es) \<leftarrow> commit_loop P done_sn tid (dir u) (rev ph);
     Some (u\<lparr>iPred := ip, dir := s, predHist := (predHist u)[tid_index tid := rev es]\<rparr>) }"

text \<open>One round of the loop of \<open>squash\<close>: repair the stack, then squash the derived class.\<close>

definition repair_RAS ::
    "'pc ReturnAddrStack \<Rightarrow> ('h, 'pc) PredictorHistory \<Rightarrow> 'pc ReturnAddrStack option" where
  "repair_RAS r e =
     (if usedRAS e then RAS_restore r (RASIndex e) (RASTarget e)
      else if wasCall e \<and> pushedRAS e then Some (RAS_pop r)
      else Some r)"

fun squash_loop ::
    "('s, 'h) DirPred \<Rightarrow> InstSeqNum \<Rightarrow> ThreadID \<Rightarrow> 's \<Rightarrow> 'pc ReturnAddrStack \<Rightarrow> ('h, 'pc) PredictorHistory list \<Rightarrow>
     ('s \<times> 'pc ReturnAddrStack \<times> ('h, 'pc) PredictorHistory list) option" where
  "squash_loop P squashed_sn tid s r [] = Some (s, r, [])"
| "squash_loop P squashed_sn tid s r (e # es) =
     (if seqNum e > squashed_sn then do {
        r' \<leftarrow> repair_RAS r e;
        s' \<leftarrow> dp_squash P s tid (bpHistory e);
        squash_loop P squashed_sn tid s' r' es }
      else Some (s, r, e # es))"

definition bp_squash ::
    "('s, 'h) DirPred \<Rightarrow> ('s, 'h, 'pc) BPredUnit \<Rightarrow> InstSeqNum \<Rightarrow> ThreadID \<Rightarrow> ('s, 'h, 'pc) BPredUnit option" where
  "bp_squash P u squashed_sn tid = do {
     ph \<leftarrow> vec_at (predHist u) (tid_index tid);
     ip \<leftarrow> ip_squash (iPred u) squashed_sn tid;
     r \<leftarrow> vec_at (bp_RAS u) (tid_index tid);
     (s, r', es) \<leftarrow> squash_loop P squashed_sn tid (dir u) r ph;
     Some (u\<lparr>iPred := ip, dir := s, bp_RAS := (bp_RAS u)[tid_index tid := r'],
            predHist := (predHist u)[tid_index tid := es]\<rparr>) }"

text \<open>
  The fix-up of \<open>squash(sn, corrTarget, actually_taken, tid)\<close> for the entry of the mispredicted
  branch itself, when the branch is taken and when it is not.
\<close>

definition fixup_taken ::
    "'pc isa_ops \<Rightarrow> unsigned \<Rightarrow> ('s, 'h, 'pc) BPredUnit \<Rightarrow> ('h, 'pc) PredictorHistory \<Rightarrow> unsigned \<Rightarrow> 'pc \<Rightarrow> ThreadID \<Rightarrow>
     (('h, 'pc) PredictorHistory \<times> ('s, 'h, 'pc) BPredUnit) option" where
  "fixup_taken isa rnd u e ghr corrTarget tid = do {
     (e, u) \<leftarrow>
       (if wasReturn e \<and> \<not> usedRAS e then do {
          rs \<leftarrow> vec_mod RAS_pop (bp_RAS u) (tid_index tid);
          Some (e\<lparr>usedRAS := True\<rparr>, u\<lparr>bp_RAS := rs\<rparr>) }
        else Some (e, u));
     if wasIndirect e then do {
       ip \<leftarrow> recordTarget (instAddr isa) rnd (iPred u) (seqNum e) ghr corrTarget tid;
       Some (e, u\<lparr>iPred := ip,
         stats := (stats u)\<lparr>st_indirectMispredicted := st_indirectMispredicted (stats u) + 1\<rparr>\<rparr>) }
     else do {
       b \<leftarrow> BTB_update (bp_BTB u) (ph_pc e) corrTarget tid;
       Some (e, u\<lparr>bp_BTB := b\<rparr>) } }"

definition fixup_not_taken ::
    "('s, 'h, 'pc) BPredUnit \<Rightarrow> ('h, 'pc) PredictorHistory \<Rightarrow> ThreadID \<Rightarrow>
     (('h, 'pc) PredictorHistory \<times> ('s, 'h, 'pc) BPredUnit) option" where
  "fixup_not_taken u e tid =
     (if usedRAS e then do {
        r \<leftarrow> vec_at (bp_RAS u) (tid_index tid);
        r' \<leftarrow> RAS_restore r (RASIndex e) (RASTarget e);
        Some (e\<lparr>usedRAS := False\<rparr>, u\<lparr>bp_RAS := (bp_RAS u)[tid_index tid := r']\<rparr>) }
      else if wasCall e \<and> pushedRAS e then do {
        rs \<leftarrow> vec_mod RAS_pop (bp_RAS u) (tid_index tid);
        Some (e\<lparr>pushedRAS := False\<rparr>, u\<lparr>bp_RAS := rs\<rparr>) }
      else Some (e, u))"

definition bp_mispredict ::
    "('s, 'h) DirPred \<Rightarrow> 'pc isa_ops \<Rightarrow> unsigned \<Rightarrow> ('s, 'h, 'pc) BPredUnit \<Rightarrow> InstSeqNum \<Rightarrow> 'pc \<Rightarrow> bool \<Rightarrow> ThreadID \<Rightarrow>
     ('s, 'h, 'pc) BPredUnit option" where
  "bp_mispredict P isa rnd u squashed_sn corrTarget actually_taken tid = do {
     let u = u\<lparr>stats := (stats u)\<lparr>st_condIncorrect := st_condIncorrect (stats u) + 1\<rparr>\<rparr>;
     u \<leftarrow> bp_squash P u squashed_sn tid;
     ph \<leftarrow> vec_at (predHist u) (tid_index tid);
     (case ph of
        [] \<Rightarrow> Some u
      | e # es \<Rightarrow> do {
          assert_that (seqNum e = squashed_sn);
          let u = (if usedRAS e then u\<lparr>stats := (stats u)\<lparr>st_RASIncorrect := st_RASIncorrect (stats u) + 1\<rparr>\<rparr> else u);
          ghr \<leftarrow> dp_getGHR P (dir u) tid (bpHistory e);
          let e = e\<lparr>predTaken := actually_taken\<rparr>;
          s \<leftarrow> dp_update P (dir u) tid (ph_pc e) actually_taken (bpHistory e) True;
          let u = u\<lparr>dir := s\<rparr>;
          (e, u) \<leftarrow> (if actually_taken then fixup_taken isa rnd u e ghr corrTarget tid
                    else fixup_not_taken u e tid);
          Some (u\<lparr>predHist := (predHist u)[tid_index tid := e # es]\<rparr>) }) }"

subsection \<open>The calls the pipeline makes\<close>

datatype 'pc bp_call =
    Predict "'pc StaticInst" InstSeqNum 'pc
  | Commit InstSeqNum
  | Squash InstSeqNum
  | Mispredict InstSeqNum 'pc bool unsigned

fun bp_step ::
    "('s, 'h) DirPred \<Rightarrow> 'pc isa_ops \<Rightarrow> ThreadID \<Rightarrow> ('s, 'h, 'pc) BPredUnit \<Rightarrow> 'pc bp_call \<Rightarrow>
     ('s, 'h, 'pc) BPredUnit option" where
  "bp_step P isa tid u (Predict inst sn pc) = map_option (snd \<circ> snd) (predict P isa u inst sn pc tid)"
| "bp_step P isa tid u (Commit sn) = bp_update P u sn tid"
| "bp_step P isa tid u (Squash sn) = bp_squash P u sn tid"
| "bp_step P isa tid u (Mispredict sn target taken rnd) = bp_mispredict P isa rnd u sn target taken tid"

text \<open>
  What the pipeline respects: sequence numbers grow along a thread, and a misprediction is
  reported for an outstanding branch or when none older is outstanding.
\<close>

fun call_ok :: "ThreadID \<Rightarrow> ('s, 'h, 'pc) BPredUnit \<Rightarrow> 'pc bp_call \<Rightarrow> bool" where
  "call_ok tid u (Predict inst sn pc) \<longleftrightarrow>
     list_all (\<lambda>e. seqNum e < sn) (predHist u ! tid_index tid) \<and>
     list_all (\<lambda>e. he_seqNum e < sn) (pathHist (threadInfo (iPred u) ! tid_index tid))"
| "call_ok tid u (Commit sn) \<longleftrightarrow> True"
| "call_ok tid u (Squash sn) \<longleftrightarrow> True"
| "call_ok tid u (Mispredict sn target taken rnd) \<longleftrightarrow>
     list_ex (\<lambda>e. seqNum e = sn) (predHist u ! tid_index tid) \<or>
     list_all (\<lambda>e. sn < seqNum e) (predHist u ! tid_index tid)"

inductive bp_reach ::
    "('s, 'h) DirPred \<Rightarrow> 'pc isa_ops \<Rightarrow> ('s, 'h, 'pc) BPredUnit \<Rightarrow> ('s, 'h, 'pc) BPredUnit \<Rightarrow> bool"
  for P isa u0 where
  reach_init: "bp_reach P isa u0 u0"
| reach_step: "bp_reach P isa u0 u \<Longrightarrow> tid_index t < unat (bp_numThreads u) \<Longrightarrow> call_ok t u c \<Longrightarrow>
    bp_step P isa t u c = Some u' \<Longrightarrow> bp_reach P isa u0 u'"

subsection \<open>Invariant\<close>

definition entry_ok :: "('h option \<Rightarrow> bool) \<Rightarrow> unsigned \<Rightarrow> ('h, 'pc) PredictorHistory \<Rightarrow> bool" where
  "entry_ok hok n e \<longleftrightarrow> hok (bpHistory e) \<and> RASIndex e < n"

text \<open>The outstanding predictions of a thread are ordered, youngest in front.\<close>

definition hist_sorted :: "('h, 'pc) PredictorHistory list \<Rightarrow> bool" where
  "hist_sorted ph \<longleftrightarrow> sorted_wrt (\<lambda>x y. seqNum y < seqNum x) ph"

text \<open>
  The path history of the indirect predictor is ordered and ends with the outstanding indirect
  branches, which is why \<open>recordTarget\<close> finds the mispredicted branch as its last entry.
\<close>

definition path_ok :: "('h, 'pc) PredictorHistory list \<Rightarrow> HistoryEntry list \<Rightarrow> bool" where
  "path_ok ph hs \<longleftrightarrow> sorted_wrt (\<lambda>x y. he_seqNum x < he_seqNum y) hs \<and>
     suffix (rev (map seqNum (filter wasIndirect ph))) (map he_seqNum hs)"

definition thread_ok ::
    "('h option \<Rightarrow> bool) \<Rightarrow> 'pc ReturnAddrStack \<Rightarrow> ('h, 'pc) PredictorHistory list \<Rightarrow> HistoryEntry list \<Rightarrow> bool" where
  "thread_ok hok r ph hs \<longleftrightarrow> ras_ok r \<and> list_all (entry_ok hok (ras_numEntries r)) ph \<and>
     hist_sorted ph \<and> path_ok ph hs"

definition unit_ok ::
    "('s \<Rightarrow> bool) \<Rightarrow> ('s \<Rightarrow> 'c) \<Rightarrow> ('c \<Rightarrow> nat) \<Rightarrow> ('c \<Rightarrow> 'h option \<Rightarrow> bool) \<Rightarrow> ('s, 'h, 'pc) BPredUnit \<Rightarrow> bool" where
  "unit_ok iv cfg threads hist_ok u \<longleftrightarrow>
     iv (dir u) \<and> unat (bp_numThreads u) \<le> threads (cfg (dir u)) \<and> btb_ok (bp_BTB u) \<and> ip_ok (iPred u) \<and>
     length (predHist u) = unat (bp_numThreads u) \<and> length (bp_RAS u) = unat (bp_numThreads u) \<and>
     length (threadInfo (iPred u)) = unat (bp_numThreads u) \<and>
     (\<forall>i < unat (bp_numThreads u). thread_ok (hist_ok (cfg (dir u))) (bp_RAS u ! i) (predHist u ! i)
        (pathHist (threadInfo (iPred u) ! i)))"

text \<open>What one call leaves alone, and how it changes the slot of its thread.\<close>

lemma tid_nonneg: "tid_index t < 2 ^ 32 \<Longrightarrow> 0 \<le> sint t"
proof (rule ccontr)
  assume "tid_index t < 2 ^ 32" and "\<not> 0 \<le> sint t"
  then have neg: "bit t 15" by (simp add: not_le bit_last_iff [of t, symmetric])
  then have "bit (signed t :: 64 word) 40" by (simp add: bit_simps)
  then have "bit (tid_index t) 40" by (simp add: tid_index_def bit_unsigned_iff)
  moreover have "\<not> bit (tid_index t) 40"
    using \<open>tid_index t < 2 ^ 32\<close> by (simp add: bit_iff_odd)
  ultimately show False by simp
qed

lemma unit_thread:
  assumes "unit_ok iv cfg th hok u" and "i < unat (bp_numThreads u)"
  shows "thread_ok (hok (cfg (dir u))) (bp_RAS u ! i) (predHist u ! i) (pathHist (threadInfo (iPred u) ! i))"
    and "i < length (bp_RAS u)" and "i < length (predHist u)" and "i < length (threadInfo (iPred u))"
    and "i < th (cfg (dir u))"
  using assms by (auto simp: unit_ok_def)

lemma unit_tid:
  assumes "tid_index t < unat (bp_numThreads u)"
  shows "0 \<le> sint t"
  using assms unsigned_less [of "bp_numThreads u", where ?'a = nat] by (intro tid_nonneg) simp

lemma unit_okI:
  assumes "unit_ok iv cfg th hok u" and "i < unat (bp_numThreads u)"
    and "iv (dir u')" and "cfg (dir u') = cfg (dir u)" and "btb_ok (bp_BTB u')" and "ip_ok (iPred u')"
    and "bp_numThreads u' = bp_numThreads u"
    and "bp_RAS u' = (bp_RAS u)[i := r']" and "predHist u' = (predHist u)[i := ph']"
    and "threadInfo (iPred u') = (threadInfo (iPred u))[i := ti']"
    and "thread_ok (hok (cfg (dir u))) r' ph' (pathHist ti')"
  shows "unit_ok iv cfg th hok u'"
  using assms by (auto simp: unit_ok_def nth_list_update)

end
