(* ===== verification/BPred_Safety.thy ===== *)
theory BPred_Safety
  imports BPred_Unit
begin

text \<open>
  The base class over any derived class that keeps the contract \<open>direction_predictor\<close>: every call
  the pipeline makes succeeds and keeps the invariant \<open>unit_ok\<close>, and \<open>update\<close> and \<open>squash\<close> remove
  exactly the entries they should. Over \<open>speculative_predictor\<close>: a squash undoes a run of
  predictions.
\<close>

subsection \<open>Effect of predict\<close>

definition ras_effect :: "'pc ReturnAddrStack \<Rightarrow> 'pc ReturnAddrStack \<Rightarrow> ('h, 'pc) PredictorHistory \<Rightarrow> bool" where
  "ras_effect r r' e \<longleftrightarrow>
     (if usedRAS e then \<not> wasCall e \<and> r' = RAS_pop r \<and> RASIndex e = tos r \<and> RAS_top r = Some (RASTarget e)
      else RASIndex e = 0 \<and>
        (if wasCall e then \<exists>x r1. RAS_push r x = Some r1 \<and> r' = (if pushedRAS e then r1 else RAS_pop r1)
         else r' = r))"

definition ip_effect ::
    "'pc IndirectPredictor \<Rightarrow> 'pc IndirectPredictor \<Rightarrow> nat \<Rightarrow> ('h, 'pc) PredictorHistory \<Rightarrow> bool" where
  "ip_effect ip ip' i e \<longleftrightarrow>
     (\<exists>hs. ip' = ip\<lparr>threadInfo := (threadInfo ip)[i := (threadInfo ip ! i)\<lparr>pathHist := pathHist (threadInfo ip ! i) @ hs\<rparr>]\<rparr> \<and>
        map he_seqNum hs = (if wasIndirect e then [seqNum e] else []))"

definition same_entry :: "('h, 'pc) PredictorHistory \<Rightarrow> ('h, 'pc) PredictorHistory \<Rightarrow> bool" where
  "same_entry e e' \<longleftrightarrow> seqNum e' = seqNum e \<and> ph_pc e' = ph_pc e \<and> bpHistory e' = bpHistory e \<and>
     predTaken e' = predTaken e"

definition same_frame :: "('s, 'h, 'pc) BPredUnit \<Rightarrow> ('s, 'h, 'pc) BPredUnit \<Rightarrow> bool" where
  "same_frame u u' \<longleftrightarrow> bp_numThreads u' = bp_numThreads u \<and> useIndirect u' = useIndirect u \<and>
     bp_BTB u' = bp_BTB u \<and> predHist u' = predHist u"

definition target_effect ::
    "('s, 'h) DirPred \<Rightarrow> ThreadID \<Rightarrow> Addr \<Rightarrow> ('s, 'h, 'pc) BPredUnit \<Rightarrow> ('h, 'pc) PredictorHistory \<Rightarrow>
     ('s, 'h, 'pc) BPredUnit \<Rightarrow> ('h, 'pc) PredictorHistory \<Rightarrow> bool" where
  "target_effect P t a u e u' e' \<longleftrightarrow>
     same_frame u u' \<and> same_entry e e' \<and>
     (dir u' = dir u \<or> dp_btbUpdate P (dir u) t a (bpHistory e) = Some (dir u')) \<and>
     (\<exists>r'. bp_RAS u' = (bp_RAS u)[tid_index t := r'] \<and> ras_effect (bp_RAS u ! tid_index t) r' e') \<and>
     ip_effect (iPred u) (iPred u') (tid_index t) e'"

lemmas effect_defs = target_effect_def same_frame_def same_entry_def ip_effect_def ras_effect_def

text \<open>The entry as \<open>predict\<close> creates it: no flag is set.\<close>

definition fresh_entry :: "('h, 'pc) PredictorHistory \<Rightarrow> bool" where
  "fresh_entry e \<longleftrightarrow> \<not> usedRAS e \<and> \<not> pushedRAS e \<and> \<not> wasCall e \<and> \<not> wasReturn e \<and> \<not> wasIndirect e \<and> RASIndex e = 0"

lemma ip_effect_refl: "\<not> wasIndirect e \<Longrightarrow> ip_effect ip ip i e"
  by (auto simp: ip_effect_def intro!: exI [of _ "[]"])

lemma predict_return_effect:
  assumes "ras_ok (bp_RAS u ! tid_index t)" and "tid_index t < length (bp_RAS u)" and "fresh_entry e"
  shows "\<exists>tg e' u'. predict_return isa u e pc t = Some (True, tg, e', u') \<and> target_effect P t a u e u' e'"
  using assms
  by (auto simp: predict_return_def fault_simps RAS_top_eq Let_def RAS_topIdx_def fresh_entry_def
      target_effect_def same_frame_def same_entry_def ras_effect_def ip_effect_refl intro!: exI [of _ "RAS_pop _"])

lemma push_call_effect:
  assumes "ras_ok (bp_RAS u ! tid_index t)" and "tid_index t < length (bp_RAS u)" and "fresh_entry e"
  obtains r' where "push_call u e inst pc t = Some (e\<lparr>pushedRAS := isCall inst, wasCall := isCall inst\<rparr>,
      u\<lparr>bp_RAS := (bp_RAS u)[tid_index t := r']\<rparr>)"
    and "isCall inst \<Longrightarrow> RAS_push (bp_RAS u ! tid_index t) pc = Some r'"
    and "\<not> isCall inst \<Longrightarrow> r' = bp_RAS u ! tid_index t"
proof (cases "isCall inst")
  case True
  obtain r' where "RAS_push (bp_RAS u ! tid_index t) pc = Some r'" using RAS_push_eq [OF assms(1)] by blast
  then show ?thesis using assms True that by (auto simp: push_call_def fault_simps)
next
  case False
  then show ?thesis using assms that [of "bp_RAS u ! tid_index t"] by (auto simp: push_call_def fresh_entry_def)
qed

text \<open>What is left of the call's push when the target lookup is over.\<close>

definition keep_or_pop ::
    "bool \<Rightarrow> ('s, 'h, 'pc) BPredUnit \<Rightarrow> ('h, 'pc) PredictorHistory \<Rightarrow> nat \<Rightarrow> ('s, 'h, 'pc) BPredUnit \<Rightarrow>
     ('h, 'pc) PredictorHistory \<Rightarrow> bool" where
  "keep_or_pop call u e i u' e' \<longleftrightarrow>
     bp_RAS u' = bp_RAS u \<and> e' = e \<or>
     call \<and> bp_RAS u' = (bp_RAS u)[i := RAS_pop (bp_RAS u ! i)] \<and> e' = e\<lparr>pushedRAS := False\<rparr>"

lemma recordIndirect_effect:
  assumes "i = tid_index t" and "i < length (threadInfo ip)" and "wasIndirect e" and "seqNum e = sn"
  shows "\<exists>ip'. recordIndirect ip a tg sn t = Some ip' \<and> ip_effect ip ip' i e"
  using assms by (auto simp: recordIndirect_def fault_simps ip_effect_def)

lemma target_effect_not_taken:
  assumes "fresh_entry e"
  shows "target_effect P t a u e u (e\<lparr>wasReturn := w\<rparr>)"
proof -
  have "\<exists>r'. bp_RAS u = (bp_RAS u)[tid_index t := r'] \<and> ras_effect (bp_RAS u ! tid_index t) r' (e\<lparr>wasReturn := w\<rparr>)"
    using assms by (intro exI [of _ "bp_RAS u ! tid_index t"]) (simp add: ras_effect_def fresh_entry_def)
  moreover have "ip_effect (iPred u) (iPred u) (tid_index t) (e\<lparr>wasReturn := w\<rparr>)"
    using assms by (intro ip_effect_refl) (simp add: fresh_entry_def)
  ultimately show ?thesis by (simp add: target_effect_def same_frame_def same_entry_def)
qed

lemma target_effect_compose:
  assumes frame: "same_frame u u'" and e: "fresh_entry e" and i: "tid_index t < length (bp_RAS u)"
    and dir: "dir u' = dir u \<or> dp_btbUpdate P (dir u) t a (bpHistory e) = Some (dir u')"
    and u1: "bp_RAS u1 = (bp_RAS u)[tid_index t := r1]"
    and e1: "e1 = e\<lparr>pushedRAS := c, wasCall := c, wasIndirect := w\<rparr>"
    and push: "c \<Longrightarrow> RAS_push (bp_RAS u ! tid_index t) pc = Some r1" "\<not> c \<Longrightarrow> r1 = bp_RAS u ! tid_index t"
    and keep: "keep_or_pop c u1 e1 (tid_index t) u' e'"
    and ip: "ip_effect (iPred u) (iPred u') (tid_index t) e'"
  shows "target_effect P t a u e u' e'"
proof -
  have "same_entry e e'" using keep by (auto simp: keep_or_pop_def same_entry_def e1)
  moreover have "\<exists>r'. bp_RAS u' = (bp_RAS u)[tid_index t := r'] \<and> ras_effect (bp_RAS u ! tid_index t) r' e'"
  proof (cases c)
    case True
    then show ?thesis using keep e push(1) i unfolding keep_or_pop_def
      by (elim disjE) (auto simp: u1 e1 ras_effect_def fresh_entry_def)
  next
    case False
    then show ?thesis using keep e push(2)
      by (auto simp: keep_or_pop_def u1 e1 ras_effect_def fresh_entry_def)
  qed
  ultimately show ?thesis using frame dir ip by (simp add: target_effect_def)
qed

lemma ras_effect_ok:
  assumes "ras_ok r" and "ras_effect r r' e"
  shows "ras_ok r' \<and> ras_numEntries r' = ras_numEntries r \<and> RASIndex e < ras_numEntries r"
proof -
  have n: "0 < ras_numEntries r" "tos r < ras_numEntries r" using assms(1) by (auto simp: ras_ok_def word_gt_0)
  have p: "ras_ok r1 \<and> ras_numEntries r1 = ras_numEntries r" if "RAS_push r x = Some r1" for x r1
    using that ras_ok_push [OF assms(1)] by (auto simp: RAS_push_eq [OF assms(1)])
  have q: "ras_ok (RAS_pop r1) \<and> ras_numEntries (RAS_pop r1) = ras_numEntries r1" if "ras_ok r1" for r1
    using that by (simp add: ras_ok_pop)
  show ?thesis using assms n p q by (auto simp: ras_effect_def split: if_splits)
qed

lemma path_ok_predict:
  assumes "path_ok ph hs" and "list_all (\<lambda>h. he_seqNum h < seqNum e) hs"
    and "map he_seqNum hs' = (if wasIndirect e then [seqNum e] else [])"
  shows "path_ok (e # ph) (hs @ hs')"
proof (cases "wasIndirect e")
  case True
  then obtain h where "hs' = [h]" "he_seqNum h = seqNum e" using assms(3) by auto
  with assms True show ?thesis by (auto simp: path_ok_def sorted_wrt_append list_all_iff suffix_def)
next
  case False
  with assms show ?thesis by (simp add: path_ok_def)
qed

lemma thread_ok_predict:
  assumes "thread_ok hok r ph hs" and "ras_effect r r' e" and "hok (bpHistory e)"
    and "list_all (\<lambda>x. seqNum x < seqNum e) ph" and "list_all (\<lambda>h. he_seqNum h < seqNum e) hs"
    and "map he_seqNum hs' = (if wasIndirect e then [seqNum e] else [])"
  shows "thread_ok hok r' (e # ph) (hs @ hs')"
  using assms ras_effect_ok [of r r' e] path_ok_predict [of ph hs e hs']
  by (auto simp: thread_ok_def entry_ok_def hist_sorted_def list_all_iff)

subsection \<open>The outstanding predictions after commit and squash\<close>

lemma rev_dropWhile_commit:
  "hist_sorted ph \<Longrightarrow> rev (dropWhile (\<lambda>e. seqNum e \<le> sn) (rev ph)) = filter (\<lambda>e. sn < seqNum e) ph"
  by (simp add: hist_sorted_def dropWhile_le_filter sorted_wrt_rev rev_filter flip: rev_filter)

lemma takeWhile_commit:
  "hist_sorted ph \<Longrightarrow> takeWhile (\<lambda>e. seqNum e \<le> sn) (rev ph) = rev (filter (\<lambda>e. seqNum e \<le> sn) ph)"
  by (simp add: hist_sorted_def takeWhile_le_filter sorted_wrt_rev rev_filter)

text \<open>The commit of a list of entries, one \<open>update\<close> of the derived class for each.\<close>

definition commit_all ::
    "('s \<Rightarrow> ThreadID \<Rightarrow> Addr \<Rightarrow> bool \<Rightarrow> 'h option \<Rightarrow> bool \<Rightarrow> 's option) \<Rightarrow> ThreadID \<Rightarrow> ('h, 'pc) PredictorHistory list \<Rightarrow> 's \<Rightarrow> 's option" where
  "commit_all upd t es s = fold (\<lambda>e so. do { s \<leftarrow> so; upd s t (ph_pc e) (predTaken e) (bpHistory e) False }) es (Some s)"

lemma commit_loop_all:
  "commit_loop P sn t s es = Some (s', rest) \<Longrightarrow> commit_all (dp_update P) t (takeWhile (\<lambda>e. seqNum e \<le> sn) es) s = Some s'"
proof (induction es arbitrary: s)
  case (Cons e es)
  then show ?case by (cases "dp_update P s t (ph_pc e) (predTaken e) (bpHistory e) False") (auto simp: commit_all_def split: if_splits)
qed (simp add: commit_all_def)

lemma dropWhile_squash:
  "hist_sorted ph \<Longrightarrow> dropWhile (\<lambda>e. sn < seqNum e) ph = filter (\<lambda>e. seqNum e \<le> sn) ph"
  by (simp add: hist_sorted_def dropWhile_greater_filter)

lemma suffix_filter: "suffix xs ys \<Longrightarrow> suffix (filter Q xs) (filter Q ys)"
  by (auto simp: suffix_def)

lemma suffix_filter_greater:
  fixes xs :: "'a::linorder list"
  assumes "suffix xs ys" and "sorted_wrt (<) ys"
  shows "suffix (filter (\<lambda>x. n < x) xs) ys"
proof -
  have "sorted_wrt (<) xs" using assms by (auto simp: suffix_def sorted_wrt_append)
  then have "filter (\<lambda>x. n < x) xs = dropWhile (\<lambda>x. x \<le> n) xs"
    using dropWhile_le_filter [of "\<lambda>x. x" xs n] by simp
  then show ?thesis using assms(1) suffix_dropWhile suffix_order.trans by metis
qed

lemma filter_rev_seqNums:
  "rev (map seqNum (filter wasIndirect (filter (\<lambda>e. Q (seqNum e)) ph))) =
   filter Q (rev (map seqNum (filter wasIndirect ph)))"
  by (induction ph) auto

lemma path_ok_squash:
  assumes "path_ok ph hs"
  shows "path_ok (filter (\<lambda>e. seqNum e \<le> sn) ph) (filter (\<lambda>h. he_seqNum h \<le> sn) hs)"
proof -
  have "suffix (rev (map seqNum (filter wasIndirect (filter (\<lambda>e. seqNum e \<le> sn) ph))))
      (filter (\<lambda>n. n \<le> sn) (map he_seqNum hs))"
    using assms unfolding filter_rev_seqNums [where Q = "\<lambda>n. n \<le> sn"] path_ok_def
    by (intro suffix_filter) blast
  then show ?thesis using assms by (simp add: path_ok_def sorted_wrt_filter filter_map o_def)
qed

lemma path_ok_commit:
  assumes "path_ok ph (pathHist ti)"
  shows "path_ok (filter (\<lambda>e. sn < seqNum e) ph) (pathHist (commit_info pl sn ti))"
proof -
  let ?hs = "pathHist ti" and ?xs = "rev (map seqNum (filter wasIndirect (filter (\<lambda>e. sn < seqNum e) ph)))"
  have srt: "sorted_wrt (\<lambda>x y. he_seqNum x < he_seqNum y) ?hs" using assms by (simp add: path_ok_def)
  then have suf: "suffix ?xs (map he_seqNum ?hs)"
    using assms unfolding filter_rev_seqNums [where Q = "\<lambda>n. sn < n"]
    by (intro suffix_filter_greater) (simp_all add: path_ok_def sorted_wrt_map)
  show ?thesis
  proof (cases "pathHist (commit_info pl sn ti) = ?hs")
    case True
    then show ?thesis using srt suf by (simp add: path_ok_def)
  next
    case False
    then have tl: "pathHist (commit_info pl sn ti) = tl ?hs" and ne: "?hs \<noteq> []"
      and k: "unat (headHistEntry ti) < length ?hs" "he_seqNum (?hs ! unat (headHistEntry ti)) \<le> sn"
      by (auto simp: commit_info_def split: if_splits)
    obtain h t where h: "?hs = h # t" using ne by (cases ?hs) auto
    have "he_seqNum h \<le> sn"
      using k srt by (cases "unat (headHistEntry ti)") (auto simp: h dest!: nth_mem)
    then have "he_seqNum h \<notin> set ?xs" by auto
    then have "?xs \<noteq> map he_seqNum ?hs" unfolding h by (metis list.set_intros(1) list.simps(9))
    then have "suffix ?xs (map he_seqNum t)" using suf unfolding h list.map suffix_Cons by blast
    then show ?thesis using srt by (simp add: path_ok_def tl h)
  qed
qed

lemma thread_ok_squash:
  assumes "thread_ok hok r ph hs" and "ras_ok r'" and "ras_numEntries r' = ras_numEntries r"
  shows "thread_ok hok r' (filter (\<lambda>e. seqNum e \<le> sn) ph) (filter (\<lambda>h. he_seqNum h \<le> sn) hs)"
  using assms path_ok_squash by (auto simp: thread_ok_def list_all_iff hist_sorted_def sorted_wrt_filter)

lemma thread_ok_commit:
  assumes "thread_ok hok r ph (pathHist ti)"
  shows "thread_ok hok r (filter (\<lambda>e. sn < seqNum e) ph) (pathHist (commit_info pl sn ti))"
  using assms path_ok_commit by (auto simp: thread_ok_def list_all_iff hist_sorted_def sorted_wrt_filter)

lemma repair_RAS_ok:
  assumes "ras_ok r" and "entry_ok hok (ras_numEntries r) e"
  shows "\<exists>r'. repair_RAS r e = Some r' \<and> ras_ok r' \<and> ras_numEntries r' = ras_numEntries r"
  using assms ras_ok_restore [OF assms(1), of "RASIndex e" "RASTarget e"]
  by (auto simp: repair_RAS_def entry_ok_def RAS_restore_eq ras_ok_pop)

subsection \<open>The fix-up of the mispredicted entry\<close>

definition fixed_entry :: "('h, 'pc) PredictorHistory \<Rightarrow> ('h, 'pc) PredictorHistory \<Rightarrow> bool" where
  "fixed_entry e e' \<longleftrightarrow> seqNum e' = seqNum e \<and> ph_pc e' = ph_pc e \<and> bpHistory e' = bpHistory e \<and>
     RASIndex e' = RASIndex e \<and> wasIndirect e' = wasIndirect e"

lemma thread_ok_head:
  assumes "thread_ok hok r (e # es) hs" and "ras_ok r'" and "ras_numEntries r' = ras_numEntries r"
    and "map he_seqNum hs' = map he_seqNum hs" and "fixed_entry e e'"
  shows "thread_ok hok r' (e' # es) hs'"
proof -
  have "sorted_wrt (<) (map he_seqNum hs')"
    using assms(1) unfolding assms(4) by (simp add: thread_ok_def path_ok_def sorted_wrt_map)
  then have "sorted_wrt (\<lambda>x y. he_seqNum x < he_seqNum y) hs'" by (simp add: sorted_wrt_map)
  with assms show ?thesis
    by (auto simp: thread_ok_def entry_ok_def hist_sorted_def path_ok_def fixed_entry_def)
qed

lemma fixup_not_taken_ok:
  assumes "ras_ok (bp_RAS v ! tid_index t)" and "tid_index t < length (bp_RAS v)"
    and "RASIndex e < ras_numEntries (bp_RAS v ! tid_index t)"
  shows "\<exists>e' r'. fixup_not_taken v e t = Some (e', v\<lparr>bp_RAS := (bp_RAS v)[tid_index t := r']\<rparr>) \<and>
    fixed_entry e e' \<and> predTaken e' = predTaken e \<and> ras_ok r' \<and> ras_numEntries r' = ras_numEntries (bp_RAS v ! tid_index t)"
proof -
  let ?r = "bp_RAS v ! tid_index t"
  consider (ret) "usedRAS e" | (call) "\<not> usedRAS e" "wasCall e \<and> pushedRAS e" | (none) "\<not> usedRAS e" "\<not> (wasCall e \<and> pushedRAS e)"
    by blast
  then show ?thesis
  proof cases
    case ret
    obtain r' where r': "RAS_restore ?r (RASIndex e) (RASTarget e) = Some r'" "ras_ok r'" "ras_numEntries r' = ras_numEntries ?r"
      using RAS_restore_eq [OF assms(1,3), of "RASTarget e"] ras_ok_restore [OF assms(1,3), of "RASTarget e"] by auto
    then show ?thesis using ret assms(2)
      by (intro exI [of _ "e\<lparr>usedRAS := False\<rparr>"] exI [of _ r']) (simp add: fixup_not_taken_def fault_simps fixed_entry_def)
  next
    case call
    then show ?thesis using assms
      by (intro exI [of _ "e\<lparr>pushedRAS := False\<rparr>"] exI [of _ "RAS_pop ?r"])
        (simp add: fixup_not_taken_def fault_simps fixed_entry_def ras_ok_pop)
  next
    case none
    then show ?thesis using assms
      by (intro exI [of _ e] exI [of _ ?r]) (auto simp: fixup_not_taken_def fixed_entry_def)
  qed
qed

definition pop_return :: "('h, 'pc) PredictorHistory \<Rightarrow> bool" where
  "pop_return e \<longleftrightarrow> wasReturn e \<and> \<not> usedRAS e"

lemma map_replace_last: "xs \<noteq> [] \<Longrightarrow> (\<And>x. f (g x) = f x) \<Longrightarrow> map f (butlast xs @ [g (last xs)]) = map f xs"
  by (cases xs rule: rev_cases) auto

lemma fixup_taken_ok:
  assumes r: "ras_ok (bp_RAS v ! tid_index t)" and i: "tid_index t < length (bp_RAS v)"
    and b: "btb_ok (bp_BTB v)" "0 \<le> sint t"
    and ip: "ip_ok (iPred v)" "tid_index t < length (threadInfo (iPred v))"
    and ne: "wasIndirect e \<Longrightarrow> pathHist (threadInfo (iPred v) ! tid_index t) \<noteq> []"
  shows "\<exists>e' r' ip' b' st ti'. fixup_taken isa rnd v e ghr tg t =
      Some (e', v\<lparr>bp_RAS := (bp_RAS v)[tid_index t := r'], iPred := ip', bp_BTB := b', stats := st\<rparr>) \<and>
    fixed_entry e e' \<and> predTaken e' = predTaken e \<and> ras_ok r' \<and> ras_numEntries r' = ras_numEntries (bp_RAS v ! tid_index t) \<and>
    ip_ok ip' \<and> threadInfo ip' = (threadInfo (iPred v))[tid_index t := ti'] \<and>
    map he_seqNum (pathHist ti') = map he_seqNum (pathHist (threadInfo (iPred v) ! tid_index t)) \<and>
    btb_ok b' \<and> (\<not> wasIndirect e \<longrightarrow> BTB_update (bp_BTB v) (ph_pc e) tg t = Some b')"
proof -
  let ?i = "tid_index t"
  let ?r = "bp_RAS v ! ?i" and ?ti = "threadInfo (iPred v) ! ?i"
  define r' where "r' = (if pop_return e then RAS_pop ?r else ?r)"
  define e' where "e' = e\<lparr>usedRAS := (if pop_return e then True else usedRAS e)\<rparr>"
  define w where "w = v\<lparr>bp_RAS := (bp_RAS v)[?i := r']\<rparr>"
  have e': "fixed_entry e e'" "predTaken e' = predTaken e" "wasIndirect e' = wasIndirect e" "ph_pc e' = ph_pc e" "seqNum e' = seqNum e"
    by (simp_all add: e'_def fixed_entry_def)
  have r': "ras_ok r'" "ras_numEntries r' = ras_numEntries ?r" using r by (simp_all add: r'_def ras_ok_pop)
  have head: "(if wasReturn e \<and> \<not> usedRAS e then do {
          rs \<leftarrow> vec_mod RAS_pop (bp_RAS v) ?i; Some (e\<lparr>usedRAS := True\<rparr>, v\<lparr>bp_RAS := rs\<rparr>) } else Some (e, v)) = Some (e', w)"
    using i by (auto simp: pop_return_def e'_def w_def r'_def fault_simps)
  show ?thesis
  proof (cases "wasIndirect e")
    case True
    obtain ip' where ip': "recordTarget (instAddr isa) rnd (iPred v) (seqNum e) ghr tg t = Some ip'" "ip_ok ip'"
      "threadInfo ip' = (threadInfo (iPred v))[?i := ?ti\<lparr>pathHist := butlast (pathHist ?ti) @
        [(last (pathHist ?ti))\<lparr>targetAddr := instAddr isa tg\<rparr>]\<rparr>]"
      using recordTarget_ok [OF ip ne [OF True]] by blast
    have seq: "map he_seqNum (butlast (pathHist ?ti) @ [(last (pathHist ?ti))\<lparr>targetAddr := instAddr isa tg\<rparr>]) =
        map he_seqNum (pathHist ?ti)"
      using ne [OF True] by (rule map_replace_last) simp
    let ?st = "(stats v)\<lparr>st_indirectMispredicted := st_indirectMispredicted (stats v) + 1\<rparr>"
    have "fixup_taken isa rnd v e ghr tg t =
        Some (e', v\<lparr>bp_RAS := (bp_RAS v)[?i := r'], iPred := ip', bp_BTB := bp_BTB v, stats := ?st\<rparr>)"
      unfolding fixup_taken_def head using True e' ip'(1) by (simp add: w_def)
    then show ?thesis using True e'(1,2) r' ip'(2,3) b(1) seq
      by (intro exI [of _ e'] exI [of _ r'] exI [of _ ip'] exI [of _ "bp_BTB v"] exI [of _ ?st]
          exI [of _ "?ti\<lparr>pathHist := butlast (pathHist ?ti) @ [(last (pathHist ?ti))\<lparr>targetAddr := instAddr isa tg\<rparr>]\<rparr>"])
        simp
  next
    case False
    obtain b' where "BTB_update (bp_BTB v) (ph_pc e) tg t = Some b'" "btb_ok b'" using tb.upd_ok [OF b] by blast
    moreover from this have "fixup_taken isa rnd v e ghr tg t =
        Some (e', v\<lparr>bp_RAS := (bp_RAS v)[?i := r'], iPred := iPred v, bp_BTB := b', stats := stats v\<rparr>)"
      unfolding fixup_taken_def head using False e' by (simp add: w_def)
    moreover have "threadInfo (iPred v) = (threadInfo (iPred v))[?i := ?ti]" by simp
    ultimately show ?thesis using e' r' ip(1) by blast
  qed
qed

text \<open>After the squash the mispredicted branch is in front.\<close>

lemma squash_front:
  assumes "hist_sorted ph" and "filter (\<lambda>e. seqNum e \<le> sn) ph = e # es"
    and "list_ex (\<lambda>e. seqNum e = sn) ph \<or> list_all (\<lambda>e. sn < seqNum e) ph"
  shows "seqNum e = sn" and "es = filter (\<lambda>e. seqNum e < sn) ph" and "\<forall>x \<in> set ph. seqNum x = sn \<longrightarrow> x = e"
proof -
  have srt: "hist_sorted (e # es)"
    using assms(1) unfolding hist_sorted_def assms(2) [symmetric] by (rule sorted_wrt_filter)
  have e: "e \<in> set ph" "seqNum e \<le> sn" and in_ph: "set (e # es) = {x \<in> set ph. seqNum x \<le> sn}"
    using arg_cong [OF assms(2), of set] by auto
  then obtain x where x: "x \<in> set ph" "seqNum x = sn" using assms(3) by (auto simp: list_ex_iff list_all_iff)
  have at_sn: "y = e" if "y \<in> set ph" "seqNum y = sn" for y
  proof (rule ccontr)
    assume "y \<noteq> e"
    moreover have "y \<in> set (e # es)" using that in_ph by auto
    ultimately have "seqNum y < seqNum e" using srt by (auto simp: hist_sorted_def)
    then show False using that e by simp
  qed
  then show sn: "seqNum e = sn" using x by blast
  show "\<forall>x \<in> set ph. seqNum x = sn \<longrightarrow> x = e" using at_sn by blast
  have "filter (\<lambda>e. seqNum e < sn) ph = filter (\<lambda>e. seqNum e < sn) (filter (\<lambda>e. seqNum e \<le> sn) ph)"
    by (auto intro!: filter_cong)
  also have "\<dots> = es" unfolding assms(2) using srt sn by (auto simp: hist_sorted_def)
  finally show "es = filter (\<lambda>e. seqNum e < sn) ph" ..
qed

lemma fixup_unit_ok:
  assumes ok: "unit_ok iv cfg th hok u" and t: "tid_index t < unat (bp_numThreads u)"
    and ph: "predHist u ! tid_index t = e # es" and s: "iv s" "cfg s = cfg (dir u)"
    and x: "bp_RAS x = bp_RAS u" "iPred x = iPred u" "bp_BTB x = B" "predHist x = predHist u" "dir x = s"
      "bp_numThreads x = bp_numThreads u"
    and e1: "e1 = e\<lparr>predTaken := taken\<rparr>" and B: "bp_BTB u = B"
  shows "\<exists>e' y. (if taken then fixup_taken isa rnd x e1 g tg t else fixup_not_taken x e1 t) = Some (e', y) \<and>
    fixed_entry e e' \<and> predTaken e' = taken \<and> predHist y = predHist u \<and> dir y = s \<and>
    unit_ok iv cfg th hok (y\<lparr>predHist := (predHist u)[tid_index t := e' # es]\<rparr>) \<and>
    (taken \<and> \<not> wasIndirect e \<longrightarrow> BTB_update B (ph_pc e) tg t = Some (bp_BTB y))"
proof -
  note T = unit_thread [OF ok t]
  let ?i = "tid_index t" let ?ti = "threadInfo (iPred u) ! ?i"
  have T1: "thread_ok (hok (cfg (dir u))) (bp_RAS u ! ?i) (e # es) (pathHist ?ti)" using T(1) ph by simp
  then have r: "ras_ok (bp_RAS x ! ?i)" "RASIndex e1 < ras_numEntries (bp_RAS x ! ?i)" and i: "?i < length (bp_RAS x)"
    using T(2) by (simp_all add: thread_ok_def entry_ok_def x e1)
  have fe: "fixed_entry e1 e' = fixed_entry e e'" for e' by (simp add: fixed_entry_def e1)
  have ins: "unit_ok iv cfg th hok (y\<lparr>predHist := (predHist u)[?i := e' # es]\<rparr>)"
    if "dir y = s" "btb_ok (bp_BTB y)" "ip_ok (iPred y)" "bp_numThreads y = bp_numThreads u"
      "bp_RAS y = (bp_RAS u)[?i := r']" "threadInfo (iPred y) = (threadInfo (iPred u))[?i := ti']"
      "ras_ok r'" "ras_numEntries r' = ras_numEntries (bp_RAS u ! ?i)"
      "map he_seqNum (pathHist ti') = map he_seqNum (pathHist ?ti)" "fixed_entry e e'" for y e' r' ti'
    using that s thread_ok_head [OF T1, of r' "pathHist ti'" e']
    by (intro unit_okI [OF ok t, of _ r' "e' # es" ti']) simp_all
  show ?thesis
  proof (cases taken)
    case False
    obtain e' r' where f: "fixup_not_taken x e1 t = Some (e', x\<lparr>bp_RAS := (bp_RAS x)[?i := r']\<rparr>)" "fixed_entry e1 e'"
      "predTaken e' = predTaken e1" "ras_ok r'" "ras_numEntries r' = ras_numEntries (bp_RAS x ! ?i)"
      using fixup_not_taken_ok [OF r(1) i r(2)] by blast
    have "unit_ok iv cfg th hok ((x\<lparr>bp_RAS := (bp_RAS x)[?i := r']\<rparr>)\<lparr>predHist := (predHist u)[?i := e' # es]\<rparr>)"
      using ok f by (intro ins [of _ r' ?ti]) (simp_all add: x unit_ok_def fe B [symmetric])
    moreover have "fixed_entry e e'" "predTaken e' = taken" using f(2,3) by (simp_all add: fe, simp add: e1)
    ultimately show ?thesis using False f(1) by (auto simp: x)
  next
    case True
    have "pathHist ?ti \<noteq> []" if "wasIndirect e" using T1 that by (auto simp: thread_ok_def path_ok_def)
    then obtain e' r' ip' b' st ti' where f: "fixup_taken isa rnd x e1 g tg t =
        Some (e', x\<lparr>bp_RAS := (bp_RAS x)[?i := r'], iPred := ip', bp_BTB := b', stats := st\<rparr>)" "fixed_entry e1 e'"
      "predTaken e' = predTaken e1" "ras_ok r'" "ras_numEntries r' = ras_numEntries (bp_RAS x ! ?i)"
      "ip_ok ip'" "threadInfo ip' = (threadInfo (iPred x))[?i := ti']"
      "map he_seqNum (pathHist ti') = map he_seqNum (pathHist (threadInfo (iPred x) ! ?i))" "btb_ok b'"
      "\<not> wasIndirect e1 \<longrightarrow> BTB_update (bp_BTB x) (ph_pc e1) tg t = Some b'"
      using fixup_taken_ok [OF r(1) i, of e1 isa rnd g tg] ok unit_tid [OF t] T(4)
      by (simp add: x unit_ok_def e1 B) blast
    have "unit_ok iv cfg th hok ((x\<lparr>bp_RAS := (bp_RAS x)[?i := r'], iPred := ip', bp_BTB := b', stats := st\<rparr>)
        \<lparr>predHist := (predHist u)[?i := e' # es]\<rparr>)"
      using f by (intro ins [of _ r' ti']) (simp_all add: x fe)
    moreover have "fixed_entry e e'" "predTaken e' = taken" "\<not> wasIndirect e \<longrightarrow> BTB_update B (ph_pc e) tg t = Some b'"
      using f(2,3,10) by (simp_all add: fe x, simp_all add: e1)
    ultimately show ?thesis using True f(1) by (auto simp: x)
  qed
qed

text \<open>
  The parameters under which a constructed unit is well formed. The constructors check none of
  these; the defaults of \<open>BranchPredictor.py\<close> satisfy them.
\<close>

definition params_ok :: "BPParams \<Rightarrow> bool" where
  "params_ok p \<longleftrightarrow> p_numThreads p \<le> p_BTBEntries p \<and> unat (p_instShiftAmt p) < 32 \<and> p_RASSize p \<noteq> 0 \<and>
     p_indirectWays p \<noteq> 0 \<and> p_indirectPathLength p \<noteq> 0 \<and> unat (p_indirectTagSize p) < 31"

context direction_predictor
begin

lemma predict_direction_effect:
  assumes "inv (dir u)" and "tid_index t < threads (cfg (dir u))"
  shows "\<exists>b h s st. predict_direction P u inst a t = Some (b, h, u\<lparr>dir := s, stats := st\<rparr>) \<and>
    inv s \<and> cfg s = cfg (dir u) \<and> hist_ok (cfg (dir u)) h \<and>
    (dp_uncondBranch P (dir u) t a = Some (h, s) \<or> dp_lookup P (dir u) t a = Some (b, h, s))"
proof (cases "isUncondCtrl inst")
  case True
  obtain h s where "dp_uncondBranch P (dir u) t a = Some (h, s)" "inv s" "cfg s = cfg (dir u)" "hist_ok (cfg (dir u)) h"
    using uncond_ok [OF assms] by blast
  with True show ?thesis
    by (intro exI [of _ True] exI [of _ h] exI [of _ s] exI [of _ "stats u"]) (simp add: predict_direction_def)
next
  case False
  obtain b h s where "dp_lookup P (dir u) t a = Some (b, h, s)" "inv s" "cfg s = cfg (dir u)" "hist_ok (cfg (dir u)) h"
    using lookup_ok [OF assms] by blast
  with False show ?thesis
    by (intro exI [of _ b] exI [of _ h] exI [of _ s]) (auto simp: predict_direction_def)
qed

lemma predict_btb_effect:
  assumes "inv (dir u)" and "tid_index t < threads (cfg (dir u))" and "hist_ok (cfg (dir u)) (bpHistory e)"
    and "btb_ok (bp_BTB u)" and "0 \<le> sint t" and "tid_index t < length (bp_RAS u)"
  shows "\<exists>b tg e' u'. predict_btb P isa u e inst pc t = Some (b, tg, e', u') \<and>
    same_frame u u' \<and> iPred u' = iPred u \<and>
    (dir u' = dir u \<or> dp_btbUpdate P (dir u) t (instAddr isa pc) (bpHistory e) = Some (dir u')) \<and>
    keep_or_pop (isCall inst) u e (tid_index t) u' e'"
proof -
  obtain s where "dp_btbUpdate P (dir u) t (instAddr isa pc) (bpHistory e) = Some s"
    using btbUpdate_ok [OF assms(1-3)] by blast
  then show ?thesis using assms(4-6)
    by (auto simp: predict_btb_def BTB_valid_eq BTB_lookup_eq pop_call_def fault_simps Let_def
        keep_or_pop_def same_frame_def)
qed

lemma predict_indirect_effect:
  assumes "inv (dir u)" and "tid_index t < threads (cfg (dir u))" and "hist_ok (cfg (dir u)) (bpHistory e)"
    and "ip_ok (iPred u)" and "tid_index t < length (threadInfo (iPred u))" and "tid_index t < length (bp_RAS u)"
    and "seqNum e = sn"
  shows "\<exists>b tg e' u'. predict_indirect P isa u e inst sn pc t = Some (b, tg, e', u') \<and>
    same_frame u u' \<and> dir u' = dir u \<and> ip_effect (iPred u) (iPred u') (tid_index t) e' \<and>
    keep_or_pop (isCall inst) u (e\<lparr>wasIndirect := True\<rparr>) (tid_index t) u' e'"
proof -
  obtain g where g: "dp_getGHR P (dir u) t (bpHistory e) = Some g" using getGHR_ok [OF assms(1-3)] by blast
  obtain found where f: "ip_lookup (iPred u) (instAddr isa pc) g t = Some found"
    using ip_lookup_ok [OF assms(4,5)] by blast
  let ?i = "tid_index t" and ?e = "e\<lparr>wasIndirect := True\<rparr>"
  have eff: "\<exists>ip'. recordIndirect (iPred u) (instAddr isa pc) tg sn t = Some ip' \<and> ip_effect (iPred u) ip' ?i ?e" for tg
    using assms(5,7) by (intro recordIndirect_effect) simp_all
  have pop: "ip_effect ip ip' i (?e\<lparr>pushedRAS := b\<rparr>) = ip_effect ip ip' i ?e" for ip ip' i b
    by (simp add: ip_effect_def)
  show ?thesis
  proof (cases found)
    case (Some tg)
    obtain ip' where "recordIndirect (iPred u) (instAddr isa pc) (instAddr isa tg) sn t = Some ip'"
      "ip_effect (iPred u) ip' ?i ?e" using eff by blast
    then show ?thesis
      by (intro exI [of _ True]) (simp add: predict_indirect_def g f Some Let_def keep_or_pop_def same_frame_def)
  next
    case None
    let ?tg = "advancePC inst pc"
    obtain ip' where ip': "recordIndirect (iPred u) (instAddr isa pc) (instAddr isa ?tg) sn t = Some ip'"
      "ip_effect (iPred u) ip' ?i ?e" using eff by blast
    show ?thesis
    proof (cases "isCall inst \<and> \<not> isUncondCtrl inst")
      case True
      then show ?thesis using ip' assms(6)
        by (intro exI [of _ False]) (simp add: predict_indirect_def g f None Let_def keep_or_pop_def same_frame_def pop_call_def fault_simps pop)
    next
      case False
      then show ?thesis using ip'
        by (intro exI [of _ False]) (cases "isCall inst"; simp add: predict_indirect_def g f None Let_def keep_or_pop_def same_frame_def)
    qed
  qed
qed

lemma predict_taken_push:
  assumes len: "tid_index t < length (bp_RAS u)" and r: "ras_ok (bp_RAS u ! tid_index t)" and e: "fresh_entry e" and "\<not> isReturn inst"
  obtains u1 r1 e1 where
    "dir u1 = dir u" "bp_BTB u1 = bp_BTB u" "iPred u1 = iPred u" "useIndirect u1 = useIndirect u"
    "bp_RAS u1 = (bp_RAS u)[tid_index t := r1]" "\<And>w. same_frame u1 w = same_frame u w"
    "bpHistory e1 = bpHistory e" "seqNum e1 = seqNum e" "wasIndirect e1 = wasIndirect e"
    "e1 = e\<lparr>pushedRAS := isCall inst, wasCall := isCall inst\<rparr>"
    "isCall inst \<Longrightarrow> RAS_push (bp_RAS u ! tid_index t) pc = Some r1" "\<not> isCall inst \<Longrightarrow> r1 = bp_RAS u ! tid_index t"
    "predict_target P isa u True e inst sn pc t = (if isDirectCtrl inst \<or> \<not> useIndirect u
        then predict_btb P isa u1 e1 inst pc t else predict_indirect P isa u1 e1 inst sn pc t)"
proof -
  define v where "v = u\<lparr>stats := (stats u)\<lparr>st_BTBLookups := st_BTBLookups (stats u) + 1\<rparr>\<rparr>"
  have v: "bp_RAS v = bp_RAS u" "dir v = dir u" "bp_BTB v = bp_BTB u" "iPred v = iPred u" "useIndirect v = useIndirect u"
    "\<And>w. same_frame v w = same_frame u w" by (simp_all add: v_def same_frame_def)
  obtain r1 where p: "push_call v e inst pc t = Some (e\<lparr>pushedRAS := isCall inst, wasCall := isCall inst\<rparr>,
      v\<lparr>bp_RAS := (bp_RAS v)[tid_index t := r1]\<rparr>)"
    and r1: "isCall inst \<Longrightarrow> RAS_push (bp_RAS v ! tid_index t) pc = Some r1"
      "\<not> isCall inst \<Longrightarrow> r1 = bp_RAS v ! tid_index t"
    using push_call_effect [of v t e inst pc] r len e v by metis
  define u1 where "u1 = v\<lparr>bp_RAS := (bp_RAS v)[tid_index t := r1]\<rparr>"
  define e1 where "e1 = e\<lparr>pushedRAS := isCall inst, wasCall := isCall inst\<rparr>"
  have u1: "dir u1 = dir u" "bp_BTB u1 = bp_BTB u" "iPred u1 = iPred u" "useIndirect u1 = useIndirect u"
    "bp_RAS u1 = (bp_RAS u)[tid_index t := r1]" "\<And>w. same_frame u1 w = same_frame u w"
    "bpHistory e1 = bpHistory e" "seqNum e1 = seqNum e" "wasIndirect e1 = wasIndirect e"
    by (simp_all add: u1_def e1_def v_def same_frame_def)
  have push: "isCall inst \<Longrightarrow> RAS_push (bp_RAS u ! tid_index t) pc = Some r1"
      "\<not> isCall inst \<Longrightarrow> r1 = bp_RAS u ! tid_index t"
    using r1 v(1) by simp_all
  have pt: "predict_target P isa u True e inst sn pc t = (if isDirectCtrl inst \<or> \<not> useIndirect u
      then predict_btb P isa u1 e1 inst pc t else predict_indirect P isa u1 e1 inst sn pc t)"
    unfolding predict_target_def Let_def v_def [symmetric] using assms(4) p u1(4) by (simp flip: u1_def e1_def)
  show ?thesis using that [OF u1(1-6) u1(7-9) e1_def push pt] .
qed

lemma predict_taken_effect:
  assumes "inv (dir u)" and "tid_index t < threads (cfg (dir u))" and "hist_ok (cfg (dir u)) (bpHistory e)"
    and "btb_ok (bp_BTB u)" and "0 \<le> sint t" and "ip_ok (iPred u)"
    and "tid_index t < length (threadInfo (iPred u))" and len: "tid_index t < length (bp_RAS u)"
    and r: "ras_ok (bp_RAS u ! tid_index t)" and e: "fresh_entry e" and "seqNum e = sn" and "\<not> isReturn inst"
  shows "\<exists>b tg e' u'. predict_target P isa u True e inst sn pc t = Some (b, tg, e', u') \<and>
    target_effect P t (instAddr isa pc) u e u' e'"
proof -
  obtain u1 r1 e1 where u1: "dir u1 = dir u" "bp_BTB u1 = bp_BTB u" "iPred u1 = iPred u" "useIndirect u1 = useIndirect u"
      "bp_RAS u1 = (bp_RAS u)[tid_index t := r1]" "\<And>w. same_frame u1 w = same_frame u w"
      "bpHistory e1 = bpHistory e" "seqNum e1 = seqNum e" "wasIndirect e1 = wasIndirect e"
    and e1_def: "e1 = e\<lparr>pushedRAS := isCall inst, wasCall := isCall inst\<rparr>"
    and push: "isCall inst \<Longrightarrow> RAS_push (bp_RAS u ! tid_index t) pc = Some r1" "\<not> isCall inst \<Longrightarrow> r1 = bp_RAS u ! tid_index t"
    and pt: "predict_target P isa u True e inst sn pc t = (if isDirectCtrl inst \<or> \<not> useIndirect u
        then predict_btb P isa u1 e1 inst pc t else predict_indirect P isa u1 e1 inst sn pc t)"
    by (rule predict_taken_push [OF len r e assms(12), where isa = isa and sn = sn and pc = pc]) blast
  show ?thesis
  proof (cases "isDirectCtrl inst \<or> \<not> useIndirect u")
    case True
    obtain b tg e' u' where q: "predict_btb P isa u1 e1 inst pc t = Some (b, tg, e', u')" "same_frame u1 u'"
      "iPred u' = iPred u1" "dir u' = dir u1 \<or> dp_btbUpdate P (dir u1) t (instAddr isa pc) (bpHistory e1) = Some (dir u')"
      "keep_or_pop (isCall inst) u1 e1 (tid_index t) u' e'"
      using predict_btb_effect [of u1 t e1 isa inst pc] assms(1-5) len u1 by auto
    have "\<not> wasIndirect e'" using q(5) e u1(9) by (auto simp: keep_or_pop_def fresh_entry_def)
    then have ip: "ip_effect (iPred u) (iPred u') (tid_index t) e'" using q(3) u1(3) by (simp add: ip_effect_refl)
    have e1: "e1 = e\<lparr>pushedRAS := isCall inst, wasCall := isCall inst, wasIndirect := False\<rparr>"
      using e by (simp add: e1_def fresh_entry_def)
    have "dir u' = dir u \<or> dp_btbUpdate P (dir u) t (instAddr isa pc) (bpHistory e) = Some (dir u')"
      using q(4) unfolding u1 .
    then have "target_effect P t (instAddr isa pc) u e u' e'"
      using target_effect_compose [OF q(2) [unfolded u1] e len _ u1(5) e1 push q(5) ip] by blast
    with q(1) pt True show ?thesis by (intro exI [of _ b] exI [of _ tg] exI [of _ e'] exI [of _ u']) simp
  next
    case False
    obtain b tg e' u' where q: "predict_indirect P isa u1 e1 inst sn pc t = Some (b, tg, e', u')" "same_frame u1 u'"
      "dir u' = dir u1" "ip_effect (iPred u1) (iPred u') (tid_index t) e'"
      "keep_or_pop (isCall inst) u1 (e1\<lparr>wasIndirect := True\<rparr>) (tid_index t) u' e'"
      using predict_indirect_effect [of u1 t e1 sn isa inst pc] assms len u1 by auto
    have e1: "e1\<lparr>wasIndirect := True\<rparr> = e\<lparr>pushedRAS := isCall inst, wasCall := isCall inst, wasIndirect := True\<rparr>"
      by (simp add: e1_def)
    have "dir u' = dir u" using q(3) u1(1) by simp
    then have "target_effect P t (instAddr isa pc) u e u' e'"
      using target_effect_compose [OF q(2) [unfolded u1] e len _ u1(5) e1 push q(5) q(4) [unfolded u1]] by blast
    with q(1) pt False show ?thesis by (intro exI [of _ b] exI [of _ tg] exI [of _ e'] exI [of _ u']) simp
  qed
qed

lemma predict_target_effect:
  assumes "inv (dir u)" and "tid_index t < threads (cfg (dir u))" and "hist_ok (cfg (dir u)) (bpHistory e)"
    and "btb_ok (bp_BTB u)" and "0 \<le> sint t" and "ip_ok (iPred u)"
    and "tid_index t < length (threadInfo (iPred u))" and len: "tid_index t < length (bp_RAS u)"
    and r: "ras_ok (bp_RAS u ! tid_index t)" and e: "fresh_entry e" and "seqNum e = sn"
  shows "\<exists>b tg e' u'. predict_target P isa u b0 e inst sn pc t = Some (b, tg, e', u') \<and>
    target_effect P t (instAddr isa pc) u e u' e'"
proof -
  consider (nt) "\<not> b0" | (ret) "b0" "isReturn inst" | (other) "b0" "\<not> isReturn inst" by blast
  then show ?thesis
  proof cases
    case nt
    have "e\<lparr>wasReturn := False\<rparr> = e" using e by (simp add: fresh_entry_def)
    then have "target_effect P t (instAddr isa pc) u e u (if isReturn inst then e\<lparr>wasReturn := True\<rparr> else e)"
      using target_effect_not_taken [OF e, of P t "instAddr isa pc" u] by metis
    then show ?thesis unfolding predict_target_def using nt by simp blast
  next
    case ret
    then show ?thesis using predict_return_effect [OF r len e, of isa pc P "instAddr isa pc"]
      unfolding predict_target_def by simp blast
  next
    case other
    then show ?thesis using predict_taken_effect [OF assms] by simp
  qed
qed

lemma predict_effect:
  assumes ok: "unit_ok inv cfg threads hist_ok u" and t: "tid_index t < unat (bp_numThreads u)"
  obtains b tg u' s e r' where "predict P isa u inst sn pc t = Some (b, tg, u')"
    and "inv (dir u')" and "cfg (dir u') = cfg (dir u)" and "bp_numThreads u' = bp_numThreads u"
    and "bp_BTB u' = bp_BTB u" and "bp_RAS u' = (bp_RAS u)[tid_index t := r']"
    and "ras_effect (bp_RAS u ! tid_index t) r' e" and "ip_effect (iPred u) (iPred u') (tid_index t) e"
    and "predHist u' = (predHist u)[tid_index t := e # predHist u ! tid_index t]"
    and "seqNum e = sn" and "ph_pc e = instAddr isa pc" and "hist_ok (cfg (dir u)) (bpHistory e)"
    and "dp_uncondBranch P (dir u) t (instAddr isa pc) = Some (bpHistory e, s) \<or>
      (\<exists>b. dp_lookup P (dir u) t (instAddr isa pc) = Some (b, bpHistory e, s))"
    and "dir u' = s \<or> dp_btbUpdate P s t (instAddr isa pc) (bpHistory e) = Some (dir u')"
proof -
  note th = unit_thread [OF ok t]
  let ?a = "instAddr isa pc"
  define v where "v = u\<lparr>stats := (stats u)\<lparr>st_lookups := st_lookups (stats u) + 1\<rparr>\<rparr>"
  have dv: "dir v = dir u" by (simp add: v_def)
  have iv: "inv (dir v)" "tid_index t < threads (cfg (dir v))" using ok th(5) by (simp_all add: dv unit_ok_def)
  obtain b h s st where d: "predict_direction P v inst ?a t = Some (b, h, v\<lparr>dir := s, stats := st\<rparr>)"
    and s: "inv s" "cfg s = cfg (dir v)" "hist_ok (cfg (dir v)) h"
    and sp: "dp_uncondBranch P (dir v) t ?a = Some (h, s) \<or> dp_lookup P (dir v) t ?a = Some (b, h, s)"
    using predict_direction_effect [OF iv, of inst ?a] by blast
  define e0 where "e0 = PredictorHistory_new (PCState_zero isa) sn ?a b h t"
  define w where "w = v\<lparr>dir := s, stats := st\<rparr>"
  have w: "dir w = s" "bp_BTB w = bp_BTB u" "iPred w = iPred u" "bp_RAS w = bp_RAS u" "predHist w = predHist u"
    "bp_numThreads w = bp_numThreads u" by (simp_all add: w_def v_def)
  have e0: "fresh_entry e0" "seqNum e0 = sn" "bpHistory e0 = h" "ph_pc e0 = ?a"
    by (simp_all add: e0_def PredictorHistory_new_def fresh_entry_def)
  obtain b' tg e u1 where pt: "predict_target P isa w b e0 inst sn pc t = Some (b', tg, e, u1)"
    and eff: "target_effect P t ?a w e0 u1 e"
    using predict_target_effect [of w t e0 sn isa b inst pc] ok th s e0 unit_tid [OF t]
    by (auto simp: w dv unit_ok_def thread_ok_def)
  define u' where "u' = u1\<lparr>predHist := (predHist u)[tid_index t := e # predHist u ! tid_index t]\<rparr>"
  have u1: "bp_numThreads u1 = bp_numThreads u" "bp_BTB u1 = bp_BTB u" "predHist u1 = predHist u"
    and e: "seqNum e = sn" "bpHistory e = h" "ph_pc e = ?a"
    and dir: "dir u1 = s \<or> dp_btbUpdate P s t ?a h = Some (dir u1)"
    and ip: "ip_effect (iPred u) (iPred u1) (tid_index t) e"
    using eff by (simp_all add: target_effect_def same_frame_def same_entry_def w e0)
  obtain r' where r': "bp_RAS u1 = (bp_RAS u)[tid_index t := r']" "ras_effect (bp_RAS u ! tid_index t) r' e"
    using eff by (auto simp: target_effect_def w)
  have "predict P isa u inst sn pc t = Some (b', tg, u')"
    unfolding predict_def v_def [symmetric] Let_def
    using d pt th(3) u1(3) by (simp add: u'_def fault_simps flip: w_def e0_def)
  moreover have "inv (dir u1) \<and> cfg (dir u1) = cfg (dir u)"
    using dir btbUpdate_ok [OF s(1), of t h ?a] s iv(2) by (auto simp: dv)
  ultimately show thesis
    using u1 e dir ip r' s sp by (intro that [of b' tg u' r' e s]) (auto simp: u'_def dv)
qed

lemma predict_ok:
  assumes ok: "unit_ok inv cfg threads hist_ok u" and t: "tid_index t < unat (bp_numThreads u)"
    and c: "call_ok t u (Predict inst sn pc)"
  shows "\<exists>b tg u'. predict P isa u inst sn pc t = Some (b, tg, u') \<and> unit_ok inv cfg threads hist_ok u'"
proof -
  note th = unit_thread [OF ok t]
  let ?i = "tid_index t"
  show ?thesis
  proof (rule predict_effect [OF ok t, of isa inst sn pc])
    fix b tg u' s e r'
    assume p: "predict P isa u inst sn pc t = Some (b, tg, u')" and d: "inv (dir u')" "cfg (dir u') = cfg (dir u)"
      and f: "bp_numThreads u' = bp_numThreads u" "bp_BTB u' = bp_BTB u" "bp_RAS u' = (bp_RAS u)[?i := r']"
      and r: "ras_effect (bp_RAS u ! ?i) r' e" and ip: "ip_effect (iPred u) (iPred u') ?i e"
      and ph: "predHist u' = (predHist u)[?i := e # predHist u ! ?i]" and e: "seqNum e = sn" "hist_ok (cfg (dir u)) (bpHistory e)"
    let ?ti = "threadInfo (iPred u) ! ?i"
    obtain hs where hs: "iPred u' = (iPred u)\<lparr>threadInfo := (threadInfo (iPred u))[?i := ?ti\<lparr>pathHist := pathHist ?ti @ hs\<rparr>]\<rparr>"
      "map he_seqNum hs = (if wasIndirect e then [seqNum e] else [])" using ip by (auto simp: ip_effect_def)
    have "thread_ok (hist_ok (cfg (dir u))) r' (e # predHist u ! ?i) (pathHist ?ti @ hs)"
      using c e by (intro thread_ok_predict [OF th(1) r _ _ _ hs(2)]) simp_all
    then have "unit_ok inv cfg threads hist_ok u'"
      using ok d f ph hs(1)
      by (intro unit_okI [OF ok t, of _ r' "e # predHist u ! ?i" "?ti\<lparr>pathHist := pathHist ?ti @ hs\<rparr>"])
        (simp_all add: unit_ok_def)
    with p show ?thesis by blast
  qed
qed

lemma commit_loop_ok:
  assumes "inv s" and "tid_index t < threads (cfg s)" and "list_all (\<lambda>e. hist_ok (cfg s) (bpHistory e)) es"
  shows "\<exists>s'. commit_loop P sn t s es = Some (s', dropWhile (\<lambda>e. seqNum e \<le> sn) es) \<and> inv s' \<and> cfg s' = cfg s"
  using assms
proof (induction es arbitrary: s)
  case (Cons e es)
  obtain s1 where "dp_update P s t (ph_pc e) (predTaken e) (bpHistory e) False = Some s1" "inv s1" "cfg s1 = cfg s"
    using update_ok [OF Cons.prems(1,2), of "bpHistory e"] Cons.prems(3) by fastforce
  with Cons.prems Cons.IH [of s1] show ?case by auto
qed simp

lemma squash_loop_ok:
  assumes "inv s" and "tid_index t < threads (cfg s)" and "ras_ok r"
    and "list_all (entry_ok (hist_ok (cfg s)) (ras_numEntries r)) es"
  shows "\<exists>s' r'. squash_loop P sn t s r es = Some (s', r', dropWhile (\<lambda>e. sn < seqNum e) es) \<and>
    inv s' \<and> cfg s' = cfg s \<and> ras_ok r' \<and> ras_numEntries r' = ras_numEntries r"
  using assms
proof (induction es arbitrary: s r)
  case (Cons e es)
  obtain r1 where "repair_RAS r e = Some r1" "ras_ok r1" "ras_numEntries r1 = ras_numEntries r"
    using repair_RAS_ok [OF Cons.prems(3)] Cons.prems(4) by auto
  moreover obtain s1 where "dp_squash P s t (bpHistory e) = Some s1" "inv s1" "cfg s1 = cfg s"
    using squash_ok [OF Cons.prems(1,2), of "bpHistory e"] Cons.prems(4) by (auto simp: entry_ok_def)
  ultimately show ?case using Cons.prems Cons.IH [of s1 r1] by auto
qed simp

lemma bp_update_ok:
  assumes ok: "unit_ok inv cfg threads hist_ok u" and t: "tid_index t < unat (bp_numThreads u)"
  shows "\<exists>u'. bp_update P u sn t = Some u' \<and> unit_ok inv cfg threads hist_ok u' \<and>
    predHist u' = (predHist u)[tid_index t := filter (\<lambda>e. sn < seqNum e) (predHist u ! tid_index t)] \<and>
    bp_RAS u' = bp_RAS u \<and> bp_BTB u' = bp_BTB u \<and> bp_numThreads u' = bp_numThreads u \<and> stats u' = stats u \<and>
    ip_commit (iPred u) sn t = Some (iPred u') \<and>
    commit_all (dp_update P) t (rev (filter (\<lambda>e. seqNum e \<le> sn) (predHist u ! tid_index t))) (dir u) = Some (dir u')"
proof -
  note th = unit_thread [OF ok t]
  let ?i = "tid_index t" let ?ph = "predHist u ! ?i" and ?ti = "threadInfo (iPred u) ! ?i"
  have srt: "hist_sorted ?ph" using th(1) by (simp add: thread_ok_def)
  obtain s where s: "commit_loop P sn t (dir u) (rev ?ph) = Some (s, dropWhile (\<lambda>e. seqNum e \<le> sn) (rev ?ph))"
    "inv s" "cfg s = cfg (dir u)"
    using commit_loop_ok [of "dir u" t "rev ?ph" sn] ok th(1,5)
    by (auto simp: unit_ok_def thread_ok_def entry_ok_def list_all_iff)
  let ?ti' = "commit_info (pathLength (iPred u)) sn ?ti"
  let ?u = "u\<lparr>iPred := (iPred u)\<lparr>threadInfo := (threadInfo (iPred u))[?i := ?ti']\<rparr>, dir := s,
      predHist := (predHist u)[?i := filter (\<lambda>e. sn < seqNum e) ?ph]\<rparr>"
  have eq: "bp_update P u sn t = Some ?u"
    using th s(1) rev_dropWhile_commit [OF srt, of sn] by (simp add: bp_update_def ip_commit_def fault_simps)
  have "unit_ok inv cfg threads hist_ok ?u"
    using ok s(2,3) thread_ok_commit [OF th(1), of sn "pathLength (iPred u)"]
    by (intro unit_okI [OF ok t, of _ "bp_RAS u ! ?i" "filter (\<lambda>e. sn < seqNum e) ?ph" ?ti'])
      (simp_all add: unit_ok_def)
  moreover have "commit_all (dp_update P) t (rev (filter (\<lambda>e. seqNum e \<le> sn) ?ph)) (dir u) = Some s"
    using commit_loop_all [OF s(1)] takeWhile_commit [OF srt, of sn] by simp
  ultimately show ?thesis using eq th(4) by (intro exI [of _ ?u]) (simp add: ip_commit_def fault_simps)
qed

lemma bp_squash_ok:
  assumes ok: "unit_ok inv cfg threads hist_ok u" and t: "tid_index t < unat (bp_numThreads u)"
  shows "\<exists>u' r'. bp_squash P u sn t = Some u' \<and> unit_ok inv cfg threads hist_ok u' \<and>
    predHist u' = (predHist u)[tid_index t := filter (\<lambda>e. seqNum e \<le> sn) (predHist u ! tid_index t)] \<and>
    bp_RAS u' = (bp_RAS u)[tid_index t := r'] \<and> bp_BTB u' = bp_BTB u \<and> bp_numThreads u' = bp_numThreads u \<and>
    cfg (dir u') = cfg (dir u) \<and>
    (\<exists>es. squash_loop P sn t (dir u) (bp_RAS u ! tid_index t) (predHist u ! tid_index t) = Some (dir u', r', es)) \<and>
    iPred u' = (iPred u)\<lparr>threadInfo := (threadInfo (iPred u))[tid_index t := (threadInfo (iPred u) ! tid_index t)
      \<lparr>pathHist := filter (\<lambda>h. he_seqNum h \<le> sn) (pathHist (threadInfo (iPred u) ! tid_index t))\<rparr>]\<rparr>"
proof -
  note th = unit_thread [OF ok t]
  let ?i = "tid_index t" let ?ph = "predHist u ! ?i" and ?ti = "threadInfo (iPred u) ! ?i"
  have srt: "hist_sorted ?ph" and srt': "sorted_wrt (\<lambda>x y. he_seqNum x < he_seqNum y) (pathHist ?ti)"
    using th(1) by (simp_all add: thread_ok_def path_ok_def)
  obtain s r' where s: "squash_loop P sn t (dir u) (bp_RAS u ! ?i) ?ph = Some (s, r', dropWhile (\<lambda>e. sn < seqNum e) ?ph)"
    "inv s" "cfg s = cfg (dir u)" "ras_ok r'" "ras_numEntries r' = ras_numEntries (bp_RAS u ! ?i)"
    using squash_loop_ok [of "dir u" t "bp_RAS u ! ?i" ?ph sn] ok th(1,5) by (auto simp: unit_ok_def thread_ok_def)
  let ?ti' = "?ti\<lparr>pathHist := filter (\<lambda>h. he_seqNum h \<le> sn) (pathHist ?ti)\<rparr>"
  let ?u = "u\<lparr>iPred := (iPred u)\<lparr>threadInfo := (threadInfo (iPred u))[?i := ?ti']\<rparr>, dir := s,
      bp_RAS := (bp_RAS u)[?i := r'], predHist := (predHist u)[?i := filter (\<lambda>e. seqNum e \<le> sn) ?ph]\<rparr>"
  have "squash_info sn ?ti = ?ti'" using squash_info_filter [OF srt', of sn] by (simp add: squash_info_def)
  then have eq: "bp_squash P u sn t = Some ?u"
    using th s(1) dropWhile_squash [OF srt, of sn] by (simp add: bp_squash_def ip_squash_def fault_simps)
  have "unit_ok inv cfg threads hist_ok ?u"
    using ok s(2,3) thread_ok_squash [OF th(1) s(4,5), of sn]
    by (intro unit_okI [OF ok t, of _ r' "filter (\<lambda>e. seqNum e \<le> sn) ?ph" ?ti']) (simp_all add: unit_ok_def)
  then show ?thesis using eq s(1,3) by (intro exI [of _ ?u] exI [of _ r']) simp
qed

lemma bp_mispredict_ok:
  assumes ok: "unit_ok inv cfg threads hist_ok u" and t: "tid_index t < unat (bp_numThreads u)"
    and c: "call_ok t u (Mispredict sn tg taken rnd)"
  shows "\<exists>u'. bp_mispredict P isa rnd u sn tg taken t = Some u' \<and> unit_ok inv cfg threads hist_ok u' \<and>
    (\<forall>e0 \<in> set (predHist u ! tid_index t). seqNum e0 = sn \<longrightarrow>
       (\<exists>e es. predHist u' ! tid_index t = e # es \<and> fixed_entry e0 e \<and> predTaken e = taken \<and>
          es = filter (\<lambda>e. seqNum e < sn) (predHist u ! tid_index t)) \<and>
       (taken \<and> \<not> wasIndirect e0 \<longrightarrow> BTB_update (bp_BTB u) (ph_pc e0) tg t = Some (bp_BTB u')) \<and>
       (\<exists>s r rest. squash_loop P sn t (dir u) (bp_RAS u ! tid_index t) (predHist u ! tid_index t) = Some (s, r, rest) \<and>
          inv s \<and> cfg s = cfg (dir u) \<and> dp_update P s t (ph_pc e0) taken (bpHistory e0) True = Some (dir u')))"
proof -
  let ?i = "tid_index t"
  define v where "v = u\<lparr>stats := (stats u)\<lparr>st_condIncorrect := st_condIncorrect (stats u) + 1\<rparr>\<rparr>"
  have v: "predHist v = predHist u" "bp_numThreads v = bp_numThreads u" "bp_BTB v = bp_BTB u"
    "unit_ok inv cfg threads hist_ok v" "dir v = dir u" "bp_RAS v = bp_RAS u" using ok by (simp_all add: v_def unit_ok_def)
  obtain w r' where w: "bp_squash P v sn t = Some w" "unit_ok inv cfg threads hist_ok w"
    "predHist w = (predHist u)[?i := filter (\<lambda>e. seqNum e \<le> sn) (predHist u ! ?i)]"
    "bp_BTB w = bp_BTB u" "bp_numThreads w = bp_numThreads u"
    and loop: "\<exists>r rest. squash_loop P sn t (dir u) (bp_RAS u ! ?i) (predHist u ! ?i) = Some (dir w, r, rest)" "cfg (dir w) = cfg (dir u)"
    using bp_squash_ok [OF v(4), of t sn] t by (auto simp: v)
  note th = unit_thread [OF ok t]
  have srt: "hist_sorted (predHist u ! ?i)" using th(1) by (simp add: thread_ok_def)
  have ph: "predHist w ! ?i = filter (\<lambda>e. seqNum e \<le> sn) (predHist u ! ?i)" using th(3) by (simp add: w(3))
  have tw: "?i < unat (bp_numThreads w)" using t w(5) by simp
  note thw = unit_thread [OF w(2) tw]
  show ?thesis
  proof (cases "predHist w ! ?i")
    case Nil
    then have "bp_mispredict P isa rnd u sn tg taken t = Some w"
      unfolding bp_mispredict_def Let_def v_def [symmetric] using w(1) thw(3) by (simp add: fault_simps)
    moreover have "\<forall>e0 \<in> set (predHist u ! ?i). seqNum e0 \<noteq> sn"
      using Nil unfolding ph by (auto simp: filter_empty_conv)
    ultimately show ?thesis using w(2) by auto
  next
    case (Cons e es)
    note front = squash_front [OF srt Cons [unfolded ph] c [unfolded call_ok.simps]]
    have T: "thread_ok (hist_ok (cfg (dir w))) (bp_RAS w ! ?i) (e # es) (pathHist (threadInfo (iPred w) ! ?i))"
      using thw(1) Cons by simp
    have d: "inv (dir w)" "?i < threads (cfg (dir w))" "hist_ok (cfg (dir w)) (bpHistory e)"
      using w(2) T thw(5) by (simp_all add: unit_ok_def thread_ok_def entry_ok_def)
    obtain g where g: "dp_getGHR P (dir w) t (bpHistory e) = Some g" using getGHR_ok [OF d] by blast
    obtain s where s: "dp_update P (dir w) t (ph_pc e) taken (bpHistory e) True = Some s" "inv s" "cfg s = cfg (dir w)"
      using update_ok [OF d] by blast
    define w1 where "w1 = (if usedRAS e then w\<lparr>stats := (stats w)\<lparr>st_RASIncorrect := st_RASIncorrect (stats w) + 1\<rparr>\<rparr> else w)"
    define x where "x = w1\<lparr>dir := s\<rparr>"
    define e1 where "e1 = e\<lparr>predTaken := taken\<rparr>"
    have w1: "dir w1 = dir w" by (simp add: w1_def)
    have x: "bp_RAS x = bp_RAS w" "iPred x = iPred w" "bp_BTB x = bp_BTB u" "predHist x = predHist w" "dir x = s"
      "bp_numThreads x = bp_numThreads w" by (simp_all add: x_def w1_def w(4))
    obtain e' y where fx: "(if taken then fixup_taken isa rnd x e1 g tg t else fixup_not_taken x e1 t) = Some (e', y)"
      and fe: "fixed_entry e e'" "predTaken e' = taken" and py: "predHist y = predHist w" "dir y = s"
      and uy: "unit_ok inv cfg threads hist_ok (y\<lparr>predHist := (predHist w)[?i := e' # es]\<rparr>)"
      and bt: "taken \<and> \<not> wasIndirect e \<longrightarrow> BTB_update (bp_BTB u) (ph_pc e) tg t = Some (bp_BTB y)"
      using fixup_unit_ok [OF w(2) tw Cons s(2,3) x e1_def, of isa rnd g tg] w(4) by metis
    have "bp_mispredict P isa rnd u sn tg taken t = Some (y\<lparr>predHist := (predHist w)[?i := e' # es]\<rparr>)"
      unfolding bp_mispredict_def Let_def v_def [symmetric]
      using w(1) thw(3) Cons front(1) g s(1) fx [unfolded e1_def] py(1)
      by (cases taken) (simp_all add: fault_simps w1 flip: w1_def x_def)
    moreover have "\<exists>s r rest. squash_loop P sn t (dir u) (bp_RAS u ! ?i) (predHist u ! ?i) = Some (s, r, rest) \<and>
        inv s \<and> cfg s = cfg (dir u) \<and> dp_update P s t (ph_pc e) taken (bpHistory e) True = Some (dir y)"
      using loop d(1) s(1) py(2) by blast
    ultimately show ?thesis using uy fe bt thw(3) front by (auto simp: fixed_entry_def)
  qed
qed

subsection \<open>Every run of the pipeline's calls\<close>

lemma bp_step_ok:
  assumes "unit_ok inv cfg threads hist_ok u" and "tid_index t < unat (bp_numThreads u)" and "call_ok t u c"
  shows "\<exists>u'. bp_step P isa t u c = Some u' \<and> unit_ok inv cfg threads hist_ok u'"
proof (cases c)
  case (Predict inst sn pc)
  then show ?thesis using predict_ok [OF assms(1,2), of inst sn pc isa] assms(3) by auto
next
  case (Commit sn)
  then show ?thesis using bp_update_ok [OF assms(1,2), of sn] by auto
next
  case (Squash sn)
  then show ?thesis using bp_squash_ok [OF assms(1,2), of sn] by auto
next
  case (Mispredict sn tg taken rnd)
  then show ?thesis using bp_mispredict_ok [OF assms(1,2), of sn tg taken rnd isa] assms(3) by auto
qed

lemma reach_unit_ok:
  assumes "bp_reach P isa u0 u" and "unit_ok inv cfg threads hist_ok u0"
  shows "unit_ok inv cfg threads hist_ok u"
  using assms
proof induction
  case (reach_step u t c u')
  then show ?case using bp_step_ok [of u t c isa] by auto
qed

lemma reach_no_fault:
  assumes "bp_reach P isa u0 u" and "unit_ok inv cfg threads hist_ok u0"
    and "tid_index t < unat (bp_numThreads u)" and "call_ok t u c"
  shows "\<exists>u'. bp_step P isa t u c = Some u'"
  using bp_step_ok [OF reach_unit_ok [OF assms(1,2)] assms(3,4)] by blast

lemma BPredUnit_new_ok:
  assumes new: "BPredUnit_new isa junk p s = Inr u" and p: "params_ok p"
    and s: "inv s" "unat (p_numThreads p) \<le> threads (cfg s)"
  shows "unit_ok inv cfg threads hist_ok u"
proof -
  obtain b ip where b: "DefaultBTB_new (PCState_zero isa) junk (p_BTBEntries p) (p_BTBTagSize p) (p_instShiftAmt p)
      (p_numThreads p) = Inr b"
    and ip: "IndirectPredictor_new (PCState_zero isa) (p_indirectHashGHR p) (p_indirectHashTargets p) (p_indirectSets p)
      (p_indirectWays p) (p_indirectTagSize p) (p_indirectPathLength p) (p_instShiftAmt p) (p_numThreads p) = Inr ip"
    and u: "dir u = s" "bp_numThreads u = p_numThreads p" "predHist u = replicate (unat (p_numThreads p)) []" "bp_BTB u = b"
      "bp_RAS u = replicate (unat (p_numThreads p)) (RAS_init (PCState_default isa) (PCState_set0 isa) (p_RASSize p))" "iPred u = ip"
    using new by (auto simp: BPredUnit_new_def ebind_eq_Inr)
  have "btb_ok b" using DefaultBTB_new_ok(1) [OF b] p by (simp add: params_ok_def)
  moreover have "ip_ok ip \<and> threadInfo ip = replicate (unat (p_numThreads p)) \<lparr>pathHist = [], headHistEntry = 0\<rparr>"
    using p by (intro IndirectPredictor_new_ok [OF ip]) (simp_all add: params_ok_def)
  moreover have "ras_ok (RAS_init (PCState_default isa) (PCState_set0 isa) (p_RASSize p))"
    using p by (intro ras_ok_init) (simp add: params_ok_def)
  ultimately show ?thesis using s by (simp add: unit_ok_def u thread_ok_def hist_sorted_def path_ok_def)
qed

end

end
