(* ===== verification/BPred_Undo.thy ===== *)
theory BPred_Undo
  imports BPred_Safety
begin

text \<open>
  What \<open>BPredUnit::squash\<close> undoes. For a derived class that keeps the contract
  \<open>speculative_predictor\<close>, a run of predictions followed by a squash to the sequence number
  before it leaves the speculative state of the derived class, the outstanding predictions and
  the path history as they were; the return address stack has its old top index and agrees with
  the old stack on all but as many of the deepest entries as there were calls.
\<close>

subsection \<open>Stacks that agree on the entries near the top\<close>

definition ras_agree :: "nat \<Rightarrow> 'pc ReturnAddrStack \<Rightarrow> 'pc ReturnAddrStack \<Rightarrow> bool" where
  "ras_agree m r r' \<longleftrightarrow> ras_ok r \<and> ras_ok r' \<and> ras_numEntries r = ras_numEntries r' \<and> tos r = tos r' \<and>
     take m (ras_list r) = take m (ras_list r')"

lemma ras_agree_refl: "ras_ok r \<Longrightarrow> ras_agree m r r"
  by (simp add: ras_agree_def)

lemma ras_agree_mono: "ras_agree m r r' \<Longrightarrow> n \<le> m \<Longrightarrow> ras_agree n r r'"
  unfolding ras_agree_def by (metis min.absorb1 take_take)

lemma ras_agree_sym: "ras_agree m r r' \<Longrightarrow> ras_agree m r' r"
  by (simp add: ras_agree_def)

lemma ras_agree_trans: "ras_agree m r r' \<Longrightarrow> ras_agree m r' r'' \<Longrightarrow> ras_agree m r r''"
  by (simp add: ras_agree_def)

lemma ras_agree_length: "ras_agree m r r' \<Longrightarrow> length (ras_list r) = length (ras_list r')"
  by (simp add: ras_agree_def ras_ok_def)

lemma tos_pop_cong: "tos r = tos r' \<Longrightarrow> ras_numEntries r = ras_numEntries r' \<Longrightarrow> tos (RAS_pop r) = tos (RAS_pop r')"
  by (simp add: RAS_pop_eq decrTos_def)

lemma take_rotate1: "length xs = length ys \<Longrightarrow> take m xs = take m ys \<Longrightarrow> take (m - 1) (rotate1 xs) = take (m - 1) (rotate1 ys)"
  by (cases xs; cases ys; cases m) auto

lemma take_Cons_butlast:
  assumes "length xs = length ys" and "take m xs = take m ys"
  shows "take m (x # butlast xs) = take m (x # butlast ys)"
proof (cases m)
  case (Suc k)
  have "take k xs = take k ys" using assms(2) Suc by (metis Suc_n_not_le_n linear min.absorb1 take_take)
  then have "take j (take k xs) = take j (take k ys)" for j by simp
  then have "take k (take j xs) = take k (take j ys)" for j by (simp add: min.commute)
  then show ?thesis using assms(1) Suc by (simp add: butlast_conv_take)
qed simp

lemma ras_agree_pop: "ras_agree m r r' \<Longrightarrow> ras_agree (m - 1) (RAS_pop r) (RAS_pop r')"
  using take_rotate1 [OF ras_agree_length, of m r r' m] tos_pop_cong [of r r']
  by (simp add: ras_agree_def ras_ok_pop ras_list_pop)

text \<open>Restoring the slot above the top writes the list like a push.\<close>

lemma ras_list_restore_next:
  assumes "ras_ok r"
  obtains r' where "RAS_restore r (tos (incrTos r)) x = Some r'" and "ras_ok r'"
    and "ras_numEntries r' = ras_numEntries r" and "tos r' = tos (incrTos r)"
    and "ras_list r' = x # butlast (ras_list r)"
proof -
  have lt: "tos (incrTos r) < ras_numEntries r" using incrTos_less [OF assms] by (simp add: word_less_nat_alt)
  let ?r = "r\<lparr>tos := tos (incrTos r), addrStack := (addrStack r)[unat (tos (incrTos r)) := x]\<rparr>"
  have eq: "RAS_restore r (tos (incrTos r)) x = Some ?r" by (rule RAS_restore_eq [OF assms lt])
  obtain q where q: "RAS_push r x = Some q" using RAS_push_eq [OF assms] by blast
  then have "ras_list ?r = ras_list q" by (auto simp: RAS_push_eq [OF assms] ras_list_def)
  then have "ras_list ?r = x # butlast (ras_list r)" using ras_list_push [OF assms q] by simp
  with that [OF eq] ras_ok_restore [OF assms lt eq] show thesis by simp
qed

lemma ras_agree_restore_next:
  assumes "ras_agree m r r'"
  shows "\<exists>q q'. RAS_restore r (tos (incrTos r)) x = Some q \<and> RAS_restore r' (tos (incrTos r)) x = Some q' \<and> ras_agree m q q' \<and>
    tos q = tos (incrTos r)"
proof -
  have ok: "ras_ok r" "ras_ok r'" and t: "tos (incrTos r) = tos (incrTos r')"
    using assms by (simp_all add: ras_agree_def incrTos_def Let_def)
  obtain q where q: "RAS_restore r (tos (incrTos r)) x = Some q" "ras_ok q" "ras_numEntries q = ras_numEntries r"
    "tos q = tos (incrTos r)" "ras_list q = x # butlast (ras_list r)" using ras_list_restore_next [OF ok(1)] .
  obtain q' where q': "RAS_restore r' (tos (incrTos r')) x = Some q'" "ras_ok q'" "ras_numEntries q' = ras_numEntries r'"
    "tos q' = tos (incrTos r')" "ras_list q' = x # butlast (ras_list r')" using ras_list_restore_next [OF ok(2)] .
  have "take m (ras_list q) = take m (ras_list q')"
    unfolding q(5) q'(5) using assms ras_agree_length [OF assms] by (intro take_Cons_butlast) (simp_all add: ras_agree_def)
  then show ?thesis using q q' t assms by (simp add: ras_agree_def)
qed

subsection \<open>Repairing the stack for a list of entries\<close>

fun repair_all :: "'pc ReturnAddrStack \<Rightarrow> ('h, 'pc) PredictorHistory list \<Rightarrow> 'pc ReturnAddrStack option" where
  "repair_all r [] = Some r"
| "repair_all r (e # es) = do { r' \<leftarrow> repair_RAS r e; repair_all r' es }"

text \<open>Each entry that used the stack restores the slot above the top its younger entries leave.\<close>

fun chained :: "'pc ReturnAddrStack \<Rightarrow> ('h, 'pc) PredictorHistory list \<Rightarrow> bool" where
  "chained r [] \<longleftrightarrow> True"
| "chained r (e # es) \<longleftrightarrow> (usedRAS e \<longrightarrow> RASIndex e = tos (incrTos r)) \<and>
     (\<forall>r'. repair_RAS r e = Some r' \<longrightarrow> chained r' es)"

definition calls :: "('h, 'pc) PredictorHistory list \<Rightarrow> nat" where
  "calls es = length (filter wasCall es)"

lemma repair_agree:
  assumes "ras_agree m r r'" and "usedRAS e \<longrightarrow> RASIndex e = tos (incrTos r)"
  shows "\<exists>q q'. repair_RAS r e = Some q \<and> repair_RAS r' e = Some q' \<and> ras_agree (m - of_bool (wasCall e)) q q'"
proof (cases "usedRAS e")
  case True
  then show ?thesis using ras_agree_restore_next [OF assms(1), of "RASTarget e"] assms(2) ras_agree_mono
    by (fastforce simp: repair_RAS_def)
next
  case False
  then show ?thesis using ras_agree_pop [OF assms(1)] ras_agree_mono [OF assms(1), of "m - 1"] assms(1)
    by (auto simp: repair_RAS_def)
qed

lemma repair_all_agree:
  assumes "ras_agree m r r'" and "chained r es"
  shows "chained r' es \<and> (\<exists>q q'. repair_all r es = Some q \<and> repair_all r' es = Some q' \<and> ras_agree (m - calls es) q q')"
  using assms
proof (induction es arbitrary: m r r')
  case (Cons e es)
  obtain q q' where q: "repair_RAS r e = Some q" "repair_RAS r' e = Some q'" "ras_agree (m - of_bool (wasCall e)) q q'"
    using repair_agree Cons.prems by (metis chained.simps(2))
  have "tos (incrTos r) = tos (incrTos r')" using Cons.prems(1) by (simp add: ras_agree_def incrTos_def Let_def)
  then show ?case using Cons.IH [OF q(3)] Cons.prems(2) q(1,2) by (auto simp: calls_def)
qed (simp add: calls_def)

lemma tos_decr_incr: "ras_ok r \<Longrightarrow> tos (incrTos (RAS_pop r)) = tos r"
  by (auto simp: RAS_pop_eq incrTos_def decrTos_def Let_def ras_ok_def)

lemma less_plus_one_nonzero: "t < n \<Longrightarrow> t + 1 \<noteq> 0" for t n :: unsigned
  by unat_arith

lemma tos_push:
  assumes "ras_ok r" and "RAS_push r x = Some r'"
  shows "tos (RAS_pop r') = tos r"
proof -
  have "tos r + 1 \<noteq> 0" using assms(1) less_plus_one_nonzero by (auto simp: ras_ok_def)
  moreover have "tos r' = (if tos r + 1 = ras_numEntries r then 0 else tos r + 1)" "ras_numEntries r' = ras_numEntries r"
    using assms(2) by (auto simp: RAS_push_eq [OF assms(1)] incrTos_def Let_def)
  ultimately show ?thesis by (auto simp: RAS_pop_eq decrTos_def) (metis add_diff_cancel_right')
qed

lemma pop_push_agree:
  assumes ok: "ras_ok r" and p: "RAS_push r x = Some r'"
  shows "ras_agree (length (ras_list r) - 1) (RAS_pop r') r"
proof -
  have ok': "ras_ok r'" by (rule ras_ok_push [OF ok p])
  have n: "ras_numEntries r' = ras_numEntries r" using p by (auto simp: RAS_push_eq [OF ok])
  have "ras_list (RAS_pop r') = butlast (ras_list r) @ [x]" using ras_list_pop [OF ok'] ras_list_push [OF ok p] by simp
  then show ?thesis using ok ok' n tos_push [OF ok p]
    by (simp add: ras_agree_def ras_ok_pop butlast_conv_take)
qed

text \<open>Repairing the stack for the entry of a prediction, right after that prediction.\<close>

lemma repair_effect:
  assumes ok: "ras_ok r" and eff: "ras_effect r r' e"
  shows "(usedRAS e \<longrightarrow> RASIndex e = tos (incrTos r')) \<and>
    (\<exists>q. repair_RAS r' e = Some q \<and> ras_agree (length (ras_list r) - of_bool (wasCall e)) q r)"
proof (cases "usedRAS e")
  case True
  then have e: "r' = RAS_pop r" "RASIndex e = tos r" "RAS_top r = Some (RASTarget e)" "\<not> wasCall e"
    using eff by (simp_all add: ras_effect_def)
  have idx: "tos (incrTos r') = tos r" by (simp add: e tos_decr_incr [OF ok])
  obtain q where q: "RAS_restore r' (tos (incrTos r')) (RASTarget e) = Some q" "ras_ok q" "ras_numEntries q = ras_numEntries r'"
    "tos q = tos (incrTos r')" "ras_list q = RASTarget e # butlast (ras_list r')"
    using ras_list_restore_next [of r'] ras_ok_pop [OF ok] e(1) by blast
  have "ras_list q = ras_list r"
    using e(3) ras.top_lst [OF ok] ras.lst_nonempty [OF ok] by (cases "ras_list r") (auto simp: q(5) e(1) ras_list_pop [OF ok])
  then show ?thesis using True q ok idx e by (simp add: repair_RAS_def ras_agree_def)
next
  case False
  then show ?thesis using eff ok pop_push_agree [OF ok]
    by (auto simp: ras_effect_def repair_RAS_def ras_agree_refl split: if_splits)
qed

subsection \<open>A run of predictions\<close>

fun predicts ::
    "('s, 'h) DirPred \<Rightarrow> 'pc isa_ops \<Rightarrow> ThreadID \<Rightarrow> ('s, 'h, 'pc) BPredUnit \<Rightarrow>
     ('pc StaticInst \<times> InstSeqNum \<times> 'pc) list \<Rightarrow> ('s, 'h, 'pc) BPredUnit option" where
  "predicts P isa t u [] = Some u"
| "predicts P isa t u ((inst, sn, pc) # qs) = do {
     (b, tg, u') \<leftarrow> predict P isa u inst sn pc t;
     predicts P isa t u' qs }"

text \<open>The squash of a list of entries on the view of a \<open>speculative_predictor\<close>.\<close>

fun undo_all :: "(ThreadID \<Rightarrow> 'h option \<Rightarrow> 'v \<Rightarrow> 'v) \<Rightarrow> ThreadID \<Rightarrow> ('h, 'pc) PredictorHistory list \<Rightarrow> 'v \<Rightarrow> 'v" where
  "undo_all undo t [] v = v"
| "undo_all undo t (e # es) v = undo_all undo t es (undo t (bpHistory e) v)"

text \<open>
  The state in the middle of a run from \<open>u0\<close>: the entries \<open>es\<close> are the predictions of the run, and
  undoing them leads back.
\<close>

definition mid_run ::
    "('s \<Rightarrow> 'v) \<Rightarrow> (ThreadID \<Rightarrow> 'h option \<Rightarrow> 'v \<Rightarrow> 'v) \<Rightarrow> ThreadID \<Rightarrow> InstSeqNum \<Rightarrow> ('s, 'h, 'pc) BPredUnit \<Rightarrow>
     ('s, 'h, 'pc) BPredUnit \<Rightarrow> ('h, 'pc) PredictorHistory list \<Rightarrow> bool" where
  "mid_run view undo t sn u0 u es \<longleftrightarrow>
     predHist u = (predHist u0)[tid_index t := es @ predHist u0 ! tid_index t] \<and>
     list_all (\<lambda>e. sn < seqNum e) es \<and>
     undo_all undo t es (view (dir u)) = view (dir u0) \<and>
     bp_numThreads u = bp_numThreads u0 \<and> bp_BTB u = bp_BTB u0 \<and>
     chained (bp_RAS u ! tid_index t) es \<and>
     (\<exists>q. repair_all (bp_RAS u ! tid_index t) es = Some q \<and>
        ras_agree (length (ras_list (bp_RAS u0 ! tid_index t)) - calls es) q (bp_RAS u0 ! tid_index t)) \<and>
     (\<exists>hs. list_all (\<lambda>h. sn < he_seqNum h) hs \<and>
        iPred u = (iPred u0)\<lparr>threadInfo := (threadInfo (iPred u0))[tid_index t :=
          (threadInfo (iPred u0) ! tid_index t)\<lparr>pathHist := pathHist (threadInfo (iPred u0) ! tid_index t) @ hs\<rparr>]\<rparr>)"

lemma mid_run_init:
  assumes "ras_ok (bp_RAS u ! tid_index t)"
  shows "mid_run view undo t sn u u []"
  using assms by (auto simp: mid_run_def ras_agree_refl intro!: exI [of _ "[]"])

lemma mid_run_extend:
  assumes m: "mid_run view undo t sn u0 u es"
    and r: "bp_RAS u' ! tid_index t = r'" "ras_ok (bp_RAS u ! tid_index t)" "ras_effect (bp_RAS u ! tid_index t) r' e"
      "length (ras_list (bp_RAS u ! tid_index t)) = length (ras_list (bp_RAS u0 ! tid_index t))"
    and ph: "predHist u' = (predHist u)[tid_index t := e # predHist u ! tid_index t]" "tid_index t < length (predHist u0)"
    and sn: "sn < seqNum e" and v: "undo t (bpHistory e) (view (dir u')) = view (dir u)"
    and f: "bp_numThreads u' = bp_numThreads u" "bp_BTB u' = bp_BTB u"
    and ip: "ip_effect (iPred u) (iPred u') (tid_index t) e" "tid_index t < length (threadInfo (iPred u0))"
  shows "mid_run view undo t sn u0 u' (e # es)"
proof -
  let ?i = "tid_index t" let ?n = "length (ras_list (bp_RAS u0 ! ?i))" and ?ti = "threadInfo (iPred u0) ! ?i"
  obtain q where q: "repair_all (bp_RAS u ! ?i) es = Some q" "ras_agree (?n - calls es) q (bp_RAS u0 ! ?i)"
    and ch: "chained (bp_RAS u ! ?i) es" using m by (auto simp: mid_run_def)
  obtain q1 where q1: "repair_RAS r' e = Some q1" "ras_agree (?n - of_bool (wasCall e)) q1 (bp_RAS u ! ?i)"
    and idx: "usedRAS e \<longrightarrow> RASIndex e = tos (incrTos r')"
    using repair_effect [OF r(2,3)] r(4) by auto
  have "ras_agree (?n - of_bool (wasCall e)) (bp_RAS u ! ?i) q1" using q1(2) by (rule ras_agree_sym)
  then obtain q2 where q2: "chained q1 es" "repair_all q1 es = Some q2" "ras_agree (?n - of_bool (wasCall e) - calls es) q2 q"
    using repair_all_agree [OF _ ch] q(1) by (metis option.inject ras_agree_sym)
  have "ras_agree (?n - of_bool (wasCall e) - calls es) q (bp_RAS u0 ! ?i)" by (rule ras_agree_mono [OF q(2)]) simp
  then have "ras_agree (?n - of_bool (wasCall e) - calls es) q2 (bp_RAS u0 ! ?i)" by (rule ras_agree_trans [OF q2(3)])
  moreover have "?n - of_bool (wasCall e) - calls es = ?n - calls (e # es)" by (simp add: calls_def)
  ultimately have "ras_agree (?n - calls (e # es)) q2 (bp_RAS u0 ! ?i)" by metis
  moreover obtain hs where hs: "list_all (\<lambda>h. sn < he_seqNum h) hs"
    "iPred u = (iPred u0)\<lparr>threadInfo := (threadInfo (iPred u0))[?i := ?ti\<lparr>pathHist := pathHist ?ti @ hs\<rparr>]\<rparr>"
    using m by (auto simp: mid_run_def)
  moreover obtain hs' where hs': "iPred u' = (iPred u)\<lparr>threadInfo := (threadInfo (iPred u))[?i :=
      (threadInfo (iPred u) ! ?i)\<lparr>pathHist := pathHist (threadInfo (iPred u) ! ?i) @ hs'\<rparr>]\<rparr>"
    "map he_seqNum hs' = (if wasIndirect e then [seqNum e] else [])" using ip(1) by (auto simp: ip_effect_def)
  then have "list_all (\<lambda>h. sn < he_seqNum h) hs'" using sn by (auto split: if_splits)
  then have "\<exists>hs. list_all (\<lambda>h. sn < he_seqNum h) hs \<and>
      iPred u' = (iPred u0)\<lparr>threadInfo := (threadInfo (iPred u0))[?i := ?ti\<lparr>pathHist := pathHist ?ti @ hs\<rparr>]\<rparr>"
    using hs hs'(1) ip(2) by (intro exI [of _ "hs @ hs'"]) simp
  moreover have "predHist u' = (predHist u0)[?i := (e # es) @ predHist u0 ! ?i]"
    using m ph by (simp add: mid_run_def)
  ultimately show ?thesis
    using m q1(1) q2(1,2) sn v f idx unfolding mid_run_def by (simp add: r(1))
qed

text \<open>All sequence numbers the unit holds for a thread are at most \<open>k\<close>.\<close>

definition seq_bound :: "ThreadID \<Rightarrow> ('s, 'h, 'pc) BPredUnit \<Rightarrow> InstSeqNum \<Rightarrow> bool" where
  "seq_bound t u k \<longleftrightarrow> list_all (\<lambda>e. seqNum e \<le> k) (predHist u ! tid_index t) \<and>
     list_all (\<lambda>h. he_seqNum h \<le> k) (pathHist (threadInfo (iPred u) ! tid_index t))"

lemma seq_bound_call_ok: "seq_bound t u k \<Longrightarrow> k < sn \<Longrightarrow> call_ok t u (Predict inst sn pc)"
  by (auto simp: seq_bound_def list_all_iff intro: le_less_trans)

lemma seq_bound_predict:
  assumes "seq_bound t u k" and "k < seqNum e" and "tid_index t < length (predHist u)"
    and "tid_index t < length (threadInfo (iPred u))"
    and "predHist u' = (predHist u)[tid_index t := e # predHist u ! tid_index t]"
    and "ip_effect (iPred u) (iPred u') (tid_index t) e"
  shows "seq_bound t u' (seqNum e)"
proof -
  let ?i = "tid_index t" let ?ti = "threadInfo (iPred u) ! ?i"
  obtain hs where hs: "iPred u' = (iPred u)\<lparr>threadInfo := (threadInfo (iPred u))[?i := ?ti\<lparr>pathHist := pathHist ?ti @ hs\<rparr>]\<rparr>"
    "map he_seqNum hs = (if wasIndirect e then [seqNum e] else [])" using assms(6) by (auto simp: ip_effect_def)
  then have "list_all (\<lambda>h. he_seqNum h \<le> seqNum e) hs" by (auto split: if_splits)
  then show ?thesis using assms(1-5) hs(1) by (auto simp: seq_bound_def list_all_iff)
qed

context speculative_predictor
begin

lemma predict_mid_run:
  assumes ok: "unit_ok inv cfg threads hist_ok u" and t: "tid_index t < unat (bp_numThreads u)"
    and m: "mid_run view undo t sn0 u0 u es" and b: "seq_bound t u k" "k < sn" "sn0 \<le> k"
    and len: "tid_index t < length (predHist u0)" "tid_index t < length (threadInfo (iPred u0))"
      "length (ras_list (bp_RAS u ! tid_index t)) = length (ras_list (bp_RAS u0 ! tid_index t))"
  shows "\<exists>x y u' e. predict P isa u inst sn pc t = Some (x, y, u') \<and> unit_ok inv cfg threads hist_ok u' \<and>
    mid_run view undo t sn0 u0 u' (e # es) \<and> seq_bound t u' sn \<and> bp_numThreads u' = bp_numThreads u \<and>
    length (ras_list (bp_RAS u' ! tid_index t)) = length (ras_list (bp_RAS u0 ! tid_index t))"
proof (rule predict_effect [OF ok t, of isa inst sn pc])
  let ?i = "tid_index t" and ?a = "instAddr isa pc"
  note th = unit_thread [OF ok t]
  fix x y u' s e r'
  assume p: "predict P isa u inst sn pc t = Some (x, y, u')" and d: "inv (dir u')" "cfg (dir u') = cfg (dir u)"
    and f: "bp_numThreads u' = bp_numThreads u" "bp_BTB u' = bp_BTB u" and r': "bp_RAS u' = (bp_RAS u)[?i := r']"
    and r: "ras_effect (bp_RAS u ! ?i) r' e" and ip: "ip_effect (iPred u) (iPred u') ?i e"
    and ph: "predHist u' = (predHist u)[?i := e # predHist u ! ?i]" and e: "seqNum e = sn" "hist_ok (cfg (dir u)) (bpHistory e)"
    and s: "dp_uncondBranch P (dir u) t ?a = Some (bpHistory e, s) \<or> (\<exists>b. dp_lookup P (dir u) t ?a = Some (b, bpHistory e, s))"
    and s': "dir u' = s \<or> dp_btbUpdate P s t ?a (bpHistory e) = Some (dir u')"
  have iv: "inv (dir u)" "?i < threads (cfg (dir u))" using ok th(5) by (simp_all add: unit_ok_def)
  have v: "undo t (bpHistory e) (view (dir u')) = view (dir u)"
    using s s' undo_lookup [OF iv] undo_uncond [OF iv] undo_lookup_btbUpdate [OF iv] undo_uncond_btbUpdate [OF iv] by blast
  have "unit_ok inv cfg threads hist_ok u'"
    using predict_ok [OF ok t seq_bound_call_ok [OF b(1,2), of inst pc], of isa] p by auto
  moreover have ras: "ras_ok (bp_RAS u ! ?i)" "bp_RAS u' ! ?i = r'" using th(1,2) by (simp_all add: thread_ok_def r')
  moreover have "mid_run view undo t sn0 u0 u' (e # es)"
    using b(2,3) e(1) by (intro mid_run_extend [OF m ras(2,1) r len(3) ph len(1) _ v f ip len(2)]) simp
  moreover have "seq_bound t u' sn"
    using seq_bound_predict [OF b(1) _ th(3,4) ph ip] b(2) e(1) by simp
  moreover have "length (ras_list r') = length (ras_list (bp_RAS u ! ?i))"
    using ras_effect_ok [OF ras(1) r] ras(1) by (simp add: ras_ok_def)
  ultimately show ?thesis using p f(1) len(3) by auto
qed

lemma predicts_mid_run:
  assumes "unit_ok inv cfg threads hist_ok u" and "tid_index t < unat (bp_numThreads u)"
    and "mid_run view undo t sn0 u0 u es" and "seq_bound t u k" and "sn0 \<le> k"
    and "sorted_wrt (<) (k # map (fst \<circ> snd) qs)"
    and "tid_index t < length (predHist u0)" and "tid_index t < length (threadInfo (iPred u0))"
    and "length (ras_list (bp_RAS u ! tid_index t)) = length (ras_list (bp_RAS u0 ! tid_index t))"
  shows "\<exists>u' es'. predicts P isa t u qs = Some u' \<and> unit_ok inv cfg threads hist_ok u' \<and>
    mid_run view undo t sn0 u0 u' es' \<and> bp_numThreads u' = bp_numThreads u"
  using assms
proof (induction qs arbitrary: u es k)
  case (Cons q qs)
  obtain inst sn pc where q: "q = (inst, sn, pc)" by (cases q)
  have lt: "k < sn" using Cons.prems(6) by (simp add: q)
  obtain x y u' e where u': "predict P isa u inst sn pc t = Some (x, y, u')" "unit_ok inv cfg threads hist_ok u'"
    "mid_run view undo t sn0 u0 u' (e # es)" "seq_bound t u' sn" "bp_numThreads u' = bp_numThreads u"
    "length (ras_list (bp_RAS u' ! tid_index t)) = length (ras_list (bp_RAS u0 ! tid_index t))"
    using predict_mid_run [OF Cons.prems(1-4) lt Cons.prems(5,7-9), of isa inst pc] by blast
  have "sn0 \<le> sn" using lt Cons.prems(5) by simp
  then show ?case
    using Cons.IH [OF u'(2) _ u'(3,4)] u' Cons.prems by (auto simp: q)
qed auto

lemma squash_loop_undo:
  assumes "inv s" and "tid_index t < threads (cfg s)"
    and "list_all (\<lambda>e. hist_ok (cfg s) (bpHistory e)) es" and "squash_loop P sn t s r es = Some (s', r', rest)"
  shows "view s' = undo_all undo t (takeWhile (\<lambda>e. sn < seqNum e) es) (view s) \<and>
    repair_all r (takeWhile (\<lambda>e. sn < seqNum e) es) = Some r'"
  using assms
proof (induction es arbitrary: s r)
  case (Cons e es)
  show ?case
  proof (cases "sn < seqNum e")
    case True
    then obtain r1 s1 where 1: "repair_RAS r e = Some r1" "dp_squash P s t (bpHistory e) = Some s1"
      "squash_loop P sn t s1 r1 es = Some (s', r', rest)"
      using Cons.prems(4) by (auto split: bind_splits)
    have "inv s1" "cfg s1 = cfg s" using squash_ok [OF Cons.prems(1,2)] Cons.prems(3) 1(2) by fastforce+
    moreover have "view s1 = undo t (bpHistory e) (view s)"
      using squash_view [OF Cons.prems(1,2) _ 1(2)] Cons.prems(3) by simp
    ultimately show ?thesis using Cons.IH [of s1 r1] Cons.prems 1 True by simp
  qed (use Cons.prems in auto)
qed simp

lemma run_then_squash:
  assumes ok: "unit_ok inv cfg threads hist_ok u" and t: "tid_index t < unat (bp_numThreads u)"
    and b: "seq_bound t u sn" and q: "sorted_wrt (<) (sn # map (fst \<circ> snd) qs)"
  shows "\<exists>u1 u2. predicts P isa t u qs = Some u1 \<and> bp_squash P u1 sn t = Some u2 \<and>
    view (dir u2) = view (dir u) \<and> predHist u2 = predHist u \<and> iPred u2 = iPred u \<and> bp_BTB u2 = bp_BTB u \<and>
    ras_agree (unat (ras_numEntries (bp_RAS u ! tid_index t)) -
        calls (filter (\<lambda>e. sn < seqNum e) (predHist u1 ! tid_index t)))
      (bp_RAS u2 ! tid_index t) (bp_RAS u ! tid_index t)"
proof -
  let ?i = "tid_index t"
  note th = unit_thread [OF ok t]
  have ras: "ras_ok (bp_RAS u ! ?i)" using th(1) by (simp add: thread_ok_def)
  obtain u1 es where u1: "predicts P isa t u qs = Some u1" "unit_ok inv cfg threads hist_ok u1"
    "mid_run view undo t sn u u1 es" "bp_numThreads u1 = bp_numThreads u"
    using predicts_mid_run [OF ok t mid_run_init [OF ras] b order_refl q th(3,4) refl, of isa] by blast
  have t1: "?i < unat (bp_numThreads u1)" using t u1(4) by simp
  note th1 = unit_thread [OF u1(2) t1]
  have ph1: "predHist u1 ! ?i = es @ predHist u ! ?i" and es: "list_all (\<lambda>e. sn < seqNum e) es"
    using u1(3) th(3) by (simp_all add: mid_run_def)
  have tw: "takeWhile (\<lambda>e. sn < seqNum e) (predHist u1 ! ?i) = es"
    using b es unfolding ph1 seq_bound_def
    by (cases "predHist u ! ?i") (auto simp: takeWhile_append list_all_iff)
  have fl: "filter (\<lambda>e. sn < seqNum e) (predHist u1 ! ?i) = es" "filter (\<lambda>e. seqNum e \<le> sn) (predHist u1 ! ?i) = predHist u ! ?i"
    using b es unfolding ph1 seq_bound_def by (auto simp: list_all_iff filter_empty_conv intro!: filter_True)
  obtain u2 r' rest where u2: "bp_squash P u1 sn t = Some u2"
    "predHist u2 = (predHist u1)[?i := filter (\<lambda>e. seqNum e \<le> sn) (predHist u1 ! ?i)]"
    "bp_RAS u2 = (bp_RAS u1)[?i := r']" "bp_BTB u2 = bp_BTB u1"
    and loop: "squash_loop P sn t (dir u1) (bp_RAS u1 ! ?i) (predHist u1 ! ?i) = Some (dir u2, r', rest)"
    and ip: "iPred u2 = (iPred u1)\<lparr>threadInfo := (threadInfo (iPred u1))[?i := (threadInfo (iPred u1) ! ?i)
      \<lparr>pathHist := filter (\<lambda>h. he_seqNum h \<le> sn) (pathHist (threadInfo (iPred u1) ! ?i))\<rparr>]\<rparr>"
    using bp_squash_ok [OF u1(2) t1, of sn] by auto
  have "inv (dir u1)" "list_all (\<lambda>e. hist_ok (cfg (dir u1)) (bpHistory e)) (predHist u1 ! ?i)"
    using u1(2) th1(1) by (auto simp: unit_ok_def thread_ok_def entry_ok_def list_all_iff)
  then have "view (dir u2) = undo_all undo t es (view (dir u1))" "repair_all (bp_RAS u1 ! ?i) es = Some r'"
    using squash_loop_undo [OF _ th1(5) _ loop] tw by simp_all
  then have "view (dir u2) = view (dir u)" "ras_agree (length (ras_list (bp_RAS u ! ?i)) - calls es) r' (bp_RAS u ! ?i)"
    using u1(3) by (simp_all add: mid_run_def)
  moreover obtain hs where "list_all (\<lambda>h. sn < he_seqNum h) hs" "iPred u1 = (iPred u)\<lparr>threadInfo := (threadInfo (iPred u))[?i :=
        (threadInfo (iPred u) ! ?i)\<lparr>pathHist := pathHist (threadInfo (iPred u) ! ?i) @ hs\<rparr>]\<rparr>"
    using u1(3) by (auto simp: mid_run_def)
  then have "iPred u2 = iPred u"
    using b ip th(4) by (simp add: seq_bound_def list_all_iff filter_True filter_False not_le)
  moreover have "predHist u2 = predHist u" using u2(2) fl(2) u1(3) by (simp add: mid_run_def)
  moreover have "bp_RAS u2 ! ?i = r'" using u2(3) th1(2) by simp
  moreover have "length (ras_list (bp_RAS u ! ?i)) = unat (ras_numEntries (bp_RAS u ! ?i))" using ras by (simp add: ras_ok_def)
  moreover have "bp_BTB u1 = bp_BTB u" using u1(3) by (simp add: mid_run_def)
  ultimately show ?thesis using u1(1) u2(1,4) fl(1) by auto
qed

end

end
