(* ===== verification/Sample_Config.thy ===== *)
theory Sample_Config
  imports BPred_Undo
begin

text \<open>
  A small concrete setting on which the properties of the unit and of the predictors are
  evaluated: a program counter that is its address, a few instructions, and the parameters of a
  unit with one thread, a BTB of four entries, a stack of four entries and two sets of two ways.
\<close>

definition sample_isa :: "Addr isa_ops" where
  "sample_isa = \<lparr>PCState_zero = 0, PCState_default = 0, PCState_set0 = (\<lambda>_. 0), instAddr = (\<lambda>pc. pc),
     buildRetPC = (\<lambda>cur call. call + 4)\<rparr>"

definition sample_inst :: "bool \<Rightarrow> bool \<Rightarrow> bool \<Rightarrow> bool \<Rightarrow> Addr StaticInst" where
  "sample_inst uncond return call direct = \<lparr>isUncondCtrl = uncond, isReturn = return, isCall = call,
     isDirectCtrl = direct, advancePC = (\<lambda>pc. pc + 4)\<rparr>"

definition cond_branch :: "Addr StaticInst" where
  "cond_branch = sample_inst False False False True"

definition call_inst :: "Addr StaticInst" where
  "call_inst = sample_inst True False True True"

definition return_inst :: "Addr StaticInst" where
  "return_inst = sample_inst True True False False"

definition indirect_jump :: "Addr StaticInst" where
  "indirect_jump = sample_inst True False False False"

definition sample_bp :: BPParams where
  "sample_bp = \<lparr>p_numThreads = 1, p_BTBEntries = 4, p_BTBTagSize = 8, p_instShiftAmt = 2, p_RASSize = 4,
     p_useIndirect = True, p_indirectHashGHR = True, p_indirectHashTargets = True, p_indirectSets = 2,
     p_indirectWays = 2, p_indirectTagSize = 8, p_indirectPathLength = 3\<rparr>"

lemma sample_bp_ok: "params_ok sample_bp"
  by code_simp

end
