(* ===== verification/Tournament.thy ===== *)
theory Tournament
  imports Sample_Config
begin

text \<open>
  \<open>cpu/pred/tournament.hh\<close> and \<open>tournament.cc\<close>: a local and a global predictor and a choice
  predictor between them. The members the constructor sets and no operation changes are the
  record \<open>TournamentCfg\<close>, the others are \<open>TournamentBP\<close>. The last part interprets the contracts
  of the base class.
\<close>

record TournamentCfg =
  t_numThreads :: unsigned
  t_instShiftAmt :: unsigned
  t_localPredictorSize :: unsigned
  t_localPredictorMask :: unsigned
  t_localCtrBits :: unsigned
  t_localHistoryTableSize :: unsigned
  t_localHistoryBits :: unsigned
  t_globalPredictorSize :: unsigned
  t_globalCtrBits :: unsigned
  t_globalHistoryBits :: unsigned
  t_globalHistoryMask :: unsigned
  t_choiceHistoryMask :: unsigned
  t_historyRegisterMask :: unsigned
  t_choicePredictorSize :: unsigned
  t_choiceCtrBits :: unsigned
  t_localThreshold :: unsigned
  t_globalThreshold :: unsigned
  t_choiceThreshold :: unsigned

record TournamentBP =
  t_cfg :: TournamentCfg
  t_localCtrs :: "SatCounter list"
  t_localHistoryTable :: "unsigned list"
  t_globalCtrs :: "SatCounter list"
  t_globalHistory :: "unsigned list"
  t_choiceCtrs :: "SatCounter list"
  t_stats :: ExpertStats

record TBPHistory =
  th_globalHistory :: unsigned
  th_localHistoryIdx :: unsigned
  th_localHistory :: unsigned
  th_localPredTaken :: bool
  th_globalPredTaken :: bool
  th_globalUsed :: bool

record TournamentParams =
  tp_numThreads :: unsigned
  tp_instShiftAmt :: unsigned
  tp_localPredictorSize :: unsigned
  tp_localCtrBits :: unsigned
  tp_localHistoryTableSize :: unsigned
  tp_globalPredictorSize :: unsigned
  tp_globalCtrBits :: unsigned
  tp_choicePredictorSize :: unsigned
  tp_choiceCtrBits :: unsigned

text \<open>The constructor; \<open>junk\<close> is the uninitialised \<open>maxVal\<close> of the counters before \<open>setBits\<close>.\<close>

definition TournamentBP_new :: "uint8 \<Rightarrow> TournamentParams \<Rightarrow> bp_error + TournamentBP" where
  "TournamentBP_new junk p =
     ebind (no_fault (ceilLog2 (tp_localPredictorSize p))) (\<lambda>local_bits.
     ebind (no_fault (ceilLog2 (tp_globalPredictorSize p))) (\<lambda>log2_global.
     ebind (no_fault (ceilLog2 (tp_choicePredictorSize p))) (\<lambda>log2_choice.
     let global_bits = (if log2_global > log2_choice then log2_global else log2_choice) in
     ebind (error_if (\<not> isPowerOf2 (tp_localPredictorSize p)) (Fatal ''Invalid local predictor size!'')) (\<lambda>_.
     ebind (error_if (\<not> isPowerOf2 (tp_globalPredictorSize p)) (Fatal ''Invalid global predictor size!'')) (\<lambda>_.
     ebind (no_fault (fresh_counters junk (tp_localPredictorSize p) (tp_localCtrBits p))) (\<lambda>local_ctrs.
     ebind (error_if (\<not> isPowerOf2 (tp_localHistoryTableSize p)) (Fatal ''Invalid local history table size!'')) (\<lambda>_.
     ebind (no_fault (fresh_counters junk (tp_globalPredictorSize p) (tp_globalCtrBits p))) (\<lambda>global_ctrs.
     let global_mask = tp_globalPredictorSize p - 1 in
     ebind (error_if (\<not> isPowerOf2 (tp_choicePredictorSize p)) (Fatal ''Invalid choice predictor size!'')) (\<lambda>_.
     let choice_mask = tp_choicePredictorSize p - 1 in
     ebind (no_fault (fresh_counters junk (tp_choicePredictorSize p) (tp_choiceCtrBits p))) (\<lambda>choice_ctrs.
     let register_mask = ucast (mask64 global_bits) in
     ebind (error_if (global_mask > register_mask)
       (Fatal ''Global predictor too large for global history bits!'')) (\<lambda>_.
     ebind (error_if (choice_mask > register_mask)
       (Fatal ''Choice predictor too large for global history bits!'')) (\<lambda>_.
     ebind (no_fault (threshold_of_bits (tp_localCtrBits p))) (\<lambda>local_threshold.
     ebind (no_fault (threshold_of_bits (tp_globalCtrBits p))) (\<lambda>global_threshold.
     ebind (no_fault (threshold_of_bits (tp_choiceCtrBits p))) (\<lambda>choice_threshold.
       Inr \<lparr>t_cfg =
              \<lparr>t_numThreads = tp_numThreads p, t_instShiftAmt = tp_instShiftAmt p,
               t_localPredictorSize = tp_localPredictorSize p,
               t_localPredictorMask = ucast (mask64 local_bits),
               t_localCtrBits = tp_localCtrBits p,
               t_localHistoryTableSize = tp_localHistoryTableSize p,
               t_localHistoryBits = of_nat local_bits,
               t_globalPredictorSize = tp_globalPredictorSize p,
               t_globalCtrBits = tp_globalCtrBits p,
               t_globalHistoryBits = of_nat global_bits,
               t_globalHistoryMask = global_mask,
               t_choiceHistoryMask = choice_mask,
               t_historyRegisterMask = register_mask,
               t_choicePredictorSize = tp_choicePredictorSize p,
               t_choiceCtrBits = tp_choiceCtrBits p,
               t_localThreshold = local_threshold,
               t_globalThreshold = global_threshold,
               t_choiceThreshold = choice_threshold\<rparr>,
            t_localCtrs = local_ctrs,
            t_localHistoryTable = replicate (unat (tp_localHistoryTableSize p)) 0,
            t_globalCtrs = global_ctrs,
            t_globalHistory = replicate (unat (tp_numThreads p)) 0,
            t_choiceCtrs = choice_ctrs,
            t_stats = zero_stats\<rparr>)))))))))))))))"

definition t_calcLocHistIdx :: "TournamentCfg \<Rightarrow> Addr \<Rightarrow> unsigned option" where
  "t_calcLocHistIdx c branch_addr = loc_hist_idx (t_instShiftAmt c) (t_localHistoryTableSize c) branch_addr"

definition t_updateGlobalHistTaken :: "TournamentBP \<Rightarrow> ThreadID \<Rightarrow> TournamentBP option" where
  "t_updateGlobalHistTaken s tid = do {
     gh \<leftarrow> vec_mod (\<lambda>h. (push_bit 1 h OR 1) AND t_historyRegisterMask (t_cfg s)) (t_globalHistory s) (tid_index tid);
     Some (s\<lparr>t_globalHistory := gh\<rparr>) }"

definition t_updateGlobalHistNotTaken :: "TournamentBP \<Rightarrow> ThreadID \<Rightarrow> TournamentBP option" where
  "t_updateGlobalHistNotTaken s tid = do {
     gh \<leftarrow> vec_mod (\<lambda>h. push_bit 1 h AND t_historyRegisterMask (t_cfg s)) (t_globalHistory s) (tid_index tid);
     Some (s\<lparr>t_globalHistory := gh\<rparr>) }"

definition t_updateLocalHistTaken :: "TournamentBP \<Rightarrow> unsigned \<Rightarrow> TournamentBP option" where
  "t_updateLocalHistTaken s local_history_idx = do {
     lh \<leftarrow> vec_mod (\<lambda>h. push_bit 1 h OR 1) (t_localHistoryTable s) (unat local_history_idx);
     Some (s\<lparr>t_localHistoryTable := lh\<rparr>) }"

definition t_updateLocalHistNotTaken :: "TournamentBP \<Rightarrow> unsigned \<Rightarrow> TournamentBP option" where
  "t_updateLocalHistNotTaken s local_history_idx = do {
     lh \<leftarrow> vec_mod (\<lambda>h. push_bit 1 h) (t_localHistoryTable s) (unat local_history_idx);
     Some (s\<lparr>t_localHistoryTable := lh\<rparr>) }"

definition t_btbUpdate :: "TournamentBP \<Rightarrow> ThreadID \<Rightarrow> Addr \<Rightarrow> TBPHistory option \<Rightarrow> TournamentBP option" where
  "t_btbUpdate s tid branch_addr bp_history = do {
     local_history_idx \<leftarrow> t_calcLocHistIdx (t_cfg s) branch_addr;
     gh \<leftarrow> vec_mod (clear_lsb (t_historyRegisterMask (t_cfg s))) (t_globalHistory s) (tid_index tid);
     lh \<leftarrow> vec_mod (clear_lsb (t_localPredictorMask (t_cfg s))) (t_localHistoryTable s) (unat local_history_idx);
     Some (s\<lparr>t_globalHistory := gh, t_localHistoryTable := lh\<rparr>) }"

definition t_lookup :: "TournamentBP \<Rightarrow> ThreadID \<Rightarrow> Addr \<Rightarrow> (bool \<times> TBPHistory option \<times> TournamentBP) option" where
  "t_lookup s tid branch_addr = do {
     let c = t_cfg s;
     local_history_idx \<leftarrow> t_calcLocHistIdx c branch_addr;
     lh \<leftarrow> vec_at (t_localHistoryTable s) (unat local_history_idx);
     let local_predictor_idx = lh AND t_localPredictorMask c;
     lc \<leftarrow> vec_at (t_localCtrs s) (unat local_predictor_idx);
     let local_prediction = above (t_localThreshold c) lc;
     gh \<leftarrow> vec_at (t_globalHistory s) (tid_index tid);
     gc \<leftarrow> vec_at (t_globalCtrs s) (unat (gh AND t_globalHistoryMask c));
     let global_prediction = above (t_globalThreshold c) gc;
     cc \<leftarrow> vec_at (t_choiceCtrs s) (unat (gh AND t_choiceHistoryMask c));
     let choice_prediction = above (t_choiceThreshold c) cc;
     let history = \<lparr>th_globalHistory = gh, th_localHistoryIdx = local_history_idx, th_localHistory = local_predictor_idx,
       th_localPredTaken = local_prediction, th_globalPredTaken = global_prediction, th_globalUsed = choice_prediction\<rparr>;
     assert_that (local_history_idx < t_localHistoryTableSize c);
     if choice_prediction then
       if global_prediction then do {
         s \<leftarrow> t_updateGlobalHistTaken s tid;
         s \<leftarrow> t_updateLocalHistTaken s local_history_idx;
         Some (True, Some history, s) }
       else do {
         s \<leftarrow> t_updateGlobalHistNotTaken s tid;
         s \<leftarrow> t_updateLocalHistNotTaken s local_history_idx;
         Some (False, Some history, s) }
     else
       if local_prediction then do {
         s \<leftarrow> t_updateGlobalHistTaken s tid;
         s \<leftarrow> t_updateLocalHistTaken s local_history_idx;
         Some (True, Some history, s) }
       else do {
         s \<leftarrow> t_updateGlobalHistNotTaken s tid;
         s \<leftarrow> t_updateLocalHistNotTaken s local_history_idx;
         Some (False, Some history, s) } }"

definition t_uncondBranch :: "TournamentBP \<Rightarrow> ThreadID \<Rightarrow> Addr \<Rightarrow> (TBPHistory option \<times> TournamentBP) option" where
  "t_uncondBranch s tid pc = do {
     gh \<leftarrow> vec_at (t_globalHistory s) (tid_index tid);
     let history = \<lparr>th_globalHistory = gh, th_localHistoryIdx = invalidPredictorIndex,
       th_localHistory = invalidPredictorIndex, th_localPredTaken = True, th_globalPredTaken = True, th_globalUsed = True\<rparr>;
     s \<leftarrow> t_updateGlobalHistTaken s tid;
     Some (Some history, s) }"

definition t_updateAdditionalStats :: "TournamentBP \<Rightarrow> bool \<Rightarrow> TBPHistory \<Rightarrow> TournamentBP" where
  "t_updateAdditionalStats s taken history =
     (let prediction = (if th_globalUsed history then th_globalPredTaken history else th_localPredTaken history);
          mispredict = (taken \<noteq> prediction)
      in if mispredict \<and>
            (th_globalUsed history \<and> th_localPredTaken history = taken \<or>
             \<not> th_globalUsed history \<and> th_globalPredTaken history = taken)
         then s\<lparr>t_stats := (t_stats s)\<lparr>atLeastOneCorrectExpertOnMispredict :=
                atLeastOneCorrectExpertOnMispredict (t_stats s) + 1\<rparr>\<rparr>
         else s)"

definition t_update ::
    "TournamentBP \<Rightarrow> ThreadID \<Rightarrow> Addr \<Rightarrow> bool \<Rightarrow> TBPHistory option \<Rightarrow> bool \<Rightarrow> TournamentBP option" where
  "t_update s tid branch_addr taken bp_history squashed = do {
     history \<leftarrow> bp_history;
     let c = t_cfg s;
     local_history_idx \<leftarrow> t_calcLocHistIdx c branch_addr;
     assert_that (local_history_idx < t_localHistoryTableSize c);
     let old_local_pred_valid = (th_localHistory history \<noteq> invalidPredictorIndex);
     let s = t_updateAdditionalStats s taken history;
     if squashed then do {
       gh \<leftarrow> vec_put (t_globalHistory s) (tid_index tid)
              (shift_in (th_globalHistory history) taken AND t_historyRegisterMask c);
       lh \<leftarrow> (if old_local_pred_valid
              then vec_put (t_localHistoryTable s) (unat local_history_idx) (shift_in (th_localHistory history) taken)
              else Some (t_localHistoryTable s));
       Some (s\<lparr>t_globalHistory := gh, t_localHistoryTable := lh\<rparr>) }
     else do {
       let old_local_pred_index = th_localHistory history AND t_localPredictorMask c;
       assert_that (old_local_pred_index < t_localPredictorSize c);
       cc \<leftarrow> (if th_localPredTaken history \<noteq> th_globalPredTaken history \<and> old_local_pred_valid then
                let choice_predictor_idx = th_globalHistory history AND t_choiceHistoryMask c in
                if th_localPredTaken history = taken then vec_mod decrement (t_choiceCtrs s) (unat choice_predictor_idx)
                else if th_globalPredTaken history = taken then vec_mod increment (t_choiceCtrs s) (unat choice_predictor_idx)
                else Some (t_choiceCtrs s)
              else Some (t_choiceCtrs s));
       let global_predictor_idx = th_globalHistory history AND t_globalHistoryMask c;
       gc \<leftarrow> vec_mod (train taken) (t_globalCtrs s) (unat global_predictor_idx);
       lc \<leftarrow> (if old_local_pred_valid then vec_mod (train taken) (t_localCtrs s) (unat old_local_pred_index)
              else Some (t_localCtrs s));
       Some (s\<lparr>t_choiceCtrs := cc, t_globalCtrs := gc, t_localCtrs := lc\<rparr>) } }"

definition t_squash :: "TournamentBP \<Rightarrow> ThreadID \<Rightarrow> TBPHistory option \<Rightarrow> TournamentBP option" where
  "t_squash s tid bp_history = do {
     history \<leftarrow> bp_history;
     gh \<leftarrow> vec_put (t_globalHistory s) (tid_index tid) (th_globalHistory history);
     lh \<leftarrow> (if th_localHistoryIdx history \<noteq> invalidPredictorIndex
            then vec_put (t_localHistoryTable s) (unat (th_localHistoryIdx history)) (th_localHistory history)
            else Some (t_localHistoryTable s));
     Some (s\<lparr>t_globalHistory := gh, t_localHistoryTable := lh\<rparr>) }"

definition t_getGHR :: "TournamentBP \<Rightarrow> ThreadID \<Rightarrow> TBPHistory option \<Rightarrow> unsigned option" where
  "t_getGHR s tid bp_history = map_option th_globalHistory bp_history"

definition TournamentDir :: "(TournamentBP, TBPHistory) DirPred" where
  "TournamentDir = \<lparr>dp_lookup = t_lookup, dp_uncondBranch = t_uncondBranch, dp_btbUpdate = t_btbUpdate,
     dp_update = t_update, dp_squash = t_squash, dp_getGHR = t_getGHR\<rparr>"

subsection \<open>Invariant\<close>

definition tour_cfg_ok :: "TournamentCfg \<Rightarrow> bool" where
  "tour_cfg_ok c \<longleftrightarrow> unat (t_instShiftAmt c) < 64 \<and>
     t_localPredictorSize c \<noteq> 0 \<and> t_localPredictorMask c = t_localPredictorSize c - 1 \<and>
     t_localHistoryTableSize c \<noteq> 0 \<and>
     t_globalPredictorSize c \<noteq> 0 \<and> t_globalHistoryMask c = t_globalPredictorSize c - 1 \<and>
     t_choicePredictorSize c \<noteq> 0 \<and> t_choiceHistoryMask c = t_choicePredictorSize c - 1 \<and>
     (\<exists>k<32. t_historyRegisterMask c = mask k)"

definition tour_ok :: "TournamentBP \<Rightarrow> bool" where
  "tour_ok s \<longleftrightarrow> tour_cfg_ok (t_cfg s) \<and>
     ctrs_ok (t_localPredictorSize (t_cfg s)) (t_localCtrBits (t_cfg s)) (t_localCtrs s) \<and>
     ctrs_ok (t_globalPredictorSize (t_cfg s)) (t_globalCtrBits (t_cfg s)) (t_globalCtrs s) \<and>
     ctrs_ok (t_choicePredictorSize (t_cfg s)) (t_choiceCtrBits (t_cfg s)) (t_choiceCtrs s) \<and>
     length (t_localHistoryTable s) = unat (t_localHistoryTableSize (t_cfg s)) \<and>
     length (t_globalHistory s) = unat (t_numThreads (t_cfg s))"

definition tour_hist_ok :: "TournamentCfg \<Rightarrow> TBPHistory option \<Rightarrow> bool" where
  "tour_hist_ok c ho \<longleftrightarrow> (case ho of None \<Rightarrow> False | Some h \<Rightarrow>
     th_localHistoryIdx h = invalidPredictorIndex \<or> th_localHistoryIdx h < t_localHistoryTableSize c)"

definition tour_threads :: "TournamentCfg \<Rightarrow> nat" where
  "tour_threads c = unat (t_numThreads c)"

text \<open>The accesses of the operations are in range.\<close>

lemma tour_range:
  assumes "tour_ok s"
  shows "unat (t_instShiftAmt (t_cfg s)) < 64"
    and "unat (lhi sh (t_localHistoryTableSize (t_cfg s)) a) < length (t_localHistoryTable s)"
    and "lhi sh (t_localHistoryTableSize (t_cfg s)) a < t_localHistoryTableSize (t_cfg s)"
    and "unat (x AND t_localPredictorMask (t_cfg s)) < length (t_localCtrs s)"
    and "x AND t_localPredictorMask (t_cfg s) < t_localPredictorSize (t_cfg s)"
    and "unat (x AND t_globalHistoryMask (t_cfg s)) < length (t_globalCtrs s)"
    and "unat (x AND t_choiceHistoryMask (t_cfg s)) < length (t_choiceCtrs s)"
  using assms
  by (auto simp: tour_ok_def tour_cfg_ok_def lhi_less unat_and_less ctrs_ok_def word_less_nat_alt)

text \<open>The history object and the prediction as functions of the state.\<close>

definition t_idx :: "TournamentBP \<Rightarrow> Addr \<Rightarrow> unsigned" where
  "t_idx s a = lhi (t_instShiftAmt (t_cfg s)) (t_localHistoryTableSize (t_cfg s)) a"

definition t_hist :: "TournamentBP \<Rightarrow> ThreadID \<Rightarrow> Addr \<Rightarrow> TBPHistory" where
  "t_hist s t a = (let c = t_cfg s; gh = t_globalHistory s ! tid_index t;
       lp = (t_localHistoryTable s ! unat (t_idx s a)) AND t_localPredictorMask c in
     \<lparr>th_globalHistory = gh, th_localHistoryIdx = t_idx s a, th_localHistory = lp,
      th_localPredTaken = above (t_localThreshold c) (t_localCtrs s ! unat lp),
      th_globalPredTaken = above (t_globalThreshold c) (t_globalCtrs s ! unat (gh AND t_globalHistoryMask c)),
      th_globalUsed = above (t_choiceThreshold c) (t_choiceCtrs s ! unat (gh AND t_choiceHistoryMask c))\<rparr>)"

definition t_verdict :: "TBPHistory \<Rightarrow> bool" where
  "t_verdict h = (if th_globalUsed h then th_globalPredTaken h else th_localPredTaken h)"

definition t_spec :: "TournamentBP \<Rightarrow> ThreadID \<Rightarrow> Addr \<Rightarrow> bool \<Rightarrow> TournamentBP" where
  "t_spec s t a b = s\<lparr>
     t_globalHistory := (t_globalHistory s)[tid_index t :=
       shift_in (t_globalHistory s ! tid_index t) b AND t_historyRegisterMask (t_cfg s)],
     t_localHistoryTable := (t_localHistoryTable s)[unat (t_idx s a) :=
       shift_in (t_localHistoryTable s ! unat (t_idx s a)) b]\<rparr>"

lemma t_calcLocHistIdx_eq: "tour_ok s \<Longrightarrow> t_calcLocHistIdx (t_cfg s) a = Some (t_idx s a)"
  by (simp add: t_calcLocHistIdx_def t_idx_def loc_hist_idx_eq tour_range)

lemmas tour_hist_updates = t_updateGlobalHistTaken_def t_updateGlobalHistNotTaken_def
  t_updateLocalHistTaken_def t_updateLocalHistNotTaken_def

lemma t_lookup_eq:
  assumes "tour_ok s" and "tid_index t < length (t_globalHistory s)"
  shows "t_lookup s t a = Some (t_verdict (t_hist s t a), Some (t_hist s t a), t_spec s t a (t_verdict (t_hist s t a)))"
proof -
  note r = tour_range [OF assms(1)]
  have i: "unat (t_idx s a) < length (t_localHistoryTable s)" "t_idx s a < t_localHistoryTableSize (t_cfg s)"
    using r(2,3) by (simp_all add: t_idx_def)
  show ?thesis
    using assms(2) r i
    by (simp add: t_lookup_def t_calcLocHistIdx_eq [OF assms(1)] vec_at_Some assert_that_True Let_def)
      (simp add: tour_hist_updates vec_mod_Some t_hist_def t_verdict_def t_spec_def Let_def)
qed

lemma t_uncond_eq:
  assumes "tour_ok s" and "tid_index t < length (t_globalHistory s)"
  shows "t_uncondBranch s t a = Some (Some \<lparr>th_globalHistory = t_globalHistory s ! tid_index t,
      th_localHistoryIdx = invalidPredictorIndex, th_localHistory = invalidPredictorIndex, th_localPredTaken = True,
      th_globalPredTaken = True, th_globalUsed = True\<rparr>,
    s\<lparr>t_globalHistory := (t_globalHistory s)[tid_index t :=
      shift_in (t_globalHistory s ! tid_index t) True AND t_historyRegisterMask (t_cfg s)]\<rparr>)"
  using assms by (simp add: t_uncondBranch_def t_updateGlobalHistTaken_def fault_simps)

lemma t_btbUpdate_eq:
  assumes "tour_ok s" and "tid_index t < length (t_globalHistory s)"
  shows "t_btbUpdate s t a h = Some (s\<lparr>
    t_globalHistory := (t_globalHistory s)[tid_index t :=
      clear_lsb (t_historyRegisterMask (t_cfg s)) (t_globalHistory s ! tid_index t)],
    t_localHistoryTable := (t_localHistoryTable s)[unat (t_idx s a) :=
      clear_lsb (t_localPredictorMask (t_cfg s)) (t_localHistoryTable s ! unat (t_idx s a))]\<rparr>)"
proof -
  have "unat (t_idx s a) < length (t_localHistoryTable s)" using tour_range(2) [OF assms(1)] by (simp add: t_idx_def)
  then show ?thesis using assms(2) by (simp add: t_btbUpdate_def t_calcLocHistIdx_eq [OF assms(1)] fault_simps)
qed

lemma t_squash_eq:
  assumes "tour_ok s" and "tid_index t < length (t_globalHistory s)" and "tour_hist_ok (t_cfg s) (Some h)"
  shows "t_squash s t (Some h) = Some (s\<lparr>
    t_globalHistory := (t_globalHistory s)[tid_index t := th_globalHistory h],
    t_localHistoryTable := (if th_localHistoryIdx h = invalidPredictorIndex then t_localHistoryTable s
      else (t_localHistoryTable s)[unat (th_localHistoryIdx h) := th_localHistory h])\<rparr>)"
  using assms by (auto simp: t_squash_def tour_hist_ok_def tour_ok_def fault_simps word_less_nat_alt)

lemma t_stats_frame [simp]:
  "t_cfg (t_updateAdditionalStats s b h) = t_cfg s"
  "t_localCtrs (t_updateAdditionalStats s b h) = t_localCtrs s"
  "t_localHistoryTable (t_updateAdditionalStats s b h) = t_localHistoryTable s"
  "t_globalCtrs (t_updateAdditionalStats s b h) = t_globalCtrs s"
  "t_globalHistory (t_updateAdditionalStats s b h) = t_globalHistory s"
  "t_choiceCtrs (t_updateAdditionalStats s b h) = t_choiceCtrs s"
  by (simp_all add: t_updateAdditionalStats_def Let_def)

lemma t_update_squashed_eq:
  assumes "tour_ok s" and "tid_index t < length (t_globalHistory s)"
  shows "t_update s t a taken (Some h) True = Some ((t_updateAdditionalStats s taken h)\<lparr>
    t_globalHistory := (t_globalHistory s)[tid_index t := shift_in (th_globalHistory h) taken AND t_historyRegisterMask (t_cfg s)],
    t_localHistoryTable := (if th_localHistory h = invalidPredictorIndex then t_localHistoryTable s
      else (t_localHistoryTable s)[unat (t_idx s a) := shift_in (th_localHistory h) taken])\<rparr>)"
proof -
  have "unat (t_idx s a) < length (t_localHistoryTable s)" "t_idx s a < t_localHistoryTableSize (t_cfg s)"
    using tour_range(2,3) [OF assms(1)] by (simp_all add: t_idx_def)
  then show ?thesis using assms(2) by (simp add: t_update_def t_calcLocHistIdx_eq [OF assms(1)] fault_simps Let_def)
qed

text \<open>The counters a commit trains, and how.\<close>

definition t_choice_step :: "bool \<Rightarrow> TBPHistory \<Rightarrow> SatCounter \<Rightarrow> SatCounter" where
  "t_choice_step taken h =
     (if th_localPredTaken h \<noteq> th_globalPredTaken h \<and> th_localHistory h \<noteq> invalidPredictorIndex
      then train (th_globalPredTaken h = taken) else id)"

lemma t_update_commit_eq:
  assumes "tour_ok s"
  shows "t_update s t a taken (Some h) False = Some ((t_updateAdditionalStats s taken h)\<lparr>
    t_choiceCtrs := (let i = unat (th_globalHistory h AND t_choiceHistoryMask (t_cfg s)) in
      (t_choiceCtrs s)[i := t_choice_step taken h (t_choiceCtrs s ! i)]),
    t_globalCtrs := (let i = unat (th_globalHistory h AND t_globalHistoryMask (t_cfg s)) in
      (t_globalCtrs s)[i := train taken (t_globalCtrs s ! i)]),
    t_localCtrs := (let i = unat (th_localHistory h AND t_localPredictorMask (t_cfg s)) in
      (if th_localHistory h = invalidPredictorIndex then t_localCtrs s
       else (t_localCtrs s)[i := train taken (t_localCtrs s ! i)]))\<rparr>)"
proof -
  note r = tour_range [OF assms]
  have "t_idx s a < t_localHistoryTableSize (t_cfg s)" using r(3) by (simp add: t_idx_def)
  then show ?thesis
    using r by (auto simp: t_update_def t_calcLocHistIdx_eq [OF assms] fault_simps Let_def t_choice_step_def train_def)
qed

lemma t_choice_step_ok: "ctrs_ok sz bits cs \<Longrightarrow> ctrs_ok sz bits (cs[i := t_choice_step b h (cs ! i)])"
  by (cases "i < length cs") (auto simp: t_choice_step_def ctrs_ok_train_at list_update_beyond)

subsection \<open>The contracts of the base class\<close>

definition tour_undo :: "ThreadID \<Rightarrow> TBPHistory option \<Rightarrow> unsigned list \<Rightarrow> unsigned list" where
  "tour_undo t ho gh = (case ho of None \<Rightarrow> gh | Some h \<Rightarrow> gh[tid_index t := th_globalHistory h])"

lemma TournamentDir_simps [simp]:
  "dp_lookup TournamentDir = t_lookup" "dp_uncondBranch TournamentDir = t_uncondBranch"
  "dp_btbUpdate TournamentDir = t_btbUpdate" "dp_update TournamentDir = t_update"
  "dp_squash TournamentDir = t_squash" "dp_getGHR TournamentDir = t_getGHR"
  by (simp_all add: TournamentDir_def)

lemma tour_threads_length: "tour_ok s \<Longrightarrow> tour_threads (t_cfg s) = length (t_globalHistory s)"
  by (simp add: tour_ok_def tour_threads_def)

lemma tour_ok_frame:
  "tour_ok s \<Longrightarrow> t_cfg s' = t_cfg s \<Longrightarrow> t_localCtrs s' = t_localCtrs s \<Longrightarrow> t_globalCtrs s' = t_globalCtrs s \<Longrightarrow>
   t_choiceCtrs s' = t_choiceCtrs s \<Longrightarrow> length (t_localHistoryTable s') = length (t_localHistoryTable s) \<Longrightarrow>
   length (t_globalHistory s') = length (t_globalHistory s) \<Longrightarrow> tour_ok s'"
  by (simp add: tour_ok_def)

lemma tour_spec_ok: "tour_ok s \<Longrightarrow> tour_ok (t_spec s t a b)"
  by (erule tour_ok_frame) (simp_all add: t_spec_def)

lemma tour_hist_ok_lookup: "tour_ok s \<Longrightarrow> tour_hist_ok (t_cfg s) (Some (t_hist s t a))"
  using tour_range(3) by (simp add: tour_hist_ok_def t_hist_def t_idx_def Let_def)

lemma tour_commit_ok:
  assumes "tour_ok s" and "t_update s t a taken (Some h) False = Some s'"
  shows "tour_ok s'"
  using assms by (auto simp: t_update_commit_eq tour_ok_def ctrs_ok_train_at t_choice_step_ok Let_def)

interpretation tour: speculative_predictor TournamentDir tour_ok t_cfg tour_threads tour_hist_ok t_globalHistory tour_undo
proof unfold_locales
  fix s s' s'' :: TournamentBP and t :: ThreadID and a :: Addr and h :: "TBPHistory option" and b q :: bool
  assume ok: "tour_ok s" and "tid_index t < tour_threads (t_cfg s)"
  then have i: "tid_index t < length (t_globalHistory s)" by (simp add: tour_threads_length)
  let ?l = "t_spec s t a (t_verdict (t_hist s t a))"
  have okl: "tour_ok ?l" by (rule tour_spec_ok [OF ok])
  show "\<exists>b h s'. dp_lookup TournamentDir s t a = Some (b, h, s') \<and> tour_ok s' \<and> t_cfg s' = t_cfg s \<and> tour_hist_ok (t_cfg s) h"
    using okl by (simp add: t_lookup_eq [OF ok i] tour_hist_ok_lookup [OF ok]) (simp add: t_spec_def)
  show "\<exists>h s'. dp_uncondBranch TournamentDir s t a = Some (h, s') \<and> tour_ok s' \<and> t_cfg s' = t_cfg s \<and> tour_hist_ok (t_cfg s) h"
    by (simp add: t_uncond_eq [OF ok i] tour_hist_ok_def tour_ok_frame [OF ok])
  show "dp_lookup TournamentDir s t a = Some (b, h, s') \<Longrightarrow> tour_undo t h (t_globalHistory s') = t_globalHistory s"
    using i by (auto simp: t_lookup_eq [OF ok i] tour_undo_def t_spec_def t_hist_def Let_def)
  show "dp_uncondBranch TournamentDir s t a = Some (h, s') \<Longrightarrow> tour_undo t h (t_globalHistory s') = t_globalHistory s"
    using i by (auto simp: t_uncond_eq [OF ok i] tour_undo_def)
  show "dp_lookup TournamentDir s t a = Some (b, h, s') \<Longrightarrow> dp_btbUpdate TournamentDir s' t a h = Some s'' \<Longrightarrow>
      tour_undo t h (t_globalHistory s'') = t_globalHistory s"
    using i okl
    by (auto simp: t_lookup_eq [OF ok i] t_btbUpdate_eq tour_undo_def t_hist_def Let_def) (auto simp: t_spec_def t_btbUpdate_eq)
  show "dp_uncondBranch TournamentDir s t a = Some (h, s') \<Longrightarrow> dp_btbUpdate TournamentDir s' t a h = Some s'' \<Longrightarrow>
      tour_undo t h (t_globalHistory s'') = t_globalHistory s"
    using i by (auto simp: t_uncond_eq [OF ok i] t_btbUpdate_eq tour_ok_frame [OF ok] tour_undo_def)
  assume "tour_hist_ok (t_cfg s) h"
  then obtain x where h: "h = Some x" "tour_hist_ok (t_cfg s) (Some x)" by (cases h) (auto simp: tour_hist_ok_def)
  show "\<exists>s'. dp_btbUpdate TournamentDir s t a h = Some s' \<and> tour_ok s' \<and> t_cfg s' = t_cfg s"
    by (simp add: t_btbUpdate_eq [OF ok i] tour_ok_frame [OF ok])
  show "\<exists>s'. dp_update TournamentDir s t a b h q = Some s' \<and> tour_ok s' \<and> t_cfg s' = t_cfg s"
    using tour_commit_ok [OF ok, of t a b x]
    by (cases q) (auto simp: h(1) t_update_squashed_eq [OF ok i] t_update_commit_eq [OF ok] intro: tour_ok_frame [OF ok])
  show "\<exists>s'. dp_squash TournamentDir s t h = Some s' \<and> tour_ok s' \<and> t_cfg s' = t_cfg s"
    by (simp add: h(1) t_squash_eq [OF ok i h(2)] tour_ok_frame [OF ok])
  show "\<exists>g. dp_getGHR TournamentDir s t h = Some g" by (simp add: h(1) t_getGHR_def)
  show "dp_squash TournamentDir s t h = Some s' \<Longrightarrow> t_globalHistory s' = tour_undo t h (t_globalHistory s)"
    by (auto simp: h(1) t_squash_eq [OF ok i h(2)] tour_undo_def)
  show "dp_update TournamentDir s t a b h False = Some s' \<Longrightarrow> t_globalHistory s' = t_globalHistory s"
    by (auto simp: h(1) t_update_commit_eq [OF ok])
qed

subsection \<open>The constructed predictor\<close>

lemma TournamentBP_new_ok:
  assumes "TournamentBP_new junk p = Inr s" and "unat (tp_instShiftAmt p) < 64"
  shows "tour_ok s" and "t_numThreads (t_cfg s) = tp_numThreads p"
proof -
  obtain lb gb cb lc gc cc lt gt ct where
    d: "ceilLog2 (tp_localPredictorSize p) = Some lb" "ceilLog2 (tp_globalPredictorSize p) = Some gb"
      "ceilLog2 (tp_choicePredictorSize p) = Some cb" "isPowerOf2 (tp_localPredictorSize p)"
      "isPowerOf2 (tp_globalPredictorSize p)" "isPowerOf2 (tp_localHistoryTableSize p)" "isPowerOf2 (tp_choicePredictorSize p)"
    and c: "fresh_counters junk (tp_localPredictorSize p) (tp_localCtrBits p) = Some lc"
      "fresh_counters junk (tp_globalPredictorSize p) (tp_globalCtrBits p) = Some gc"
      "fresh_counters junk (tp_choicePredictorSize p) (tp_choiceCtrBits p) = Some cc"
    and s: "s = \<lparr>t_cfg = \<lparr>t_numThreads = tp_numThreads p, t_instShiftAmt = tp_instShiftAmt p,
               t_localPredictorSize = tp_localPredictorSize p, t_localPredictorMask = ucast (mask64 lb),
               t_localCtrBits = tp_localCtrBits p, t_localHistoryTableSize = tp_localHistoryTableSize p,
               t_localHistoryBits = of_nat lb, t_globalPredictorSize = tp_globalPredictorSize p,
               t_globalCtrBits = tp_globalCtrBits p, t_globalHistoryBits = of_nat (if gb > cb then gb else cb),
               t_globalHistoryMask = tp_globalPredictorSize p - 1, t_choiceHistoryMask = tp_choicePredictorSize p - 1,
               t_historyRegisterMask = ucast (mask64 (if gb > cb then gb else cb)),
               t_choicePredictorSize = tp_choicePredictorSize p, t_choiceCtrBits = tp_choiceCtrBits p,
               t_localThreshold = lt, t_globalThreshold = gt, t_choiceThreshold = ct\<rparr>,
            t_localCtrs = lc, t_localHistoryTable = replicate (unat (tp_localHistoryTableSize p)) 0,
            t_globalCtrs = gc, t_globalHistory = replicate (unat (tp_numThreads p)) 0, t_choiceCtrs = cc, t_stats = zero_stats\<rparr>"
    using assms(1) by (auto simp: TournamentBP_new_def ebind_eq_Inr Let_def)
  have nz: "tp_localPredictorSize p \<noteq> 0" "tp_globalPredictorSize p \<noteq> 0" "tp_choicePredictorSize p \<noteq> 0"
    "tp_localHistoryTableSize p \<noteq> 0" using d(4-7) by (auto simp: isPowerOf2_def)
  have m: "ucast (mask64 lb) = tp_localPredictorSize p - 1" "gb < 32" "cb < 32"
    using ceilLog2_mask [OF d(4)] ceilLog2_mask [OF d(5)] ceilLog2_mask [OF d(7)] d(1-3) by auto
  have "(ucast (mask64 k) :: unsigned) = mask k" if "k < 32" for k
    using ucast_mask64 [OF that] by (simp add: mask_eq_exp_minus_1)
  then show "tour_ok s"
    using nz m assms(2) ctrs_ok_fresh [OF c(1)] ctrs_ok_fresh [OF c(2)] ctrs_ok_fresh [OF c(3)]
    by (auto simp: tour_ok_def tour_cfg_ok_def s intro: exI [of _ gb] exI [of _ cb])
  show "t_numThreads (t_cfg s) = tp_numThreads p" by (simp add: s)
qed

text \<open>A small instance, and a unit built on it.\<close>

definition sample_tour_params :: TournamentParams where
  "sample_tour_params = \<lparr>tp_numThreads = 1, tp_instShiftAmt = 2, tp_localPredictorSize = 2, tp_localCtrBits = 2,
     tp_localHistoryTableSize = 2, tp_globalPredictorSize = 4, tp_globalCtrBits = 2, tp_choicePredictorSize = 4,
     tp_choiceCtrBits = 2\<rparr>"

definition sample_tour :: TournamentBP where
  "sample_tour = projr (TournamentBP_new 0 sample_tour_params)"

definition sample_tour_unit :: "(TournamentBP, TBPHistory, Addr) BPredUnit" where
  "sample_tour_unit = projr (BPredUnit_new sample_isa 0 sample_bp sample_tour)"

lemma sample_tour_new: "TournamentBP_new 0 sample_tour_params = Inr sample_tour"
  by code_simp

lemma sample_tour_unit_new: "BPredUnit_new sample_isa 0 sample_bp sample_tour = Inr sample_tour_unit"
  by code_simp

lemma sample_tour_ok: "tour_ok sample_tour"
  by (rule TournamentBP_new_ok [OF sample_tour_new]) code_simp

lemma sample_tour_unit_ok: "unit_ok tour_ok t_cfg tour_threads tour_hist_ok sample_tour_unit"
  by (rule tour.BPredUnit_new_ok [OF sample_tour_unit_new sample_bp_ok sample_tour_ok]) code_simp

subsection \<open>Properties\<close>



text \<open>
  \<^bold>\<open>C14.\<close> A squash undoes speculation: after any run of predictions younger than \<open>sn\<close>, squashing
  to \<open>sn\<close> gives back the global histories of all threads, the queue of outstanding predictions
  and the indirect predictor; the return address stack has its old top index and its old
  contents except for as many of its deepest entries as the run had calls.
\<close>

theorem tournament_squash_restores:
  assumes "unit_ok tour_ok t_cfg tour_threads tour_hist_ok u" and "tid_index t < unat (bp_numThreads u)"
    and "seq_bound t u sn" and "sorted_wrt (<) (sn # map (fst \<circ> snd) qs)"
  shows "\<exists>u1 u2. predicts TournamentDir isa t u qs = Some u1 \<and> bp_squash TournamentDir u1 sn t = Some u2 \<and>
    t_globalHistory (dir u2) = t_globalHistory (dir u) \<and> predHist u2 = predHist u \<and> iPred u2 = iPred u \<and>
    bp_BTB u2 = bp_BTB u \<and>
    ras_agree (unat (ras_numEntries (bp_RAS u ! tid_index t)) -
        calls (filter (\<lambda>e. sn < seqNum e) (predHist u1 ! tid_index t)))
      (bp_RAS u2 ! tid_index t) (bp_RAS u ! tid_index t)"
  by (rule tour.run_then_squash [OF assms])

theorem tournament_squash_restores_witness:
  "\<exists>u1 u2. predicts TournamentDir sample_isa 0 sample_tour_unit
      [(cond_branch, 1, 0x40), (call_inst, 2, 0x44), (return_inst, 3, 0x80), (indirect_jump, 4, 0x48)] = Some u1 \<and>
    bp_squash TournamentDir u1 0 0 = Some u2 \<and>
    t_globalHistory (dir u2) = t_globalHistory (dir sample_tour_unit) \<and> predHist u2 = predHist sample_tour_unit \<and>
    iPred u2 = iPred sample_tour_unit \<and> bp_BTB u2 = bp_BTB sample_tour_unit \<and>
    ras_agree (unat (ras_numEntries (bp_RAS sample_tour_unit ! tid_index 0)) -
        calls (filter (\<lambda>e. 0 < seqNum e) (predHist u1 ! tid_index 0)))
      (bp_RAS u2 ! tid_index 0) (bp_RAS sample_tour_unit ! tid_index 0)"
  by (rule tournament_squash_restores [OF sample_tour_unit_ok]) code_simp+

text \<open>
  \<^bold>\<open>C15.\<close> The repair of a misprediction restores the histories saved at the lookup, whatever has
  happened to the predictor since: in any well-formed state \<open>s2\<close> of the same configuration, the
  update with \<open>squashed\<close> set makes the global history of the thread the one before the lookup
  followed by the actual outcome, the local history of the branch the one before the lookup, cut
  to the width of the local index, followed by the actual outcome, and it changes no other
  history and no counter.
\<close>

theorem tournament_mispredict_repair:
  assumes "tour_ok s" and "tid_index t < length (t_globalHistory s)"
    and "t_localPredictorMask (t_cfg s) = mask k" and "k < 32"
    and "t_lookup s t a = Some (b, h, s1)"
    and "tour_ok s2" and "t_cfg s2 = t_cfg s"
    and "t_update s2 t a taken h True = Some s3"
  shows "t_globalHistory s3 = (t_globalHistory s2)[tid_index t :=
      shift_in (t_globalHistory s ! tid_index t) taken AND t_historyRegisterMask (t_cfg s)] \<and>
    t_localHistoryTable s3 = (t_localHistoryTable s2)[unat (t_idx s a) :=
      shift_in (t_localHistoryTable s ! unat (t_idx s a) AND t_localPredictorMask (t_cfg s)) taken] \<and>
    t_localCtrs s3 = t_localCtrs s2 \<and> t_globalCtrs s3 = t_globalCtrs s2 \<and> t_choiceCtrs s3 = t_choiceCtrs s2"
proof -
  have h: "h = Some (t_hist s t a)" using assms(5) by (auto simp: t_lookup_eq [OF assms(1,2)])
  have i2: "tid_index t < length (t_globalHistory s2)"
    using assms(2) tour_threads_length [OF assms(1)] tour_threads_length [OF assms(6)] by (simp add: assms(7))
  let ?l = "t_localHistoryTable s ! unat (t_idx s a)"
  have idx: "t_idx s2 a = t_idx s a" by (simp add: t_idx_def assms(7))
  have inv: "th_localHistory (t_hist s t a) \<noteq> invalidPredictorIndex"
  proof
    assume "th_localHistory (t_hist s t a) = invalidPredictorIndex"
    then have "bit (?l AND mask k) 31" by (simp add: t_hist_def Let_def assms(3) invalidPredictorIndex_def)
    then show False using assms(4) by (simp add: bit_simps)
  qed
  have "th_globalHistory (t_hist s t a) = t_globalHistory s ! tid_index t"
    "th_localHistory (t_hist s t a) = ?l AND t_localPredictorMask (t_cfg s)" by (simp_all add: t_hist_def Let_def)
  then show ?thesis using assms(8) inv by (auto simp: h t_update_squashed_eq [OF assms(6) i2] assms(7) idx)
qed

text \<open>A younger branch is predicted before the misprediction of the first one is found.\<close>

theorem tournament_mispredict_repair_witness:
  "t_globalHistory (the (t_update (t_spec (t_spec sample_tour 0 0x40 False) 0 0x44 True) 0 0x40 True
    (Some (t_hist sample_tour 0 0x40)) True)) = [1]"
proof -
  let ?s1 = "t_spec sample_tour 0 0x40 False" and ?h = "Some (t_hist sample_tour 0 0x40)"
  let ?s2 = "t_spec ?s1 0 0x44 True"
  have l: "t_lookup sample_tour 0 0x40 = Some (False, ?h, ?s1)" by code_simp
  have u: "t_update ?s2 0 0x40 True ?h True = Some (the (t_update ?s2 0 0x40 True ?h True))" by code_simp
  have i: "tid_index 0 < length (t_globalHistory sample_tour)" "t_localPredictorMask (t_cfg sample_tour) = mask 1" by code_simp+
  have c: "t_cfg ?s2 = t_cfg sample_tour" by code_simp
  have ok: "tour_ok ?s2" by (intro tour_spec_ok sample_tour_ok)
  have "(1 :: nat) < 32" by simp
  from tournament_mispredict_repair [OF sample_tour_ok i this l ok c u]
  have "t_globalHistory (the (t_update ?s2 0 0x40 True ?h True)) = (t_globalHistory ?s2)[tid_index 0 :=
      shift_in (t_globalHistory sample_tour ! tid_index 0) True AND t_historyRegisterMask (t_cfg sample_tour)]" by blast
  also have "\<dots> = [1]" by code_simp
  finally show ?thesis .
qed

text \<open>
  \<^bold>\<open>C16.\<close> A commit trains exactly what the lookup read: the consulted local and global counter
  move towards the outcome, the consulted choice counter moves towards the global predictor if it
  was the only one that was right and away from it if only the local one was, and every other
  counter of the three tables keeps its value.
\<close>

theorem tournament_commit_trains:
  assumes "tour_ok s" and "tid_index t < length (t_globalHistory s)"
    and "t_lookup s t a = Some (b, Some h, s1)" and "th_localHistory h \<noteq> invalidPredictorIndex"
    and "t_update s1 t a taken (Some h) False = Some s2"
  shows "t_localCtrs s2 = (let i = unat (t_localHistoryTable s ! unat (t_idx s a) AND t_localPredictorMask (t_cfg s)) in
      (t_localCtrs s)[i := train taken (t_localCtrs s ! i)]) \<and>
    t_globalCtrs s2 = (let i = unat (t_globalHistory s ! tid_index t AND t_globalHistoryMask (t_cfg s)) in
      (t_globalCtrs s)[i := train taken (t_globalCtrs s ! i)]) \<and>
    t_choiceCtrs s2 = (let i = unat (t_globalHistory s ! tid_index t AND t_choiceHistoryMask (t_cfg s)) in
      (t_choiceCtrs s)[i := (if th_localPredTaken h = th_globalPredTaken h then id
        else train (th_globalPredTaken h = taken)) (t_choiceCtrs s ! i)]) \<and>
    t_globalHistory s2 = t_globalHistory s1 \<and> t_localHistoryTable s2 = t_localHistoryTable s1"
proof -
  have h: "h = t_hist s t a" and s1: "s1 = t_spec s t a b" using assms(3) by (auto simp: t_lookup_eq [OF assms(1,2)])
  have ok1: "tour_ok s1" by (simp add: s1 tour_spec_ok [OF assms(1)])
  have f: "t_cfg s1 = t_cfg s" "t_localCtrs s1 = t_localCtrs s" "t_globalCtrs s1 = t_globalCtrs s" "t_choiceCtrs s1 = t_choiceCtrs s"
    by (simp_all add: s1 t_spec_def)
  have g: "th_globalHistory h = t_globalHistory s ! tid_index t"
    "th_localHistory h = t_localHistoryTable s ! unat (t_idx s a) AND t_localPredictorMask (t_cfg s)"
    by (simp_all add: h t_hist_def Let_def)
  show ?thesis
    using assms(4,5) by (auto simp: t_update_commit_eq [OF ok1] f t_choice_step_def g Let_def)
qed

theorem tournament_commit_trains_witness:
  "map counter (t_globalCtrs (the (t_update (t_spec sample_tour 0 0x40 False) 0 0x40 True
    (Some (t_hist sample_tour 0 0x40)) False))) = [1, 0, 0, 0]"
proof -
  let ?h = "t_hist sample_tour 0 0x40" let ?s1 = "t_spec sample_tour 0 0x40 False"
  let ?s2 = "the (t_update ?s1 0 0x40 True (Some ?h) False)"
  have i: "tid_index 0 < length (t_globalHistory sample_tour)" by code_simp
  have l: "t_lookup sample_tour 0 0x40 = Some (False, Some ?h, ?s1)" by code_simp
  have v: "th_localHistory ?h \<noteq> invalidPredictorIndex" by code_simp
  have u: "t_update ?s1 0 0x40 True (Some ?h) False = Some ?s2" by code_simp
  have "t_globalCtrs ?s2 = (let i = unat (t_globalHistory sample_tour ! tid_index 0 AND t_globalHistoryMask (t_cfg sample_tour)) in
      (t_globalCtrs sample_tour)[i := train True (t_globalCtrs sample_tour ! i)])"
    using tournament_commit_trains [OF sample_tour_ok i l v u] by (elim conjE)
  moreover have "map counter (let i = unat (t_globalHistory sample_tour ! tid_index 0 AND t_globalHistoryMask (t_cfg sample_tour)) in
      (t_globalCtrs sample_tour)[i := train True (t_globalCtrs sample_tour ! i)]) = [1, 0, 0, 0]" by code_simp
  ultimately show ?thesis by (rule subst [OF sym, where P = "\<lambda>x. map counter x = _"])
qed

end
