(* ===== verification/Ensemble.thy ===== *)
theory Ensemble
  imports Sample_Config
begin

text \<open>
  \<open>cpu/pred/ensemble.hh\<close> and \<open>ensemble.cc\<close>: three experts (local, global, gshare) whose votes are
  weighted by one saturating counter each. The model is of the configuration the file compiles:
  \<open>USE_GSHARE\<close> and \<open>ENSEMBLE_SIZE_3\<close> defined, \<open>USE_FREE_WEIGHTS\<close> not.
\<close>

definition MAX_WEIGHT_SUM :: unsigned where
  "MAX_WEIGHT_SUM = 12"

definition WEIGHT_COUNTER_SIZE :: unsigned where
  "WEIGHT_COUNTER_SIZE = 4"

record EnsembleCfg =
  e_numThreads :: unsigned
  e_instShiftAmt :: unsigned
  e_localPredictorSize :: unsigned
  e_localPredictorMask :: unsigned
  e_localCtrBits :: unsigned
  e_localHistoryTableSize :: unsigned
  e_localHistoryBits :: unsigned
  e_globalPredictorSize :: unsigned
  e_globalCtrBits :: unsigned
  e_globalHistoryBits :: unsigned
  e_globalHistoryMask :: unsigned
  e_historyRegisterMask :: unsigned
  e_gsharePredictorSize :: unsigned
  e_gshareCtrBits :: unsigned
  e_localThreshold :: unsigned
  e_globalThreshold :: unsigned
  e_gshareThreshold :: unsigned

record EnsembleBP =
  e_cfg :: EnsembleCfg
  e_localCtrs :: "SatCounter list"
  e_localHistoryTable :: "unsigned list"
  e_globalCtrs :: "SatCounter list"
  e_globalHistory :: "unsigned list"
  e_gshareCtrs :: "SatCounter list"
  e_localWeight :: SatCounter
  e_globalWeight :: SatCounter
  e_gshareWeight :: SatCounter
  e_stats :: ExpertStats

text \<open>\<open>lookup\<close> leaves the member \<open>globalUsed\<close> uninitialised: \<open>None\<close>. Nothing reads it.\<close>

record EBPHistory =
  eh_globalHistory :: unsigned
  eh_localHistoryIdx :: unsigned
  eh_localHistory :: unsigned
  eh_localPredTaken :: bool
  eh_globalPredTaken :: bool
  eh_gsharePredTaken :: bool
  eh_globalUsed :: "bool option"
  eh_finalPrediction :: bool

record EnsembleParams =
  ep_numThreads :: unsigned
  ep_instShiftAmt :: unsigned
  ep_localPredictorSize :: unsigned
  ep_localCtrBits :: unsigned
  ep_localHistoryTableSize :: unsigned
  ep_globalPredictorSize :: unsigned
  ep_globalCtrBits :: unsigned
  ep_gsharePredictorSize :: unsigned
  ep_gshareCtrBits :: unsigned

text \<open>
  The constructor. The loop over each table also sets the width of the expert's weight, once per
  iteration; the tables are not empty when it runs, so the weight has its width afterwards.
\<close>

definition EnsembleBP_new :: "uint8 \<Rightarrow> EnsembleParams \<Rightarrow> bp_error + EnsembleBP" where
  "EnsembleBP_new junk p =
     ebind (no_fault (ceilLog2 (ep_localPredictorSize p))) (\<lambda>local_bits.
     ebind (no_fault (ceilLog2 (ep_globalPredictorSize p))) (\<lambda>global_bits.
     ebind (error_if (\<not> isPowerOf2 (ep_localPredictorSize p)) (Fatal ''Invalid local predictor size!'')) (\<lambda>_.
     ebind (error_if (\<not> isPowerOf2 (ep_globalPredictorSize p)) (Fatal ''Invalid global predictor size!'')) (\<lambda>_.
     ebind (error_if (\<not> isPowerOf2 (ep_gsharePredictorSize p)) (Fatal ''Invalid global predictor size!'')) (\<lambda>_.
     ebind (no_fault (fresh_counters junk (ep_localPredictorSize p) (ep_localCtrBits p))) (\<lambda>local_ctrs.
     ebind (no_fault (setBits WEIGHT_COUNTER_SIZE (SatCounter_default junk))) (\<lambda>local_weight.
     ebind (error_if (\<not> isPowerOf2 (ep_localHistoryTableSize p)) (Fatal ''Invalid local history table size!'')) (\<lambda>_.
     ebind (no_fault (fresh_counters junk (ep_globalPredictorSize p) (ep_globalCtrBits p))) (\<lambda>global_ctrs.
     ebind (no_fault (setBits WEIGHT_COUNTER_SIZE (SatCounter_default junk))) (\<lambda>global_weight.
     ebind (no_fault (fresh_counters junk (ep_gsharePredictorSize p) (ep_gshareCtrBits p))) (\<lambda>gshare_ctrs.
     ebind (no_fault (setBits WEIGHT_COUNTER_SIZE (SatCounter_default junk))) (\<lambda>gshare_weight.
     let global_mask = ep_globalPredictorSize p - 1;
         register_mask = ucast (mask64 global_bits) in
     ebind (error_if (global_mask > register_mask)
       (Fatal ''Global predictor too large for global history bits!'')) (\<lambda>_.
     ebind (no_fault (threshold_of_bits (ep_localCtrBits p))) (\<lambda>local_threshold.
     ebind (no_fault (threshold_of_bits (ep_globalCtrBits p))) (\<lambda>global_threshold.
     ebind (no_fault (threshold_of_bits (ep_gshareCtrBits p))) (\<lambda>gshare_threshold.
       Inr \<lparr>e_cfg =
              \<lparr>e_numThreads = ep_numThreads p, e_instShiftAmt = ep_instShiftAmt p,
               e_localPredictorSize = ep_localPredictorSize p,
               e_localPredictorMask = ucast (mask64 local_bits),
               e_localCtrBits = ep_localCtrBits p,
               e_localHistoryTableSize = ep_localHistoryTableSize p,
               e_localHistoryBits = of_nat local_bits,
               e_globalPredictorSize = ep_globalPredictorSize p,
               e_globalCtrBits = ep_globalCtrBits p,
               e_globalHistoryBits = of_nat global_bits,
               e_globalHistoryMask = global_mask,
               e_historyRegisterMask = register_mask,
               e_gsharePredictorSize = ep_gsharePredictorSize p,
               e_gshareCtrBits = ep_gshareCtrBits p,
               e_localThreshold = local_threshold,
               e_globalThreshold = global_threshold,
               e_gshareThreshold = gshare_threshold\<rparr>,
            e_localCtrs = local_ctrs,
            e_localHistoryTable = replicate (unat (ep_localHistoryTableSize p)) 0,
            e_globalCtrs = global_ctrs,
            e_globalHistory = replicate (unat (ep_numThreads p)) 0,
            e_gshareCtrs = gshare_ctrs,
            e_localWeight = local_weight,
            e_globalWeight = global_weight,
            e_gshareWeight = gshare_weight,
            e_stats = zero_stats\<rparr>))))))))))))))))"

definition e_calcLocHistIdx :: "EnsembleCfg \<Rightarrow> Addr \<Rightarrow> unsigned option" where
  "e_calcLocHistIdx c branch_addr = loc_hist_idx (e_instShiftAmt c) (e_localHistoryTableSize c) branch_addr"

definition e_updateGlobalHistTaken :: "EnsembleBP \<Rightarrow> ThreadID \<Rightarrow> EnsembleBP option" where
  "e_updateGlobalHistTaken s tid = do {
     gh \<leftarrow> vec_mod (\<lambda>h. (push_bit 1 h OR 1) AND e_historyRegisterMask (e_cfg s)) (e_globalHistory s) (tid_index tid);
     Some (s\<lparr>e_globalHistory := gh\<rparr>) }"

definition e_updateGlobalHistNotTaken :: "EnsembleBP \<Rightarrow> ThreadID \<Rightarrow> EnsembleBP option" where
  "e_updateGlobalHistNotTaken s tid = do {
     gh \<leftarrow> vec_mod (\<lambda>h. push_bit 1 h AND e_historyRegisterMask (e_cfg s)) (e_globalHistory s) (tid_index tid);
     Some (s\<lparr>e_globalHistory := gh\<rparr>) }"

definition e_updateLocalHistTaken :: "EnsembleBP \<Rightarrow> unsigned \<Rightarrow> EnsembleBP option" where
  "e_updateLocalHistTaken s local_history_idx = do {
     lh \<leftarrow> vec_mod (\<lambda>h. push_bit 1 h OR 1) (e_localHistoryTable s) (unat local_history_idx);
     Some (s\<lparr>e_localHistoryTable := lh\<rparr>) }"

definition e_updateLocalHistNotTaken :: "EnsembleBP \<Rightarrow> unsigned \<Rightarrow> EnsembleBP option" where
  "e_updateLocalHistNotTaken s local_history_idx = do {
     lh \<leftarrow> vec_mod (\<lambda>h. push_bit 1 h) (e_localHistoryTable s) (unat local_history_idx);
     Some (s\<lparr>e_localHistoryTable := lh\<rparr>) }"

definition e_btbUpdate :: "EnsembleBP \<Rightarrow> ThreadID \<Rightarrow> Addr \<Rightarrow> EBPHistory option \<Rightarrow> EnsembleBP option" where
  "e_btbUpdate s tid branch_addr bp_history = do {
     local_history_idx \<leftarrow> e_calcLocHistIdx (e_cfg s) branch_addr;
     gh \<leftarrow> vec_mod (clear_lsb (e_historyRegisterMask (e_cfg s))) (e_globalHistory s) (tid_index tid);
     lh \<leftarrow> vec_mod (clear_lsb (e_localPredictorMask (e_cfg s))) (e_localHistoryTable s) (unat local_history_idx);
     Some (s\<lparr>e_globalHistory := gh, e_localHistoryTable := lh\<rparr>) }"

text \<open>\<open>((branch_addr >> instShiftAmt) ^ globalHistory[tid]) & globalHistoryMask\<close>\<close>

definition e_gshareIdx :: "EnsembleCfg \<Rightarrow> Addr \<Rightarrow> unsigned \<Rightarrow> unsigned option" where
  "e_gshareIdx c branch_addr gh = do {
     a \<leftarrow> shr64 branch_addr (e_instShiftAmt c);
     Some (ucast ((a XOR ucast gh) AND ucast (e_globalHistoryMask c))) }"

text \<open>\<open>if (prediction) accumulation += weight.read(); else accumulation -= weight.read();\<close>\<close>

definition vote :: "bool \<Rightarrow> SatCounter \<Rightarrow> int \<Rightarrow> int" where
  "vote prediction weight accumulation =
     (if prediction then accumulation + uint (sat_read weight) else accumulation - uint (sat_read weight))"

definition e_lookup :: "EnsembleBP \<Rightarrow> ThreadID \<Rightarrow> Addr \<Rightarrow> (bool \<times> EBPHistory option \<times> EnsembleBP) option" where
  "e_lookup s tid branch_addr = do {
     let c = e_cfg s;
     local_history_idx \<leftarrow> e_calcLocHistIdx c branch_addr;
     lh \<leftarrow> vec_at (e_localHistoryTable s) (unat local_history_idx);
     let local_predictor_idx = lh AND e_localPredictorMask c;
     lc \<leftarrow> vec_at (e_localCtrs s) (unat local_predictor_idx);
     let local_prediction = above (e_localThreshold c) lc;
     gh \<leftarrow> vec_at (e_globalHistory s) (tid_index tid);
     gc \<leftarrow> vec_at (e_globalCtrs s) (unat (gh AND e_globalHistoryMask c));
     let global_prediction = above (e_globalThreshold c) gc;
     gshare_predictor_idx \<leftarrow> e_gshareIdx c branch_addr gh;
     sc \<leftarrow> vec_at (e_gshareCtrs s) (unat gshare_predictor_idx);
     let gshare_prediction = above (e_gshareThreshold c) sc;
     assert_that (gshare_predictor_idx < e_globalPredictorSize c);
     assert_that (local_history_idx < e_localHistoryTableSize c);
     let accumulation = vote global_prediction (e_globalWeight s) 0;
     let accumulation = vote local_prediction (e_localWeight s) accumulation;
     let accumulation = vote gshare_prediction (e_gshareWeight s) accumulation;
     let final = (accumulation \<ge> 0);
     let history = \<lparr>eh_globalHistory = gh, eh_localHistoryIdx = local_history_idx, eh_localHistory = local_predictor_idx,
       eh_localPredTaken = local_prediction, eh_globalPredTaken = global_prediction, eh_gsharePredTaken = gshare_prediction,
       eh_globalUsed = None, eh_finalPrediction = final\<rparr>;
     Some (final, Some history, s) }"

definition e_uncondBranch :: "EnsembleBP \<Rightarrow> ThreadID \<Rightarrow> Addr \<Rightarrow> (EBPHistory option \<times> EnsembleBP) option" where
  "e_uncondBranch s tid pc = do {
     gh \<leftarrow> vec_at (e_globalHistory s) (tid_index tid);
     let history = \<lparr>eh_globalHistory = gh, eh_localHistoryIdx = invalidPredictorIndex,
       eh_localHistory = invalidPredictorIndex, eh_localPredTaken = True, eh_globalPredTaken = True,
       eh_gsharePredTaken = True, eh_globalUsed = Some True, eh_finalPrediction = True\<rparr>;
     s \<leftarrow> e_updateGlobalHistTaken s tid;
     Some (Some history, s) }"

definition e_updateAdditionalStats ::
    "EnsembleBP \<Rightarrow> bool \<Rightarrow> EBPHistory \<Rightarrow> bool \<Rightarrow> bool \<Rightarrow> bool \<Rightarrow> EnsembleBP" where
  "e_updateAdditionalStats s taken history gshareContributed globalContributed localContributed =
     (let prediction = eh_finalPrediction history;
          localCorrect = (eh_localPredTaken history = taken);
          globalCorrect = (eh_globalPredTaken history = taken);
          gshareCorrect = (eh_gsharePredTaken history = taken);
          numCorrect = (of_bool localCorrect + of_bool globalCorrect + of_bool gshareCorrect :: nat);
          mispredict = (taken \<noteq> prediction);
          gsw = sat_read (e_gshareWeight s); gw = sat_read (e_globalWeight s); lw = sat_read (e_localWeight s);
          st = e_stats s;
          st = (if (\<not> gshareContributed \<and> globalContributed \<and> localContributed \<and> gsw > gw \<and> gsw > lw) \<or>
                   (gshareContributed \<and> \<not> globalContributed \<and> localContributed \<and> gw > gsw \<and> gw > lw) \<or>
                   (gshareContributed \<and> globalContributed \<and> \<not> localContributed \<and> lw > gsw \<and> lw > gw)
                then st\<lparr>lowWeightExpertsWon := lowWeightExpertsWon st + 1\<rparr> else st);
          st = (if eh_localPredTaken history = eh_globalPredTaken history \<and>
                   eh_globalPredTaken history = eh_gsharePredTaken history
                then if mispredict then st\<lparr>allExpertsWrong := allExpertsWrong st + 1\<rparr>
                     else st\<lparr>allExpertsRight := allExpertsRight st + 1\<rparr>
                else st);
          st = (if mispredict \<and> (eh_localPredTaken history = taken \<or> eh_globalPredTaken history = taken \<or>
                                eh_gsharePredTaken history = taken)
                then st\<lparr>atLeastOneCorrectExpertOnMispredict := atLeastOneCorrectExpertOnMispredict st + 1\<rparr> else st);
          st = (if mispredict then
                  if numCorrect = 1 then st\<lparr>oneCorrectExpert := oneCorrectExpert st + 1\<rparr>
                  else if numCorrect = 2 then st\<lparr>twoCorrectExpert := twoCorrectExpert st + 1\<rparr>
                  else if numCorrect = 3 then st\<lparr>threeCorrectExpert := threeCorrectExpert st + 1\<rparr>
                  else st
                else st)
      in s\<lparr>e_stats := st\<rparr>)"

text \<open>One expert's turn in the learning part: the loop of \<open>learningRate\<close> steps.\<close>

definition learn :: "bool \<Rightarrow> bool \<Rightarrow> nat \<Rightarrow> SatCounter \<Rightarrow> SatCounter" where
  "learn contributed right learningRate w =
     (if contributed then ((if right then increment else decrement) ^^ learningRate) w else w)"

text \<open>One expert's turn in the adjustment part.\<close>

definition adjust :: "bool \<Rightarrow> bool \<Rightarrow> nat \<Rightarrow> SatCounter \<Rightarrow> SatCounter" where
  "adjust contributed right adjustmentRate w =
     (if \<not> contributed then ((if right then decrement else increment) ^^ adjustmentRate) w else w)"

text \<open>\<open>contributorCount\<close> and the rates it selects.\<close>

definition contributors :: "EBPHistory \<Rightarrow> nat" where
  "contributors h = of_bool (eh_finalPrediction h = eh_globalPredTaken h) +
     of_bool (eh_finalPrediction h = eh_localPredTaken h) + of_bool (eh_finalPrediction h = eh_gsharePredTaken h)"

definition learning_rate :: "nat \<Rightarrow> nat" where
  "learning_rate n = (if n = 1 then 2 else if n = 2 then 1 else 0)"

definition adjustment_rate :: "nat \<Rightarrow> nat" where
  "adjustment_rate n = (if n = 1 then 1 else if n = 2 then 2 else 0)"

definition e_updateWeights :: "EnsembleBP \<Rightarrow> bool \<Rightarrow> EBPHistory \<Rightarrow> EnsembleBP" where
  "e_updateWeights s taken history =
     (let globalContributed = (eh_finalPrediction history = eh_globalPredTaken history);
          localContributed = (eh_finalPrediction history = eh_localPredTaken history);
          gshareContributed = (eh_finalPrediction history = eh_gsharePredTaken history);
          learningRate = learning_rate (contributors history);
          adjustmentRate = adjustment_rate (contributors history);
          right = (eh_finalPrediction history = taken);
          gsw = learn gshareContributed right learningRate (e_gshareWeight s);
          gw = learn globalContributed right learningRate (e_globalWeight s);
          lw = learn localContributed right learningRate (e_localWeight s);
          weightSum = (ucast (sat_read gsw) + ucast (sat_read gw) + ucast (sat_read lw) :: unsigned)
      in if weightSum > MAX_WEIGHT_SUM then
           s\<lparr>e_gshareWeight := adjust gshareContributed right adjustmentRate gsw,
             e_globalWeight := adjust globalContributed right adjustmentRate gw,
             e_localWeight := adjust localContributed right adjustmentRate lw\<rparr>
         else s\<lparr>e_gshareWeight := gsw, e_globalWeight := gw, e_localWeight := lw\<rparr>)"

definition e_update ::
    "EnsembleBP \<Rightarrow> ThreadID \<Rightarrow> Addr \<Rightarrow> bool \<Rightarrow> EBPHistory option \<Rightarrow> bool \<Rightarrow> EnsembleBP option" where
  "e_update s tid branch_addr taken bp_history squashed = do {
     history \<leftarrow> bp_history;
     let c = e_cfg s;
     local_history_idx \<leftarrow> e_calcLocHistIdx c branch_addr;
     assert_that (local_history_idx < e_localHistoryTableSize c);
     let old_local_pred_valid = (eh_localHistory history \<noteq> invalidPredictorIndex);
     if squashed then do {
       gh \<leftarrow> vec_put (e_globalHistory s) (tid_index tid)
              (shift_in (eh_globalHistory history) taken AND e_historyRegisterMask c);
       lh \<leftarrow> (if old_local_pred_valid
              then vec_put (e_localHistoryTable s) (unat local_history_idx) (shift_in (eh_localHistory history) taken)
              else Some (e_localHistoryTable s));
       Some (s\<lparr>e_globalHistory := gh, e_localHistoryTable := lh\<rparr>) }
     else do {
       let old_local_pred_index = eh_localHistory history AND e_localPredictorMask c;
       assert_that (old_local_pred_index < e_localPredictorSize c);
       let global_predictor_idx = eh_globalHistory history AND e_globalHistoryMask c;
       gh \<leftarrow> vec_at (e_globalHistory s) (tid_index tid);
       gshare_predictor_idx \<leftarrow> e_gshareIdx c branch_addr gh;
       let s = e_updateAdditionalStats s taken history (eh_finalPrediction history = eh_gsharePredTaken history)
         (eh_finalPrediction history = eh_globalPredTaken history) (eh_finalPrediction history = eh_localPredTaken history);
       let s = e_updateWeights s taken history;
       gc \<leftarrow> vec_mod (train taken) (e_globalCtrs s) (unat global_predictor_idx);
       sc \<leftarrow> vec_mod (train taken) (e_gshareCtrs s) (unat gshare_predictor_idx);
       lc \<leftarrow> (if old_local_pred_valid then vec_mod (train taken) (e_localCtrs s) (unat old_local_pred_index)
              else Some (e_localCtrs s));
       Some (s\<lparr>e_globalCtrs := gc, e_gshareCtrs := sc, e_localCtrs := lc\<rparr>) } }"

definition e_squash :: "EnsembleBP \<Rightarrow> ThreadID \<Rightarrow> EBPHistory option \<Rightarrow> EnsembleBP option" where
  "e_squash s tid bp_history = do {
     history \<leftarrow> bp_history;
     gh \<leftarrow> vec_put (e_globalHistory s) (tid_index tid) (eh_globalHistory history);
     lh \<leftarrow> (if eh_localHistoryIdx history \<noteq> invalidPredictorIndex
            then vec_put (e_localHistoryTable s) (unat (eh_localHistoryIdx history)) (eh_localHistory history)
            else Some (e_localHistoryTable s));
     Some (s\<lparr>e_globalHistory := gh, e_localHistoryTable := lh\<rparr>) }"

definition e_getGHR :: "EnsembleBP \<Rightarrow> ThreadID \<Rightarrow> EBPHistory option \<Rightarrow> unsigned option" where
  "e_getGHR s tid bp_history = map_option eh_globalHistory bp_history"

definition EnsembleDir :: "(EnsembleBP, EBPHistory) DirPred" where
  "EnsembleDir = \<lparr>dp_lookup = e_lookup, dp_uncondBranch = e_uncondBranch, dp_btbUpdate = e_btbUpdate,
     dp_update = e_update, dp_squash = e_squash, dp_getGHR = e_getGHR\<rparr>"

lemma EnsembleDir_simps [simp]:
  "dp_lookup EnsembleDir = e_lookup" "dp_uncondBranch EnsembleDir = e_uncondBranch"
  "dp_btbUpdate EnsembleDir = e_btbUpdate" "dp_update EnsembleDir = e_update"
  "dp_squash EnsembleDir = e_squash" "dp_getGHR EnsembleDir = e_getGHR"
  by (simp_all add: EnsembleDir_def)

subsection \<open>Invariant\<close>

text \<open>
  The gshare table is indexed with the mask of the global table, so it must be at least as
  large; the constructor does not check it.
\<close>

definition ens_cfg_ok :: "EnsembleCfg \<Rightarrow> bool" where
  "ens_cfg_ok c \<longleftrightarrow> unat (e_instShiftAmt c) < 64 \<and>
     e_localPredictorSize c \<noteq> 0 \<and> e_localPredictorMask c = e_localPredictorSize c - 1 \<and>
     e_localHistoryTableSize c \<noteq> 0 \<and>
     e_globalPredictorSize c \<noteq> 0 \<and> e_globalHistoryMask c = e_globalPredictorSize c - 1 \<and>
     e_globalPredictorSize c \<le> e_gsharePredictorSize c \<and>
     (\<exists>k<32. e_historyRegisterMask c = mask k)"

definition ens_ok :: "EnsembleBP \<Rightarrow> bool" where
  "ens_ok s \<longleftrightarrow> ens_cfg_ok (e_cfg s) \<and>
     ctrs_ok (e_localPredictorSize (e_cfg s)) (e_localCtrBits (e_cfg s)) (e_localCtrs s) \<and>
     ctrs_ok (e_globalPredictorSize (e_cfg s)) (e_globalCtrBits (e_cfg s)) (e_globalCtrs s) \<and>
     ctrs_ok (e_gsharePredictorSize (e_cfg s)) (e_gshareCtrBits (e_cfg s)) (e_gshareCtrs s) \<and>
     ctr_ok WEIGHT_COUNTER_SIZE (e_localWeight s) \<and> ctr_ok WEIGHT_COUNTER_SIZE (e_globalWeight s) \<and>
     ctr_ok WEIGHT_COUNTER_SIZE (e_gshareWeight s) \<and>
     length (e_localHistoryTable s) = unat (e_localHistoryTableSize (e_cfg s)) \<and>
     length (e_globalHistory s) = unat (e_numThreads (e_cfg s))"

definition ens_hist_ok :: "EnsembleCfg \<Rightarrow> EBPHistory option \<Rightarrow> bool" where
  "ens_hist_ok c ho \<longleftrightarrow> (case ho of None \<Rightarrow> False | Some h \<Rightarrow>
     eh_localHistoryIdx h = invalidPredictorIndex \<or> eh_localHistoryIdx h < e_localHistoryTableSize c)"

definition ens_threads :: "EnsembleCfg \<Rightarrow> nat" where
  "ens_threads c = unat (e_numThreads c)"

definition e_idx :: "EnsembleBP \<Rightarrow> Addr \<Rightarrow> unsigned" where
  "e_idx s a = lhi (e_instShiftAmt (e_cfg s)) (e_localHistoryTableSize (e_cfg s)) a"

definition e_gidx :: "EnsembleCfg \<Rightarrow> Addr \<Rightarrow> unsigned \<Rightarrow> unsigned" where
  "e_gidx c a gh = ucast ((drop_bit (unat (e_instShiftAmt c)) a XOR ucast gh) AND ucast (e_globalHistoryMask c))"

lemma ens_range:
  assumes "ens_ok s"
  shows "unat (e_instShiftAmt (e_cfg s)) < 64"
    and "unat (e_idx s a) < length (e_localHistoryTable s)" and "e_idx s a < e_localHistoryTableSize (e_cfg s)"
    and "unat (x AND e_localPredictorMask (e_cfg s)) < length (e_localCtrs s)"
    and "x AND e_localPredictorMask (e_cfg s) < e_localPredictorSize (e_cfg s)"
    and "unat (x AND e_globalHistoryMask (e_cfg s)) < length (e_globalCtrs s)"
    and "e_gidx (e_cfg s) a x < e_globalPredictorSize (e_cfg s)"
    and "unat (e_gidx (e_cfg s) a x) < length (e_gshareCtrs s)"
  using assms
  by (auto simp: ens_ok_def ens_cfg_ok_def e_idx_def e_gidx_def lhi_less unat_and_less unat_ucast_and_less ctrs_ok_def
      word_less_nat_alt word_le_nat_alt)
    (rule less_le_trans [OF unat_ucast_and_less], assumption+)

subsection \<open>The operations as equations\<close>

definition e_verdict :: "EnsembleBP \<Rightarrow> bool \<Rightarrow> bool \<Rightarrow> bool \<Rightarrow> bool" where
  "e_verdict s lp gp sp \<longleftrightarrow> 0 \<le> vote sp (e_gshareWeight s) (vote lp (e_localWeight s) (vote gp (e_globalWeight s) 0))"

definition e_hist :: "EnsembleBP \<Rightarrow> ThreadID \<Rightarrow> Addr \<Rightarrow> EBPHistory" where
  "e_hist s t a = (let c = e_cfg s; gh = e_globalHistory s ! tid_index t;
       li = (e_localHistoryTable s ! unat (e_idx s a)) AND e_localPredictorMask c;
       lp = above (e_localThreshold c) (e_localCtrs s ! unat li);
       gp = above (e_globalThreshold c) (e_globalCtrs s ! unat (gh AND e_globalHistoryMask c));
       sp = above (e_gshareThreshold c) (e_gshareCtrs s ! unat (e_gidx c a gh)) in
     \<lparr>eh_globalHistory = gh, eh_localHistoryIdx = e_idx s a, eh_localHistory = li, eh_localPredTaken = lp,
      eh_globalPredTaken = gp, eh_gsharePredTaken = sp, eh_globalUsed = None, eh_finalPrediction = e_verdict s lp gp sp\<rparr>)"

lemma e_hist_global [simp]: "eh_globalHistory (e_hist s t a) = e_globalHistory s ! tid_index t"
  by (simp add: e_hist_def Let_def)

lemma e_calcLocHistIdx_eq: "ens_ok s \<Longrightarrow> e_calcLocHistIdx (e_cfg s) a = Some (e_idx s a)"
  by (simp add: e_calcLocHistIdx_def e_idx_def loc_hist_idx_eq ens_range(1))

lemma e_gshareIdx_eq: "ens_ok s \<Longrightarrow> e_gshareIdx (e_cfg s) a gh = Some (e_gidx (e_cfg s) a gh)"
  by (simp add: e_gshareIdx_def e_gidx_def shr64_Some ens_range(1))

lemma e_lookup_eq:
  assumes "ens_ok s" and "tid_index t < length (e_globalHistory s)"
  shows "e_lookup s t a = Some (eh_finalPrediction (e_hist s t a), Some (e_hist s t a), s)"
  using assms(2) ens_range [OF assms(1)]
  by (simp add: e_lookup_def e_calcLocHistIdx_eq [OF assms(1)] e_gshareIdx_eq [OF assms(1)] fault_simps Let_def
      e_hist_def e_verdict_def)

lemma e_uncond_eq:
  assumes "tid_index t < length (e_globalHistory s)"
  shows "e_uncondBranch s t a = Some (Some \<lparr>eh_globalHistory = e_globalHistory s ! tid_index t,
      eh_localHistoryIdx = invalidPredictorIndex, eh_localHistory = invalidPredictorIndex, eh_localPredTaken = True,
      eh_globalPredTaken = True, eh_gsharePredTaken = True, eh_globalUsed = Some True, eh_finalPrediction = True\<rparr>,
    s\<lparr>e_globalHistory := (e_globalHistory s)[tid_index t :=
      shift_in (e_globalHistory s ! tid_index t) True AND e_historyRegisterMask (e_cfg s)]\<rparr>)"
  using assms by (simp add: e_uncondBranch_def e_updateGlobalHistTaken_def fault_simps)

lemma e_btbUpdate_eq:
  assumes "ens_ok s" and "tid_index t < length (e_globalHistory s)"
  shows "e_btbUpdate s t a h = Some (s\<lparr>
    e_globalHistory := (e_globalHistory s)[tid_index t :=
      clear_lsb (e_historyRegisterMask (e_cfg s)) (e_globalHistory s ! tid_index t)],
    e_localHistoryTable := (e_localHistoryTable s)[unat (e_idx s a) :=
      clear_lsb (e_localPredictorMask (e_cfg s)) (e_localHistoryTable s ! unat (e_idx s a))]\<rparr>)"
  using assms(2) ens_range(2) [OF assms(1)] by (simp add: e_btbUpdate_def e_calcLocHistIdx_eq [OF assms(1)] fault_simps)

lemma e_squash_eq:
  assumes "ens_ok s" and "tid_index t < length (e_globalHistory s)" and "ens_hist_ok (e_cfg s) (Some h)"
  shows "e_squash s t (Some h) = Some (s\<lparr>
    e_globalHistory := (e_globalHistory s)[tid_index t := eh_globalHistory h],
    e_localHistoryTable := (if eh_localHistoryIdx h = invalidPredictorIndex then e_localHistoryTable s
      else (e_localHistoryTable s)[unat (eh_localHistoryIdx h) := eh_localHistory h])\<rparr>)"
  using assms by (auto simp: e_squash_def ens_hist_ok_def ens_ok_def fault_simps word_less_nat_alt)

lemma e_update_squashed_eq:
  assumes "ens_ok s" and "tid_index t < length (e_globalHistory s)"
  shows "e_update s t a taken (Some h) True = Some (s\<lparr>
    e_globalHistory := (e_globalHistory s)[tid_index t := shift_in (eh_globalHistory h) taken AND e_historyRegisterMask (e_cfg s)],
    e_localHistoryTable := (if eh_localHistory h = invalidPredictorIndex then e_localHistoryTable s
      else (e_localHistoryTable s)[unat (e_idx s a) := shift_in (eh_localHistory h) taken])\<rparr>)"
  using assms(2) ens_range(2,3) [OF assms(1)]
  by (simp add: e_update_def e_calcLocHistIdx_eq [OF assms(1)] fault_simps Let_def)

lemma e_stats_frame [simp]:
  "e_cfg (e_updateAdditionalStats s b h x y z) = e_cfg s"
  "e_localCtrs (e_updateAdditionalStats s b h x y z) = e_localCtrs s"
  "e_localHistoryTable (e_updateAdditionalStats s b h x y z) = e_localHistoryTable s"
  "e_globalCtrs (e_updateAdditionalStats s b h x y z) = e_globalCtrs s"
  "e_globalHistory (e_updateAdditionalStats s b h x y z) = e_globalHistory s"
  "e_gshareCtrs (e_updateAdditionalStats s b h x y z) = e_gshareCtrs s"
  "e_localWeight (e_updateAdditionalStats s b h x y z) = e_localWeight s"
  "e_globalWeight (e_updateAdditionalStats s b h x y z) = e_globalWeight s"
  "e_gshareWeight (e_updateAdditionalStats s b h x y z) = e_gshareWeight s"
  by (simp_all add: e_updateAdditionalStats_def Let_def)

lemma e_weights_frame [simp]:
  "e_cfg (e_updateWeights s b h) = e_cfg s"
  "e_localCtrs (e_updateWeights s b h) = e_localCtrs s"
  "e_localHistoryTable (e_updateWeights s b h) = e_localHistoryTable s"
  "e_globalCtrs (e_updateWeights s b h) = e_globalCtrs s"
  "e_globalHistory (e_updateWeights s b h) = e_globalHistory s"
  "e_gshareCtrs (e_updateWeights s b h) = e_gshareCtrs s"
  "e_stats (e_updateWeights s b h) = e_stats s"
  by (simp_all add: e_updateWeights_def Let_def)

text \<open>The statistics and the weights after a commit, before the counters are trained.\<close>

definition e_scored :: "EnsembleBP \<Rightarrow> bool \<Rightarrow> EBPHistory \<Rightarrow> EnsembleBP" where
  "e_scored s taken h = e_updateWeights (e_updateAdditionalStats s taken h (eh_finalPrediction h = eh_gsharePredTaken h)
     (eh_finalPrediction h = eh_globalPredTaken h) (eh_finalPrediction h = eh_localPredTaken h)) taken h"

lemma e_update_commit_eq:
  assumes "ens_ok s" and "tid_index t < length (e_globalHistory s)"
  shows "e_update s t a taken (Some h) False = Some ((e_scored s taken h)\<lparr>
    e_globalCtrs := (let i = unat (eh_globalHistory h AND e_globalHistoryMask (e_cfg s)) in
      (e_globalCtrs s)[i := train taken (e_globalCtrs s ! i)]),
    e_gshareCtrs := (let i = unat (e_gidx (e_cfg s) a (e_globalHistory s ! tid_index t)) in
      (e_gshareCtrs s)[i := train taken (e_gshareCtrs s ! i)]),
    e_localCtrs := (let i = unat (eh_localHistory h AND e_localPredictorMask (e_cfg s)) in
      (if eh_localHistory h = invalidPredictorIndex then e_localCtrs s
       else (e_localCtrs s)[i := train taken (e_localCtrs s ! i)]))\<rparr>)"
  using assms(2) ens_range [OF assms(1)]
  by (simp add: e_update_def e_calcLocHistIdx_eq [OF assms(1)] e_gshareIdx_eq [OF assms(1)] fault_simps Let_def e_scored_def)

subsection \<open>The contracts of the base class\<close>

lemma learn_ok: "ctr_ok bits w \<Longrightarrow> ctr_ok bits (learn c r n w)"
proof -
  have "ctr_ok bits w \<Longrightarrow> ctr_ok bits ((f ^^ n) w)" if "\<And>w. ctr_ok bits w \<Longrightarrow> ctr_ok bits (f w)" for f
    using that by (induction n) auto
  then show "ctr_ok bits w \<Longrightarrow> ctr_ok bits (learn c r n w)"
    by (simp add: learn_def ctr_ok_step)
qed

lemma adjust_learn: "adjust c r n w = learn (\<not> c) (\<not> r) n w"
  by (simp add: adjust_def learn_def)

lemma ens_weights_ok:
  assumes "ctr_ok b (e_localWeight s)" and "ctr_ok b (e_globalWeight s)" and "ctr_ok b (e_gshareWeight s)"
  shows "ctr_ok b (e_localWeight (e_updateWeights s taken h)) \<and> ctr_ok b (e_globalWeight (e_updateWeights s taken h)) \<and>
    ctr_ok b (e_gshareWeight (e_updateWeights s taken h))"
  using assms by (simp add: e_updateWeights_def Let_def adjust_learn learn_ok)

lemma ens_ok_frame:
  "ens_ok s \<Longrightarrow> e_cfg s' = e_cfg s \<Longrightarrow> e_localCtrs s' = e_localCtrs s \<Longrightarrow> e_globalCtrs s' = e_globalCtrs s \<Longrightarrow>
   e_gshareCtrs s' = e_gshareCtrs s \<Longrightarrow> e_localWeight s' = e_localWeight s \<Longrightarrow> e_globalWeight s' = e_globalWeight s \<Longrightarrow>
   e_gshareWeight s' = e_gshareWeight s \<Longrightarrow> length (e_localHistoryTable s') = length (e_localHistoryTable s) \<Longrightarrow>
   length (e_globalHistory s') = length (e_globalHistory s) \<Longrightarrow> ens_ok s'"
  by (simp add: ens_ok_def)

lemma ens_commit_ok:
  assumes "ens_ok s" and "tid_index t < length (e_globalHistory s)" and "e_update s t a taken (Some h) False = Some s'"
  shows "ens_ok s' \<and> e_cfg s' = e_cfg s \<and> e_globalHistory s' = e_globalHistory s \<and> e_localHistoryTable s' = e_localHistoryTable s"
  using assms ens_weights_ok
  by (auto simp: e_update_commit_eq ens_ok_def ctrs_ok_train_at e_scored_def Let_def)

definition ens_undo :: "ThreadID \<Rightarrow> EBPHistory option \<Rightarrow> unsigned list \<Rightarrow> unsigned list" where
  "ens_undo t ho gh = (case ho of None \<Rightarrow> gh | Some h \<Rightarrow> gh[tid_index t := eh_globalHistory h])"

lemma ens_threads_length: "ens_ok s \<Longrightarrow> ens_threads (e_cfg s) = length (e_globalHistory s)"
  by (simp add: ens_ok_def ens_threads_def)

lemma ens_hist_ok_lookup: "ens_ok s \<Longrightarrow> ens_hist_ok (e_cfg s) (Some (e_hist s t a))"
  using ens_range(3) by (simp add: ens_hist_ok_def e_hist_def Let_def)

interpretation ens: speculative_predictor EnsembleDir ens_ok e_cfg ens_threads ens_hist_ok e_globalHistory ens_undo
proof unfold_locales
  fix s s' s'' :: EnsembleBP and t :: ThreadID and a :: Addr and h :: "EBPHistory option" and b q :: bool
  assume ok: "ens_ok s" and "tid_index t < ens_threads (e_cfg s)"
  then have i: "tid_index t < length (e_globalHistory s)" by (simp add: ens_threads_length)
  show "\<exists>b h s'. dp_lookup EnsembleDir s t a = Some (b, h, s') \<and> ens_ok s' \<and> e_cfg s' = e_cfg s \<and> ens_hist_ok (e_cfg s) h"
    using ok by (simp add: e_lookup_eq [OF ok i] ens_hist_ok_lookup [OF ok])
  show "\<exists>h s'. dp_uncondBranch EnsembleDir s t a = Some (h, s') \<and> ens_ok s' \<and> e_cfg s' = e_cfg s \<and> ens_hist_ok (e_cfg s) h"
    by (simp add: e_uncond_eq [OF i] ens_hist_ok_def ens_ok_frame [OF ok])
  show "dp_lookup EnsembleDir s t a = Some (b, h, s') \<Longrightarrow> ens_undo t h (e_globalHistory s') = e_globalHistory s"
    using i ok by (auto simp: e_lookup_eq ens_undo_def)
  show "dp_uncondBranch EnsembleDir s t a = Some (h, s') \<Longrightarrow> ens_undo t h (e_globalHistory s') = e_globalHistory s"
    using i by (auto simp: e_uncond_eq [OF i] ens_undo_def)
  show "dp_lookup EnsembleDir s t a = Some (b, h, s') \<Longrightarrow> dp_btbUpdate EnsembleDir s' t a h = Some s'' \<Longrightarrow>
      ens_undo t h (e_globalHistory s'') = e_globalHistory s"
    using i ok by (auto simp: e_lookup_eq e_btbUpdate_eq ens_undo_def)
  show "dp_uncondBranch EnsembleDir s t a = Some (h, s') \<Longrightarrow> dp_btbUpdate EnsembleDir s' t a h = Some s'' \<Longrightarrow>
      ens_undo t h (e_globalHistory s'') = e_globalHistory s"
    using i by (auto simp: e_uncond_eq [OF i] e_btbUpdate_eq ens_ok_frame [OF ok] ens_undo_def)
  assume "ens_hist_ok (e_cfg s) h"
  then obtain x where h: "h = Some x" "ens_hist_ok (e_cfg s) (Some x)" by (cases h) (auto simp: ens_hist_ok_def)
  show "\<exists>s'. dp_btbUpdate EnsembleDir s t a h = Some s' \<and> ens_ok s' \<and> e_cfg s' = e_cfg s"
    by (simp add: e_btbUpdate_eq [OF ok i] ens_ok_frame [OF ok])
  show "\<exists>s'. dp_update EnsembleDir s t a b h q = Some s' \<and> ens_ok s' \<and> e_cfg s' = e_cfg s"
    using ens_commit_ok [OF ok i, of a b x] e_update_commit_eq [OF ok i, of a b x]
    by (cases q) (auto simp: h(1) e_update_squashed_eq [OF ok i] intro: ens_ok_frame [OF ok])
  show "\<exists>s'. dp_squash EnsembleDir s t h = Some s' \<and> ens_ok s' \<and> e_cfg s' = e_cfg s"
    by (simp add: h(1) e_squash_eq [OF ok i h(2)] ens_ok_frame [OF ok])
  show "\<exists>g. dp_getGHR EnsembleDir s t h = Some g" by (simp add: h(1) e_getGHR_def)
  show "dp_squash EnsembleDir s t h = Some s' \<Longrightarrow> e_globalHistory s' = ens_undo t h (e_globalHistory s)"
    by (auto simp: h(1) e_squash_eq [OF ok i h(2)] ens_undo_def)
  show "dp_update EnsembleDir s t a b h False = Some s' \<Longrightarrow> e_globalHistory s' = e_globalHistory s"
    using ens_commit_ok [OF ok i, of a b x] by (simp add: h(1))
qed

subsection \<open>The constructed predictor\<close>

lemma EnsembleBP_new_ok:
  assumes "EnsembleBP_new junk p = Inr s" and "unat (ep_instShiftAmt p) < 64"
    and "ep_globalPredictorSize p \<le> ep_gsharePredictorSize p"
  shows "ens_ok s" and "e_numThreads (e_cfg s) = ep_numThreads p"
proof -
  obtain lb gb lc gc sc lw lt gt st where
    d: "ceilLog2 (ep_localPredictorSize p) = Some lb" "ceilLog2 (ep_globalPredictorSize p) = Some gb"
      "isPowerOf2 (ep_localPredictorSize p)" "isPowerOf2 (ep_globalPredictorSize p)" "isPowerOf2 (ep_gsharePredictorSize p)"
      "isPowerOf2 (ep_localHistoryTableSize p)"
    and c: "fresh_counters junk (ep_localPredictorSize p) (ep_localCtrBits p) = Some lc"
      "fresh_counters junk (ep_globalPredictorSize p) (ep_globalCtrBits p) = Some gc"
      "fresh_counters junk (ep_gsharePredictorSize p) (ep_gshareCtrBits p) = Some sc"
    and w: "setBits WEIGHT_COUNTER_SIZE (SatCounter_default junk) = Some lw"
    and s: "s = \<lparr>e_cfg = \<lparr>e_numThreads = ep_numThreads p, e_instShiftAmt = ep_instShiftAmt p,
               e_localPredictorSize = ep_localPredictorSize p, e_localPredictorMask = ucast (mask64 lb),
               e_localCtrBits = ep_localCtrBits p, e_localHistoryTableSize = ep_localHistoryTableSize p,
               e_localHistoryBits = of_nat lb, e_globalPredictorSize = ep_globalPredictorSize p,
               e_globalCtrBits = ep_globalCtrBits p, e_globalHistoryBits = of_nat gb,
               e_globalHistoryMask = ep_globalPredictorSize p - 1, e_historyRegisterMask = ucast (mask64 gb),
               e_gsharePredictorSize = ep_gsharePredictorSize p, e_gshareCtrBits = ep_gshareCtrBits p,
               e_localThreshold = lt, e_globalThreshold = gt, e_gshareThreshold = st\<rparr>,
            e_localCtrs = lc, e_localHistoryTable = replicate (unat (ep_localHistoryTableSize p)) 0,
            e_globalCtrs = gc, e_globalHistory = replicate (unat (ep_numThreads p)) 0, e_gshareCtrs = sc,
            e_localWeight = lw, e_globalWeight = lw, e_gshareWeight = lw, e_stats = zero_stats\<rparr>"
    using assms(1) by (auto simp: EnsembleBP_new_def ebind_eq_Inr Let_def)
  have nz: "ep_localPredictorSize p \<noteq> 0" "ep_globalPredictorSize p \<noteq> 0" "ep_gsharePredictorSize p \<noteq> 0"
    "ep_localHistoryTableSize p \<noteq> 0" using d(3-6) by (auto simp: isPowerOf2_def)
  have m: "ucast (mask64 lb) = ep_localPredictorSize p - 1" "gb < 32"
    using ceilLog2_mask [OF d(3)] ceilLog2_mask [OF d(4)] d(1,2) by auto
  then have "(ucast (mask64 gb) :: unsigned) = mask gb" using ucast_mask64 [OF m(2)] by (simp add: mask_eq_exp_minus_1)
  moreover have "ctr_ok WEIGHT_COUNTER_SIZE lw"
    using w by (auto simp: setBits_def SatCounter_default_def ctr_ok_def sat_ok_def WEIGHT_COUNTER_SIZE_def maxVal_of_bits_def)
  ultimately show "ens_ok s"
    using nz m assms(2,3) ctrs_ok_fresh [OF c(1)] ctrs_ok_fresh [OF c(2)] ctrs_ok_fresh [OF c(3)]
    by (auto simp: ens_ok_def ens_cfg_ok_def s)
  show "e_numThreads (e_cfg s) = ep_numThreads p" by (simp add: s)
qed

text \<open>A small instance, and a unit built on it.\<close>

definition sample_ens_params :: EnsembleParams where
  "sample_ens_params = \<lparr>ep_numThreads = 1, ep_instShiftAmt = 2, ep_localPredictorSize = 2, ep_localCtrBits = 2,
     ep_localHistoryTableSize = 2, ep_globalPredictorSize = 4, ep_globalCtrBits = 2, ep_gsharePredictorSize = 4,
     ep_gshareCtrBits = 2\<rparr>"

definition sample_ens :: EnsembleBP where
  "sample_ens = projr (EnsembleBP_new 0 sample_ens_params)"

definition sample_ens_unit :: "(EnsembleBP, EBPHistory, Addr) BPredUnit" where
  "sample_ens_unit = projr (BPredUnit_new sample_isa 0 sample_bp sample_ens)"

lemma sample_ens_new: "EnsembleBP_new 0 sample_ens_params = Inr sample_ens"
  by code_simp

lemma sample_ens_unit_new: "BPredUnit_new sample_isa 0 sample_bp sample_ens = Inr sample_ens_unit"
  by code_simp

lemma sample_ens_ok: "ens_ok sample_ens"
  by (rule EnsembleBP_new_ok [OF sample_ens_new]) code_simp+

lemma sample_ens_unit_ok: "unit_ok ens_ok e_cfg ens_threads ens_hist_ok sample_ens_unit"
  by (rule ens.BPredUnit_new_ok [OF sample_ens_unit_new sample_bp_ok sample_ens_ok]) code_simp

lemma sample_ens_thread: "tid_index 0 < length (e_globalHistory sample_ens)"
  by code_simp

end
