(* ===== verification/Ensemble_Props.thy ===== *)
theory Ensemble_Props
  imports Ensemble
begin

text \<open>
  What the ensemble predictor computes and what it learns: the verdict is the weighted majority,
  the weights follow a clamped reference rule, and three consequences of how \<open>ensemble.cc\<close> keeps
  its histories and weights.
\<close>

subsection \<open>The verdict\<close>

text \<open>The sum of the weights of the experts that voted \<open>b\<close>.\<close>

definition votes_for :: "bool \<Rightarrow> EnsembleBP \<Rightarrow> EBPHistory \<Rightarrow> nat" where
  "votes_for b s h =
     (if eh_localPredTaken h = b then unat (counter (e_localWeight s)) else 0) +
     (if eh_globalPredTaken h = b then unat (counter (e_globalWeight s)) else 0) +
     (if eh_gsharePredTaken h = b then unat (counter (e_gshareWeight s)) else 0)"

definition signed_vote :: "bool \<Rightarrow> nat \<Rightarrow> int \<Rightarrow> int" where
  "signed_vote p w acc = (if p then acc + int w else acc - int w)"

lemma vote_signed: "vote p w acc = signed_vote p (unat (counter w)) acc"
  by (simp add: vote_def signed_vote_def sat_read_def)

lemma signed_votes:
  "0 \<le> signed_vote z c (signed_vote x a (signed_vote y b 0)) \<longleftrightarrow>
    (if x = False then a else 0) + (if y = False then b else 0) + (if z = False then c else 0) \<le>
    (if x = True then a else 0) + (if y = True then b else 0) + (if z = True then c else 0)"
  by (cases x; cases y; cases z) (simp_all add: signed_vote_def, arith+)

lemma e_verdict_votes:
  "e_verdict s (eh_localPredTaken h) (eh_globalPredTaken h) (eh_gsharePredTaken h) \<longleftrightarrow>
     votes_for False s h \<le> votes_for True s h"
  unfolding e_verdict_def vote_signed votes_for_def signed_votes ..

lemma e_hist_final:
  "eh_finalPrediction (e_hist s t a) =
     e_verdict s (eh_localPredTaken (e_hist s t a)) (eh_globalPredTaken (e_hist s t a)) (eh_gsharePredTaken (e_hist s t a))"
  by (simp add: e_hist_def Let_def)

text \<open>
  \<^bold>\<open>C3.\<close> The prediction is the weighted majority of the three experts, a tie counting as taken,
  and the lookup changes no state.
\<close>

theorem ensemble_weighted_majority:
  assumes "ens_ok s" and "tid_index t < length (e_globalHistory s)" and "e_lookup s t a = Some (b, Some h, s')"
  shows "s' = s \<and> eh_finalPrediction h = b \<and> (b \<longleftrightarrow> votes_for False s h \<le> votes_for True s h)"
  using assms(3) e_verdict_votes [of s "e_hist s t a"] e_hist_final [of s t a]
  by (auto simp: e_lookup_eq [OF assms(1,2)])

theorem ensemble_weighted_majority_witness:
  "\<exists>h. e_lookup sample_ens 0 0x40 = Some (True, Some h, sample_ens) \<and>
    votes_for False sample_ens h \<le> votes_for True sample_ens h"
proof -
  have l: "e_lookup sample_ens 0 0x40 = Some (True, Some (e_hist sample_ens 0 0x40), sample_ens)" by code_simp
  show ?thesis using ensemble_weighted_majority [OF sample_ens_ok sample_ens_thread l] l by blast
qed

text \<open>
  When the experts agree the ensemble follows them, provided one of their weights is not
  zero; and an expert that outweighs the other two together decides alone.
\<close>

theorem ensemble_unanimity_and_dominance:
  assumes "ens_ok s" and "tid_index t < length (e_globalHistory s)" and "e_lookup s t a = Some (b, Some h, s')"
    and "counter (e_localWeight s) \<noteq> 0 \<or> counter (e_globalWeight s) \<noteq> 0 \<or> counter (e_gshareWeight s) \<noteq> 0"
  shows "(eh_localPredTaken h = v \<and> eh_globalPredTaken h = v \<and> eh_gsharePredTaken h = v \<longrightarrow> b = v) \<and>
    (unat (counter (e_localWeight s)) + unat (counter (e_globalWeight s)) < unat (counter (e_gshareWeight s)) \<longrightarrow>
      b = eh_gsharePredTaken h)"
proof -
  have h: "h = e_hist s t a" and b: "b = eh_finalPrediction h" using assms(3) by (auto simp: e_lookup_eq [OF assms(1,2)])
  have "b \<longleftrightarrow> votes_for False s h \<le> votes_for True s h"
    using e_verdict_votes [of s h] e_hist_final [of s t a] by (simp add: b h)
  moreover have "unat (counter (e_localWeight s)) > 0 \<or> unat (counter (e_globalWeight s)) > 0 \<or> unat (counter (e_gshareWeight s)) > 0"
    using assms(4) by (auto simp: unat_gt_0)
  ultimately show ?thesis unfolding votes_for_def
    by (cases "eh_localPredTaken h"; cases "eh_globalPredTaken h"; cases "eh_gsharePredTaken h"; cases v) auto
qed

text \<open>The small instance with a trained gshare weight.\<close>

definition trained_ens :: EnsembleBP where
  "trained_ens = sample_ens\<lparr>e_gshareWeight := \<lparr>initialVal = 0, maxVal = 15, counter = 5\<rparr>\<rparr>"

lemma trained_ens_ok: "ens_ok trained_ens"
proof -
  have "ctr_ok WEIGHT_COUNTER_SIZE \<lparr>initialVal = 0, maxVal = 15, counter = 5\<rparr>" by code_simp
  then show ?thesis using sample_ens_ok by (simp add: trained_ens_def ens_ok_def)
qed

lemma trained_ens_thread: "tid_index 0 < length (e_globalHistory trained_ens)"
  by code_simp

theorem ensemble_unanimity_and_dominance_witness:
  "\<exists>h. e_lookup trained_ens 0 0x40 = Some (False, Some h, trained_ens) \<and> eh_gsharePredTaken h = False"
proof -
  have l: "e_lookup trained_ens 0 0x40 = Some (False, Some (e_hist trained_ens 0 0x40), trained_ens)" by code_simp
  have w: "counter (e_localWeight trained_ens) \<noteq> 0 \<or> counter (e_globalWeight trained_ens) \<noteq> 0 \<or>
      counter (e_gshareWeight trained_ens) \<noteq> 0" by code_simp
  have "unat (counter (e_localWeight trained_ens)) + unat (counter (e_globalWeight trained_ens)) <
      unat (counter (e_gshareWeight trained_ens))" by code_simp
  then show ?thesis using ensemble_unanimity_and_dominance [OF trained_ens_ok trained_ens_thread l w] l by metis
qed

subsection \<open>The weights\<close>

text \<open>The rule for one weight, on numbers: \<open>hi\<close> is the largest value the counter holds.\<close>

definition clamp_step :: "nat \<Rightarrow> bool \<Rightarrow> nat \<Rightarrow> nat \<Rightarrow> nat" where
  "clamp_step hi up n w = (if up then min hi (w + n) else w - n)"

definition ref_learn :: "nat \<Rightarrow> bool \<Rightarrow> bool \<Rightarrow> nat \<Rightarrow> nat \<Rightarrow> nat" where
  "ref_learn hi contributed right n w = (if contributed then clamp_step hi right n w else w)"

text \<open>
  The reference: the experts \<open>c\<close> that voted for the verdict are rewarded or punished by 2 when
  they were alone and by 1 when they were two; then, if the weights sum to more than 12, the
  others move the opposite way by 1 or 2.
\<close>

definition ref_weights :: "nat \<Rightarrow> bool \<Rightarrow> bool list \<Rightarrow> nat list \<Rightarrow> nat list" where
  "ref_weights hi right c w =
     (let n = length (filter id c);
          reward = (if n = 1 then 2 else if n = 2 then 1 else 0);
          counter_move = (if n = 1 then 1 else if n = 2 then 2 else 0);
          learned = map2 (\<lambda>ci wi. ref_learn hi ci right reward wi) c w
      in if sum_list learned > 12
         then map2 (\<lambda>ci wi. ref_learn hi (\<not> ci) (\<not> right) counter_move wi) c learned
         else learned)"

definition weights :: "EnsembleBP \<Rightarrow> nat list" where
  "weights s = [unat (counter (e_gshareWeight s)), unat (counter (e_globalWeight s)), unat (counter (e_localWeight s))]"

definition contributed :: "EBPHistory \<Rightarrow> bool list" where
  "contributed h = [eh_finalPrediction h = eh_gsharePredTaken h, eh_finalPrediction h = eh_globalPredTaken h,
     eh_finalPrediction h = eh_localPredTaken h]"

lemma unat_learn:
  assumes "ctr_ok bits w"
  shows "unat (counter (learn c r n w)) = ref_learn (unat (maxVal w)) c r n (unat (counter w))"
  using assms sat.val_up_n [of w n] sat.val_down_n [of w n]
  by (simp add: learn_def ref_learn_def clamp_step_def ctr_ok_def)

lemma weight_top: "ctr_ok WEIGHT_COUNTER_SIZE w \<Longrightarrow> unat (maxVal w) = 15"
  using unat_maxVal_of_bits [of WEIGHT_COUNTER_SIZE "maxVal w"] by (simp add: ctr_ok_def WEIGHT_COUNTER_SIZE_def)

lemma unat_sum3:
  fixes a b c :: uint8
  shows "unat (ucast a + ucast b + ucast c :: unsigned) = unat a + unat b + unat c"
proof -
  have "unat a < 256" "unat b < 256" "unat c < 256"
    using unsigned_less [of a, where ?'a = nat] unsigned_less [of b, where ?'a = nat] unsigned_less [of c, where ?'a = nat]
    by simp_all
  then show ?thesis by (simp add: unat_word_ariths)
qed

lemma sum_gt_max:
  "MAX_WEIGHT_SUM < (ucast (sat_read a) + ucast (sat_read b) + ucast (sat_read c)) \<longleftrightarrow>
     12 < unat (counter a) + unat (counter b) + unat (counter c)"
  by (simp add: word_less_nat_alt unat_sum3 sat_read_def MAX_WEIGHT_SUM_def)

lemma contributors_filter: "contributors h = length (filter id (contributed h))"
  by (simp add: contributors_def contributed_def)

lemma weights_ref:
  assumes "ctr_ok WEIGHT_COUNTER_SIZE (e_localWeight s)" and "ctr_ok WEIGHT_COUNTER_SIZE (e_globalWeight s)"
    and "ctr_ok WEIGHT_COUNTER_SIZE (e_gshareWeight s)"
  shows "weights (e_updateWeights s taken h) = ref_weights 15 (eh_finalPrediction h = taken) (contributed h) (weights s)"
proof -
  note [simp] = learn_ok [OF assms(1)] learn_ok [OF assms(2)] learn_ok [OF assms(3)]
  have [simp]: "unat (counter (learn c r n w)) = ref_learn 15 c r n (unat (counter w))"
    if "ctr_ok WEIGHT_COUNTER_SIZE w" for c r n w
    using unat_learn [OF that] weight_top [OF that] by simp
  show ?thesis
    using assms unfolding e_updateWeights_def Let_def sum_gt_max contributors_filter ref_weights_def
      learning_rate_def [symmetric] adjustment_rate_def [symmetric]
    by (simp add: weights_def contributed_def adjust_learn ac_simps)
qed

text \<open>
  \<^bold>\<open>C4.\<close> A commit moves the three weights exactly as the reference rule says, on numbers from 0
  to 15, whatever the votes, the outcome and the weights before.
\<close>

theorem ensemble_weights_follow_reference:
  assumes "ens_ok s" and "tid_index t < length (e_globalHistory s)" and "e_update s t a taken (Some h) False = Some s'"
  shows "weights s' = ref_weights 15 (eh_finalPrediction h = taken) (contributed h) (weights s)"
proof -
  let ?s = "e_updateAdditionalStats s taken h (eh_finalPrediction h = eh_gsharePredTaken h)
    (eh_finalPrediction h = eh_globalPredTaken h) (eh_finalPrediction h = eh_localPredTaken h)"
  have "weights s' = weights (e_updateWeights ?s taken h)"
    using assms(3) by (auto simp: e_update_commit_eq [OF assms(1,2)] weights_def e_scored_def)
  also have "\<dots> = ref_weights 15 (eh_finalPrediction h = taken) (contributed h) (weights ?s)"
    using assms(1) by (intro weights_ref) (simp_all add: ens_ok_def)
  finally show ?thesis by (simp add: weights_def)
qed

theorem ensemble_weights_follow_reference_witness:
  "weights (the (e_update sample_ens 0 0x40 False (Some (e_hist sample_ens 0 0x40)) False)) =
    ref_weights 15 False (contributed (e_hist sample_ens 0 0x40)) (weights sample_ens)"
proof -
  let ?h = "e_hist sample_ens 0 0x40"
  have "e_update sample_ens 0 0x40 False (Some ?h) False = Some (the (e_update sample_ens 0 0x40 False (Some ?h) False))"
    by code_simp
  from ensemble_weights_follow_reference [OF sample_ens_ok sample_ens_thread this]
  show ?thesis by (rule trans) code_simp
qed

text \<open>
  \<^bold>\<open>C5.\<close> In every state a unit with a constructed ensemble predictor reaches, with a gshare table at
  least as large as the global table and shifts below 64, the weights lie
  between 0 and 15, every counter of the three tables is at most the maximum of its width, and
  the tables have their constructed sizes.
\<close>

theorem ensemble_reachable_invariant:
  assumes "EnsembleBP_new junk p = Inr s" and "unat (ep_instShiftAmt p) < 64"
    and "ep_globalPredictorSize p \<le> ep_gsharePredictorSize p"
    and "BPredUnit_new isa junk' q s = Inr u0" and "params_ok q" and "p_numThreads q = ep_numThreads p"
    and "bp_reach EnsembleDir isa u0 u"
  shows "list_all (\<lambda>w. w \<le> 15) (weights (dir u)) \<and>
    ctrs_ok (e_localPredictorSize (e_cfg (dir u))) (e_localCtrBits (e_cfg (dir u))) (e_localCtrs (dir u)) \<and>
    ctrs_ok (e_globalPredictorSize (e_cfg (dir u))) (e_globalCtrBits (e_cfg (dir u))) (e_globalCtrs (dir u)) \<and>
    ctrs_ok (e_gsharePredictorSize (e_cfg (dir u))) (e_gshareCtrBits (e_cfg (dir u))) (e_gshareCtrs (dir u))"
proof -
  note new = EnsembleBP_new_ok [OF assms(1-3)]
  have "unit_ok ens_ok e_cfg ens_threads ens_hist_ok u0"
    using ens.BPredUnit_new_ok [OF assms(4,5) new(1)] new(2) assms(6) by (simp add: ens_threads_def)
  then have "ens_ok (dir u)" using ens.reach_unit_ok [OF assms(7)] by (simp add: unit_ok_def)
  moreover have "unat (counter w) \<le> 15" if "ctr_ok WEIGHT_COUNTER_SIZE w" for w
    using weight_top [OF that] that sat.val_le [of w] by (simp add: ctr_ok_def)
  ultimately show ?thesis by (simp add: ens_ok_def weights_def)
qed

theorem ensemble_reachable_invariant_witness:
  "list_all (\<lambda>w. w \<le> 15) (weights (dir sample_ens_unit))"
proof -
  have "unat (ep_instShiftAmt sample_ens_params) < 64" "ep_globalPredictorSize sample_ens_params \<le> ep_gsharePredictorSize sample_ens_params"
    "p_numThreads sample_bp = ep_numThreads sample_ens_params" by code_simp+
  then show ?thesis
    using ensemble_reachable_invariant [OF sample_ens_new _ _ sample_ens_unit_new sample_bp_ok _ reach_init] by blast
qed



definition small_gshare_params :: EnsembleParams where
  "small_gshare_params = sample_ens_params\<lparr>ep_gsharePredictorSize := 1\<rparr>"

text \<open>
  Without that condition on the sizes the lookup reads past the gshare table: there are
  parameters the constructor accepts for which the first lookup faults.
\<close>

theorem ensemble_small_gshare_faults:
  "\<exists>s. EnsembleBP_new 0 small_gshare_params = Inr s \<and> e_lookup s 0 0x44 = None"
proof (intro exI conjI)
  show "EnsembleBP_new 0 small_gshare_params = Inr (projr (EnsembleBP_new 0 small_gshare_params))" by code_simp
  show "e_lookup (projr (EnsembleBP_new 0 small_gshare_params)) 0 0x44 = None" by code_simp
qed

subsection \<open>Histories\<close>

text \<open>
  A conditional branch that is predicted and committed without a misprediction leaves no
  trace in the histories: neither the lookup nor the commit shifts its outcome into the global
  or the local history. (The class comment and the comment in \<open>update\<close> say that they are updated
  speculatively.)
\<close>

theorem ensemble_correct_branch_not_recorded:
  assumes "ens_ok s" and "tid_index t < length (e_globalHistory s)"
    and "e_lookup s t a = Some (b, h, s1)" and "e_update s1 t a b h False = Some s2"
  shows "e_globalHistory s2 = e_globalHistory s \<and> e_localHistoryTable s2 = e_localHistoryTable s"
proof -
  have "s1 = s" "h = Some (e_hist s t a)" using assms(3) by (auto simp: e_lookup_eq [OF assms(1,2)])
  then show ?thesis using ens_commit_ok [OF assms(1,2)] assms(4) by auto
qed

theorem ensemble_correct_branch_not_recorded_witness:
  "e_globalHistory (the (e_update sample_ens 0 0x40 True (Some (e_hist sample_ens 0 0x40)) False)) = [0]"
proof -
  let ?h = "Some (e_hist sample_ens 0 0x40)"
  have l: "e_lookup sample_ens 0 0x40 = Some (True, ?h, sample_ens)" by code_simp
  have u: "e_update sample_ens 0 0x40 True ?h False = Some (the (e_update sample_ens 0 0x40 True ?h False))" by code_simp
  have "e_globalHistory sample_ens = [0]" by code_simp
  then show ?thesis using ensemble_correct_branch_not_recorded [OF sample_ens_ok sample_ens_thread l u] by simp
qed

text \<open>\<open>XOR\<close> with the address is injective below the mask.\<close>

lemma e_gidx_inj:
  assumes "e_globalHistoryMask c = mask k" and "e_gidx c a x = e_gidx c a y" and "k < 32"
  shows "x AND mask k = y AND mask k"
proof (rule bit_word_eqI)
  fix n assume "n < LENGTH(32)"
  then show "bit (x AND mask k) n = bit (y AND mask k) n"
    using arg_cong [OF assms(2), where f = "\<lambda>w. bit w n"] assms(1,3) by (auto simp: e_gidx_def bit_simps)
qed

text \<open>
  \<^bold>\<open>C26.\<close> After a misprediction the commit trains another gshare counter than the one that
  predicted: the index is computed from the history register as it is at commit, not from the
  one saved at lookup. Whenever the repaired history differs from the saved one in the indexed
  bits, exactly the counter at the hash of the repaired history moves towards the outcome, and
  this is not the counter the lookup read.
\<close>

theorem ensemble_gshare_trains_other_counter:
  assumes "ens_ok s" and "tid_index t < length (e_globalHistory s)"
    and "e_globalHistoryMask (e_cfg s) = mask k" and "e_historyRegisterMask (e_cfg s) = mask k" and "k < 32"
    and "e_lookup s t a = Some (b, h, s1)" and "e_update s1 t a taken h True = Some s2"
    and "e_update s2 t a taken h False = Some s3"
    and "gh = e_globalHistory s ! tid_index t" and "gh AND mask k \<noteq> shift_in gh taken AND mask k"
  shows "let consulted = unat (e_gidx (e_cfg s) a gh); trained = unat (e_gidx (e_cfg s) a (shift_in gh taken AND mask k)) in
    consulted \<noteq> trained \<and>
    e_gshareCtrs s3 = (e_gshareCtrs s)[trained := train taken (e_gshareCtrs s ! trained)]"
proof -
  let ?gh' = "shift_in gh taken AND mask k"
  have "s1 = s" "h = Some (e_hist s t a)" using assms(6) by (auto simp: e_lookup_eq [OF assms(1,2)])
  then have s2: "ens_ok s2" "e_cfg s2 = e_cfg s" "e_gshareCtrs s2 = e_gshareCtrs s" "e_globalHistory s2 ! tid_index t = ?gh'"
      "tid_index t < length (e_globalHistory s2)"
    using assms(2,4,7,9) by (auto simp: e_update_squashed_eq [OF assms(1,2)] intro!: ens_ok_frame [OF assms(1)])
  have "e_gidx (e_cfg s) a gh \<noteq> e_gidx (e_cfg s) a ?gh'"
    using e_gidx_inj [OF assms(3) _ assms(5), of a gh ?gh'] assms(10) by auto
  then have "unat (e_gidx (e_cfg s) a gh) \<noteq> unat (e_gidx (e_cfg s) a ?gh')" by (simp add: word_unat_eq_iff)
  then show ?thesis
    using assms(8) \<open>h = Some (e_hist s t a)\<close> s2 by (auto simp: e_update_commit_eq [OF s2(1,5)] Let_def)
qed

theorem ensemble_gshare_trains_other_counter_witness:
  "\<exists>s2 s3. e_update trained_ens 0 0x40 True (Some (e_hist trained_ens 0 0x40)) True = Some s2 \<and>
    e_update s2 0 0x40 True (Some (e_hist trained_ens 0 0x40)) False = Some s3 \<and>
    e_gshareCtrs s3 = (e_gshareCtrs trained_ens)[unat (e_gidx (e_cfg trained_ens) 0x40 1) :=
      train True (e_gshareCtrs trained_ens ! unat (e_gidx (e_cfg trained_ens) 0x40 1))]"
proof -
  let ?h = "Some (e_hist trained_ens 0 0x40)" and ?gh = "e_globalHistory trained_ens ! tid_index 0"
  let ?s2 = "the (e_update trained_ens 0 0x40 True ?h True)" let ?s3 = "the (e_update ?s2 0 0x40 True ?h False)"
  have m: "e_globalHistoryMask (e_cfg trained_ens) = mask 2" "e_historyRegisterMask (e_cfg trained_ens) = mask 2" by code_simp+
  have l: "e_lookup trained_ens 0 0x40 = Some (False, ?h, trained_ens)" by code_simp
  have u: "e_update trained_ens 0 0x40 True ?h True = Some ?s2" by code_simp
  have v: "e_update ?s2 0 0x40 True ?h False = Some ?s3" by code_simp
  have g: "?gh AND mask 2 \<noteq> shift_in ?gh True AND mask 2" "shift_in ?gh True AND mask 2 = 1" by code_simp+
  have "2 < (32 :: nat)" by simp
  from ensemble_gshare_trains_other_counter [OF trained_ens_ok trained_ens_thread m this l u v refl g(1)]
  show ?thesis using u v unfolding g(2) Let_def by blast
qed

subsection \<open>An ensemble without weights\<close>

text \<open>All counters and all weights are zero, as the constructor leaves them.\<close>

definition all_zero :: "EnsembleBP \<Rightarrow> bool" where
  "all_zero s \<longleftrightarrow> list_all (\<lambda>c. counter c = 0) (e_localCtrs s) \<and> list_all (\<lambda>c. counter c = 0) (e_globalCtrs s) \<and>
     list_all (\<lambda>c. counter c = 0) (e_gshareCtrs s) \<and> counter (e_localWeight s) = 0 \<and>
     counter (e_globalWeight s) = 0 \<and> counter (e_gshareWeight s) = 0"

lemma above_zero: "counter c = 0 \<Longrightarrow> \<not> above th c"
  by (simp add: above_def sat_read_def)

lemma decrement_zero: "counter c = 0 \<Longrightarrow> decrement c = c"
  by (simp add: decrement_def)

lemma train_down_zero:
  "list_all (\<lambda>c. counter c = 0) cs \<Longrightarrow> list_all (\<lambda>c. counter c = 0) (cs[i := train False (cs ! i)])"
  by (cases "i < length cs") (simp_all add: train_def decrement_zero list_all_length list_update_beyond)

lemma fresh_counters_zero: "fresh_counters junk sz bits = Some cs \<Longrightarrow> list_all (\<lambda>c. counter c = 0) cs"
proof (cases "maxVal_of_bits bits")
  case None
  assume "fresh_counters junk sz bits = Some cs"
  with None show ?thesis using fresh_counters_None [OF None, of sz junk] by (cases "sz = 0") (auto simp: fresh_counters_def)
next
  case (Some m)
  assume "fresh_counters junk sz bits = Some cs"
  with Some show ?thesis by (auto simp: fresh_counters_Some intro!: list_all_replicate)
qed

lemma all_zero_hist:
  assumes "ens_ok s" and "tid_index t < length (e_globalHistory s)" and "all_zero s"
  shows "\<not> eh_localPredTaken (e_hist s t a) \<and> \<not> eh_globalPredTaken (e_hist s t a) \<and>
    \<not> eh_gsharePredTaken (e_hist s t a) \<and> eh_finalPrediction (e_hist s t a)"
proof -
  have "\<not> eh_localPredTaken (e_hist s t a) \<and> \<not> eh_globalPredTaken (e_hist s t a) \<and> \<not> eh_gsharePredTaken (e_hist s t a)"
    using assms(3) ens_range [OF assms(1)] by (simp add: e_hist_def Let_def above_zero all_zero_def list_all_length)
  moreover have "votes_for False s (e_hist s t a) \<le> votes_for True s (e_hist s t a)"
    using assms(3) by (simp add: votes_for_def all_zero_def)
  then have "eh_finalPrediction (e_hist s t a)" using e_verdict_votes [of s] by (simp add: e_hist_final)
  ultimately show ?thesis by blast
qed

lemma all_zero_weights:
  assumes "\<not> eh_localPredTaken h" and "\<not> eh_globalPredTaken h" and "\<not> eh_gsharePredTaken h" and "eh_finalPrediction h"
    and "all_zero s"
  shows "e_updateWeights s b h = s"
  using assms
  by (simp add: e_updateWeights_def Let_def contributors_def learning_rate_def learn_def sum_gt_max all_zero_def)

lemma EnsembleBP_new_zero: "EnsembleBP_new junk p = Inr s \<Longrightarrow> all_zero s"
  by (auto simp: EnsembleBP_new_def ebind_eq_Inr Let_def all_zero_def setBits_def SatCounter_default_def
      dest!: fresh_counters_zero split: bind_splits)

lemma all_zero_commit:
  assumes ok: "ens_ok s" and t: "tid_index t < length (e_globalHistory s)" and z: "all_zero s"
  shows "\<exists>s'. e_update s t a taken (Some (e_hist s t a)) False = Some s' \<and> weights s' = [0, 0, 0] \<and> (\<not> taken \<longrightarrow> all_zero s')"
proof -
  let ?h = "e_hist s t a"
  note p = all_zero_hist [OF ok t z, of a]
  obtain s' where s': "e_update s t a taken (Some ?h) False = Some s'" using e_update_commit_eq [OF ok t] by blast
  have "all_zero (e_updateAdditionalStats s taken ?h x y w)" for x y w using z by (simp add: all_zero_def)
  then have "e_scored s taken ?h = e_updateAdditionalStats s taken ?h (eh_finalPrediction ?h = eh_gsharePredTaken ?h)
      (eh_finalPrediction ?h = eh_globalPredTaken ?h) (eh_finalPrediction ?h = eh_localPredTaken ?h)"
    unfolding e_scored_def using p by (intro all_zero_weights) simp_all
  then show ?thesis
    using z s' by (auto simp: e_update_commit_eq [OF ok t] all_zero_def weights_def Let_def train_down_zero)
qed

text \<open>
  \<^bold>\<open>C6.\<close> An ensemble all of whose counters and weights are zero, as the constructor leaves them,
  predicts taken against the unanimous vote of its three experts, for every address: no expert
  has a weight and the tie counts as taken. The lookup records a contributor count of 0, which a
  comment in \<open>update\<close> calls impossible, and the commit then moves no weight, whatever the outcome.
  After an outcome of not taken, committed or reported as a misprediction, all counters and
  weights are zero as before.
\<close>

theorem ensemble_overrules_zero_weights:
  assumes "ens_ok s" and "tid_index t < length (e_globalHistory s)" and "all_zero s"
  shows "(\<forall>junk p s0. EnsembleBP_new junk p = Inr s0 \<longrightarrow> all_zero s0) \<and>
    (\<exists>h. e_lookup s t a = Some (True, Some h, s) \<and>
      \<not> eh_localPredTaken h \<and> \<not> eh_globalPredTaken h \<and> \<not> eh_gsharePredTaken h \<and> contributors h = 0 \<and>
      (\<forall>taken. \<exists>s'. e_update s t a taken (Some h) False = Some s' \<and> weights s' = [0, 0, 0]) \<and>
      (\<forall>squashed. \<exists>s'. e_update s t a False (Some h) squashed = Some s' \<and> all_zero s'))"
proof -
  let ?h = "e_hist s t a"
  note p = all_zero_hist [OF assms, of a] and c = all_zero_commit [OF assms, of a]
  have "\<exists>s'. e_update s t a False (Some ?h) squashed = Some s' \<and> all_zero s'" for squashed
    using c [of False] assms(3) by (cases squashed) (auto simp: e_update_squashed_eq [OF assms(1,2)] all_zero_def)
  moreover have "contributors ?h = 0" using p by (simp add: contributors_def)
  moreover have "\<exists>s'. e_update s t a taken (Some ?h) False = Some s' \<and> weights s' = [0, 0, 0]" for taken using c by blast
  ultimately show ?thesis using p EnsembleBP_new_zero by (intro conjI exI [of _ ?h]) (auto simp: e_lookup_eq [OF assms(1,2)])
qed

theorem ensemble_overrules_zero_weights_witness:
  "\<exists>h. e_lookup sample_ens 0 0x40 = Some (True, Some h, sample_ens) \<and> contributors h = 0"
  using ensemble_overrules_zero_weights [OF sample_ens_ok sample_ens_thread EnsembleBP_new_zero [OF sample_ens_new], of "0x40"] by blast

end
