(* ===== verification/BPred_Stats.thy ===== *)
theory BPred_Stats
  imports BPred_Unit
begin

text \<open>
  The counters of \<open>BPredUnit\<close> (\<open>cpu/pred/bpred_unit.cc\<close>): what they count relative to each other in
  every reachable state, whatever the derived class does, and the names they are registered
  under.
\<close>

definition stats_ok :: "BPStats \<Rightarrow> bool" where
  "stats_ok st \<longleftrightarrow>
     st_condPredicted st \<le> st_lookups st \<and>
     st_usedRAS st + st_BTBLookups st \<le> st_lookups st \<and>
     st_BTBHits st + st_indirectLookups st \<le> st_BTBLookups st \<and>
     st_indirectHits st + st_indirectMisses st = st_indirectLookups st \<and>
     st_RASIncorrect st \<le> st_condIncorrect st \<and>
     st_indirectMispredicted st \<le> st_condIncorrect st \<and>
     st_BTBCorrect st = 0"

text \<open>A prediction counts one lookup and at most one of the two kinds of target.\<close>

lemma predict_direction_stats:
  "predict_direction P u inst a t = Some (b, h, u') \<Longrightarrow>
     stats u' = stats u \<or> stats u' = (stats u)\<lparr>st_condPredicted := st_condPredicted (stats u) + 1\<rparr>"
  by (auto simp: predict_direction_def split: if_splits bind_splits)

lemma pop_call_stats: "pop_call u rec t = Some (rec', u') \<Longrightarrow> stats u' = stats u"
  by (auto simp: pop_call_def split: bind_splits)

lemma push_call_stats: "push_call u rec inst pc t = Some (rec', u') \<Longrightarrow> stats u' = stats u"
  by (auto simp: push_call_def split: if_splits bind_splits)

lemma predict_btb_stats:
  "predict_btb P isa u rec inst pc t = Some (b, tg, rec', u') \<Longrightarrow>
     stats u' = stats u \<or> stats u' = (stats u)\<lparr>st_BTBHits := st_BTBHits (stats u) + 1\<rparr>"
  by (auto simp: predict_btb_def Let_def dest: pop_call_stats split: if_splits bind_splits)

lemma predict_indirect_stats:
  assumes "predict_indirect P isa u rec inst sn pc t = Some (b, tg, rec', u')"
  shows "stats u' = (stats u)\<lparr>st_indirectLookups := st_indirectLookups (stats u) + 1,
      st_indirectHits := st_indirectHits (stats u) + 1\<rparr> \<or>
    stats u' = (stats u)\<lparr>st_indirectLookups := st_indirectLookups (stats u) + 1,
      st_indirectMisses := st_indirectMisses (stats u) + 1\<rparr>"
  using assms
  by (auto simp: predict_indirect_def Let_def dest!: pop_call_stats split: if_splits bind_splits option.splits)

lemma predict_target_stats:
  assumes "predict_target P isa u b rec inst sn pc t = Some (b', tg, rec', u')"
    and "stats_ok (stats u)" and "st_usedRAS (stats u) + st_BTBLookups (stats u) < st_lookups (stats u)"
  shows "stats_ok (stats u')"
proof -
  have ret: "stats_ok (stats u')" if "predict_return isa u rec pc t = Some (b', tg, rec', u')"
    using that assms(2,3) by (auto simp: predict_return_def stats_ok_def Let_def split: bind_splits)
  have tgt: "stats_ok (stats u')"
    if "stats v = (stats u)\<lparr>st_BTBLookups := st_BTBLookups (stats u) + 1\<rparr>"
      and "(if isDirectCtrl inst \<or> \<not> useIndirect v then predict_btb P isa v r inst pc t
        else predict_indirect P isa v r inst sn pc t) = Some (b', tg, rec', u')" for v r
    using that assms(2,3)
    by (auto dest!: predict_btb_stats predict_indirect_stats simp: stats_ok_def split: if_splits)
  show ?thesis
    using assms(1,2) ret
    by (auto simp: predict_target_def Let_def dest!: push_call_stats split: if_splits bind_splits intro: tgt)
qed

lemma predict_stats:
  assumes "predict P isa u inst sn pc t = Some (b, tg, u')" and "stats_ok (stats u)"
  shows "stats_ok (stats u')"
proof -
  define u1 where "u1 = u\<lparr>stats := (stats u)\<lparr>st_lookups := st_lookups (stats u) + 1\<rparr>\<rparr>"
  obtain b1 h u2 where d: "predict_direction P u1 inst (instAddr isa pc) t = Some (b1, h, u2)"
    and "\<exists>rec' u3. predict_target P isa u2 b1 (PredictorHistory_new (PCState_zero isa) sn (instAddr isa pc) b1 h t)
        inst sn pc t = Some (b, tg, rec', u3) \<and> stats u' = stats u3"
    using assms(1) by (auto simp: predict_def u1_def Let_def split: bind_splits)
  moreover have "stats_ok (stats u2) \<and> st_usedRAS (stats u2) + st_BTBLookups (stats u2) < st_lookups (stats u2)"
    using predict_direction_stats [OF d] assms(2) by (auto simp: stats_ok_def u1_def)
  ultimately show ?thesis using predict_target_stats by (metis (no_types, lifting))
qed

lemma bp_update_stats: "bp_update P u sn t = Some u' \<Longrightarrow> stats u' = stats u"
  by (auto simp: bp_update_def split: bind_splits)

lemma bp_squash_stats: "bp_squash P u sn t = Some u' \<Longrightarrow> stats u' = stats u"
  by (auto simp: bp_squash_def split: bind_splits)

lemma fixup_taken_stats:
  "fixup_taken isa rnd u e g tg t = Some (e', u') \<Longrightarrow>
     stats u' = stats u \<or> stats u' = (stats u)\<lparr>st_indirectMispredicted := st_indirectMispredicted (stats u) + 1\<rparr>"
  by (auto simp: fixup_taken_def split: if_splits bind_splits)

lemma fixup_not_taken_stats: "fixup_not_taken u e t = Some (e', u') \<Longrightarrow> stats u' = stats u"
  by (auto simp: fixup_not_taken_def split: if_splits bind_splits)

lemma bp_mispredict_stats:
  assumes "bp_mispredict P isa rnd u sn tg b t = Some u'" and "stats_ok (stats u)"
  shows "stats_ok (stats u')"
  using assms
  by (auto simp: bp_mispredict_def Let_def stats_ok_def
      dest!: bp_squash_stats fixup_taken_stats fixup_not_taken_stats split: if_splits bind_splits list.splits)

lemma bp_step_stats:
  "bp_step P isa t u c = Some u' \<Longrightarrow> stats_ok (stats u) \<Longrightarrow> stats_ok (stats u')"
  by (cases c) (auto dest: predict_stats bp_update_stats bp_squash_stats bp_mispredict_stats)

lemma BPredUnit_new_stats: "BPredUnit_new isa junk p s = Inr u \<Longrightarrow> stats_ok (stats u)"
  by (auto simp: BPredUnit_new_def ebind_eq_Inr stats_ok_def)

lemma reach_stats_ok: "bp_reach P isa u0 u \<Longrightarrow> stats_ok (stats u0) \<Longrightarrow> stats_ok (stats u)"
  by (induction rule: bp_reach.induct) (auto intro: bp_step_stats)

text \<open>
  The registered names are distinct, and all of them but one put a dot between the name of
  the unit and the statistic.
\<close>

theorem unit_statistics_names:
  "distinct (map fst (regStats name)) \<and>
   filter (\<lambda>n. take (length name + 1) n \<noteq> name @ ''.'') (map fst (regStats name)) = [name @ ''indirectMispredicted'']"
  by (simp add: regStats_def)

end
