(* ===== verification/Ensemble2.thy ===== *)
theory Ensemble2
  imports Ensemble
begin

text \<open>
  \<open>cpu/pred/ensemble2.hh\<close> and \<open>ensemble2.cc\<close>: the second ensemble predictor. Its experts are the
  global predictor, the tournament of the global and the local predictor (selected by a choice
  table), and gshare. The steps of the vote and of the weight update that have the same text as in
  \<open>ensemble.cc\<close> (\<open>vote\<close>, \<open>learn\<close>, \<open>adjust\<close>, the two rates) are those of theory \<open>Ensemble\<close>.
\<close>

definition MAX_WEIGHT_SUM2 :: unsigned where
  "MAX_WEIGHT_SUM2 = 5"

definition WEIGHT_COUNTER_SIZE2 :: unsigned where
  "WEIGHT_COUNTER_SIZE2 = 2"

record Ensemble2Cfg =
  e2_numThreads :: unsigned
  e2_instShiftAmt :: unsigned
  e2_localPredictorSize :: unsigned
  e2_localPredictorMask :: unsigned
  e2_localCtrBits :: unsigned
  e2_localHistoryTableSize :: unsigned
  e2_localHistoryBits :: unsigned
  e2_globalPredictorSize :: unsigned
  e2_globalCtrBits :: unsigned
  e2_globalHistoryBits :: unsigned
  e2_globalHistoryMask :: unsigned
  e2_historyRegisterMask :: unsigned
  e2_choiceHistoryMask :: unsigned
  e2_choicePredictorSize :: unsigned
  e2_choiceCtrBits :: unsigned
  e2_gsharePredictorSize :: unsigned
  e2_gshareCtrBits :: unsigned
  e2_localThreshold :: unsigned
  e2_globalThreshold :: unsigned
  e2_gshareThreshold :: unsigned
  e2_choiceThreshold :: unsigned

record EnsembleBP2 =
  e2_cfg :: Ensemble2Cfg
  e2_localCtrs :: "SatCounter list"
  e2_localHistoryTable :: "unsigned list"
  e2_globalCtrs :: "SatCounter list"
  e2_globalHistory :: "unsigned list"
  e2_choiceCtrs :: "SatCounter list"
  e2_gshareCtrs :: "SatCounter list"
  e2_tournamentWeight :: SatCounter
  e2_globalWeight :: SatCounter
  e2_gshareWeight :: SatCounter
  e2_stats :: ExpertStats

record E2BPHistory =
  e2h_globalHistory :: unsigned
  e2h_localHistoryIdx :: unsigned
  e2h_localHistory :: unsigned
  e2h_localPredTaken :: bool
  e2h_globalPredTaken :: bool
  e2h_tournamentPredTaken :: bool
  e2h_gsharePredTaken :: bool
  e2h_globalUsed :: bool
  e2h_finalPrediction :: bool

record Ensemble2Params =
  e2p_numThreads :: unsigned
  e2p_instShiftAmt :: unsigned
  e2p_localPredictorSize :: unsigned
  e2p_localCtrBits :: unsigned
  e2p_localHistoryTableSize :: unsigned
  e2p_globalPredictorSize :: unsigned
  e2p_globalCtrBits :: unsigned
  e2p_choicePredictorSize :: unsigned
  e2p_choiceCtrBits :: unsigned
  e2p_gsharePredictorSize :: unsigned
  e2p_gshareCtrBits :: unsigned

text \<open>
  The constructor. The size of the choice table is not checked to be a power of two. The loops
  over the global and the gshare table also set the widths of the weights.
\<close>

definition EnsembleBP2_new :: "uint8 \<Rightarrow> Ensemble2Params \<Rightarrow> bp_error + EnsembleBP2" where
  "EnsembleBP2_new junk p =
     ebind (no_fault (ceilLog2 (e2p_localPredictorSize p))) (\<lambda>local_bits.
     ebind (no_fault (ceilLog2 (e2p_globalPredictorSize p))) (\<lambda>global_bits.
     ebind (no_fault (ceilLog2 (e2p_choicePredictorSize p))) (\<lambda>choice_bits.
     let history_bits = (if global_bits > choice_bits then global_bits else choice_bits) in
     ebind (error_if (\<not> isPowerOf2 (e2p_localPredictorSize p)) (Fatal ''Invalid local predictor size!'')) (\<lambda>_.
     ebind (error_if (\<not> isPowerOf2 (e2p_globalPredictorSize p)) (Fatal ''Invalid global predictor size!'')) (\<lambda>_.
     ebind (error_if (\<not> isPowerOf2 (e2p_gsharePredictorSize p)) (Fatal ''Invalid global predictor size!'')) (\<lambda>_.
     ebind (no_fault (fresh_counters junk (e2p_localPredictorSize p) (e2p_localCtrBits p))) (\<lambda>local_ctrs.
     ebind (error_if (\<not> isPowerOf2 (e2p_localHistoryTableSize p)) (Fatal ''Invalid local history table size!'')) (\<lambda>_.
     ebind (no_fault (fresh_counters junk (e2p_globalPredictorSize p) (e2p_globalCtrBits p))) (\<lambda>global_ctrs.
     ebind (no_fault (setBits WEIGHT_COUNTER_SIZE2 (SatCounter_default junk))) (\<lambda>global_weight.
     ebind (no_fault (setBits WEIGHT_COUNTER_SIZE2 (SatCounter_default junk))) (\<lambda>tournament_weight.
     ebind (no_fault (fresh_counters junk (e2p_gsharePredictorSize p) (e2p_gshareCtrBits p))) (\<lambda>gshare_ctrs.
     ebind (no_fault (setBits WEIGHT_COUNTER_SIZE2 (SatCounter_default junk))) (\<lambda>gshare_weight.
     ebind (no_fault (fresh_counters junk (e2p_choicePredictorSize p) (e2p_choiceCtrBits p))) (\<lambda>choice_ctrs.
     let choice_mask = e2p_choicePredictorSize p - 1;
         global_mask = e2p_globalPredictorSize p - 1;
         register_mask = ucast (mask64 history_bits) in
     ebind (error_if (global_mask > register_mask)
       (Fatal ''Global predictor too large for global history bits!'')) (\<lambda>_.
     ebind (error_if (choice_mask > register_mask)
       (Fatal ''Choice predictor too large for global history bits!'')) (\<lambda>_.
     ebind (no_fault (threshold_of_bits (e2p_localCtrBits p))) (\<lambda>local_threshold.
     ebind (no_fault (threshold_of_bits (e2p_globalCtrBits p))) (\<lambda>global_threshold.
     ebind (no_fault (threshold_of_bits (e2p_gshareCtrBits p))) (\<lambda>gshare_threshold.
     ebind (no_fault (threshold_of_bits (e2p_choiceCtrBits p))) (\<lambda>choice_threshold.
       Inr \<lparr>e2_cfg =
              \<lparr>e2_numThreads = e2p_numThreads p, e2_instShiftAmt = e2p_instShiftAmt p,
               e2_localPredictorSize = e2p_localPredictorSize p,
               e2_localPredictorMask = ucast (mask64 local_bits),
               e2_localCtrBits = e2p_localCtrBits p,
               e2_localHistoryTableSize = e2p_localHistoryTableSize p,
               e2_localHistoryBits = of_nat local_bits,
               e2_globalPredictorSize = e2p_globalPredictorSize p,
               e2_globalCtrBits = e2p_globalCtrBits p,
               e2_globalHistoryBits = of_nat history_bits,
               e2_globalHistoryMask = global_mask,
               e2_historyRegisterMask = register_mask,
               e2_choiceHistoryMask = choice_mask,
               e2_choicePredictorSize = e2p_choicePredictorSize p,
               e2_choiceCtrBits = e2p_choiceCtrBits p,
               e2_gsharePredictorSize = e2p_gsharePredictorSize p,
               e2_gshareCtrBits = e2p_gshareCtrBits p,
               e2_localThreshold = local_threshold,
               e2_globalThreshold = global_threshold,
               e2_gshareThreshold = gshare_threshold,
               e2_choiceThreshold = choice_threshold\<rparr>,
            e2_localCtrs = local_ctrs,
            e2_localHistoryTable = replicate (unat (e2p_localHistoryTableSize p)) 0,
            e2_globalCtrs = global_ctrs,
            e2_globalHistory = replicate (unat (e2p_numThreads p)) 0,
            e2_choiceCtrs = choice_ctrs,
            e2_gshareCtrs = gshare_ctrs,
            e2_tournamentWeight = tournament_weight,
            e2_globalWeight = global_weight,
            e2_gshareWeight = gshare_weight,
            e2_stats = zero_stats\<rparr>))))))))))))))))))))"

definition e2_calcLocHistIdx :: "Ensemble2Cfg \<Rightarrow> Addr \<Rightarrow> unsigned option" where
  "e2_calcLocHistIdx c branch_addr = loc_hist_idx (e2_instShiftAmt c) (e2_localHistoryTableSize c) branch_addr"

definition e2_updateGlobalHistTaken :: "EnsembleBP2 \<Rightarrow> ThreadID \<Rightarrow> EnsembleBP2 option" where
  "e2_updateGlobalHistTaken s tid = do {
     gh \<leftarrow> vec_mod (\<lambda>h. (push_bit 1 h OR 1) AND e2_historyRegisterMask (e2_cfg s)) (e2_globalHistory s) (tid_index tid);
     Some (s\<lparr>e2_globalHistory := gh\<rparr>) }"

definition e2_updateGlobalHistNotTaken :: "EnsembleBP2 \<Rightarrow> ThreadID \<Rightarrow> EnsembleBP2 option" where
  "e2_updateGlobalHistNotTaken s tid = do {
     gh \<leftarrow> vec_mod (\<lambda>h. push_bit 1 h AND e2_historyRegisterMask (e2_cfg s)) (e2_globalHistory s) (tid_index tid);
     Some (s\<lparr>e2_globalHistory := gh\<rparr>) }"

definition e2_updateLocalHistTaken :: "EnsembleBP2 \<Rightarrow> unsigned \<Rightarrow> EnsembleBP2 option" where
  "e2_updateLocalHistTaken s local_history_idx = do {
     lh \<leftarrow> vec_mod (\<lambda>h. push_bit 1 h OR 1) (e2_localHistoryTable s) (unat local_history_idx);
     Some (s\<lparr>e2_localHistoryTable := lh\<rparr>) }"

definition e2_updateLocalHistNotTaken :: "EnsembleBP2 \<Rightarrow> unsigned \<Rightarrow> EnsembleBP2 option" where
  "e2_updateLocalHistNotTaken s local_history_idx = do {
     lh \<leftarrow> vec_mod (\<lambda>h. push_bit 1 h) (e2_localHistoryTable s) (unat local_history_idx);
     Some (s\<lparr>e2_localHistoryTable := lh\<rparr>) }"

definition e2_btbUpdate :: "EnsembleBP2 \<Rightarrow> ThreadID \<Rightarrow> Addr \<Rightarrow> E2BPHistory option \<Rightarrow> EnsembleBP2 option" where
  "e2_btbUpdate s tid branch_addr bp_history = do {
     local_history_idx \<leftarrow> e2_calcLocHistIdx (e2_cfg s) branch_addr;
     gh \<leftarrow> vec_mod (clear_lsb (e2_historyRegisterMask (e2_cfg s))) (e2_globalHistory s) (tid_index tid);
     lh \<leftarrow> vec_mod (clear_lsb (e2_localPredictorMask (e2_cfg s))) (e2_localHistoryTable s) (unat local_history_idx);
     Some (s\<lparr>e2_globalHistory := gh, e2_localHistoryTable := lh\<rparr>) }"

definition e2_lookup :: "EnsembleBP2 \<Rightarrow> ThreadID \<Rightarrow> Addr \<Rightarrow> (bool \<times> E2BPHistory option \<times> EnsembleBP2) option" where
  "e2_lookup s tid branch_addr = do {
     let c = e2_cfg s;
     local_history_idx \<leftarrow> e2_calcLocHistIdx c branch_addr;
     lh \<leftarrow> vec_at (e2_localHistoryTable s) (unat local_history_idx);
     let local_predictor_idx = lh AND e2_localPredictorMask c;
     lc \<leftarrow> vec_at (e2_localCtrs s) (unat local_predictor_idx);
     let local_prediction = above (e2_localThreshold c) lc;
     gh \<leftarrow> vec_at (e2_globalHistory s) (tid_index tid);
     gc \<leftarrow> vec_at (e2_globalCtrs s) (unat (gh AND e2_globalHistoryMask c));
     let global_prediction = above (e2_globalThreshold c) gc;
     cc \<leftarrow> vec_at (e2_choiceCtrs s) (unat (gh AND e2_choiceHistoryMask c));
     let choice_prediction = above (e2_choiceThreshold c) cc;
     gshare_predictor_idx \<leftarrow> hash_idx (e2_instShiftAmt c) (e2_globalHistoryMask c) branch_addr gh;
     assert_that (gshare_predictor_idx < e2_globalPredictorSize c);
     sc \<leftarrow> vec_at (e2_gshareCtrs s) (unat gshare_predictor_idx);
     let gshare_prediction = above (e2_gshareThreshold c) sc;
     let tournament_prediction = (if choice_prediction then global_prediction else local_prediction);
     assert_that (local_history_idx < e2_localHistoryTableSize c);
     let accumulation = vote global_prediction (e2_globalWeight s) 0;
     let accumulation = vote tournament_prediction (e2_tournamentWeight s) accumulation;
     let accumulation = vote gshare_prediction (e2_gshareWeight s) accumulation;
     let final = (accumulation \<ge> 0);
     let history = \<lparr>e2h_globalHistory = gh, e2h_localHistoryIdx = local_history_idx, e2h_localHistory = local_predictor_idx,
       e2h_localPredTaken = local_prediction, e2h_globalPredTaken = global_prediction,
       e2h_tournamentPredTaken = tournament_prediction, e2h_gsharePredTaken = gshare_prediction,
       e2h_globalUsed = choice_prediction, e2h_finalPrediction = final\<rparr>;
     Some (final, Some history, s) }"

definition e2_uncondBranch :: "EnsembleBP2 \<Rightarrow> ThreadID \<Rightarrow> Addr \<Rightarrow> (E2BPHistory option \<times> EnsembleBP2) option" where
  "e2_uncondBranch s tid pc = do {
     gh \<leftarrow> vec_at (e2_globalHistory s) (tid_index tid);
     let history = \<lparr>e2h_globalHistory = gh, e2h_localHistoryIdx = invalidPredictorIndex,
       e2h_localHistory = invalidPredictorIndex, e2h_localPredTaken = True, e2h_globalPredTaken = True,
       e2h_tournamentPredTaken = True, e2h_gsharePredTaken = True, e2h_globalUsed = True, e2h_finalPrediction = True\<rparr>;
     s \<leftarrow> e2_updateGlobalHistTaken s tid;
     Some (Some history, s) }"

definition e2_updateAdditionalStats ::
    "EnsembleBP2 \<Rightarrow> bool \<Rightarrow> E2BPHistory \<Rightarrow> bool \<Rightarrow> bool \<Rightarrow> bool \<Rightarrow> EnsembleBP2" where
  "e2_updateAdditionalStats s taken history gshareContributed globalContributed tournamentContributed =
     (let prediction = e2h_finalPrediction history;
          tournamentCorrect = (e2h_tournamentPredTaken history = taken);
          globalCorrect = (e2h_globalPredTaken history = taken);
          gshareCorrect = (e2h_gsharePredTaken history = taken);
          numCorrect = (of_bool tournamentCorrect + of_bool globalCorrect + of_bool gshareCorrect :: nat);
          mispredict = (taken \<noteq> prediction);
          gsw = sat_read (e2_gshareWeight s); gw = sat_read (e2_globalWeight s); tw = sat_read (e2_tournamentWeight s);
          st = e2_stats s;
          st = (if (\<not> gshareContributed \<and> globalContributed \<and> tournamentContributed \<and> gsw > gw \<and> gsw > tw) \<or>
                   (gshareContributed \<and> \<not> globalContributed \<and> tournamentContributed \<and> gw > gsw \<and> gw > tw) \<or>
                   (gshareContributed \<and> globalContributed \<and> \<not> tournamentContributed \<and> tw > gsw \<and> tw > gw)
                then st\<lparr>lowWeightExpertsWon := lowWeightExpertsWon st + 1\<rparr> else st);
          st = (if e2h_localPredTaken history = e2h_globalPredTaken history \<and>
                   e2h_globalPredTaken history = e2h_gsharePredTaken history
                then if mispredict then st\<lparr>allExpertsWrong := allExpertsWrong st + 1\<rparr>
                     else st\<lparr>allExpertsRight := allExpertsRight st + 1\<rparr>
                else st);
          st = (if mispredict \<and> (e2h_localPredTaken history = taken \<or> e2h_globalPredTaken history = taken \<or>
                                e2h_gsharePredTaken history = taken)
                then st\<lparr>atLeastOneCorrectExpertOnMispredict := atLeastOneCorrectExpertOnMispredict st + 1\<rparr> else st);
          st = (if mispredict then
                  if numCorrect = 1 then st\<lparr>oneCorrectExpert := oneCorrectExpert st + 1\<rparr>
                  else if numCorrect = 2 then st\<lparr>twoCorrectExpert := twoCorrectExpert st + 1\<rparr>
                  else if numCorrect = 3 then st\<lparr>threeCorrectExpert := threeCorrectExpert st + 1\<rparr>
                  else st
                else st)
      in s\<lparr>e2_stats := st\<rparr>)"

definition e2_contributors :: "E2BPHistory \<Rightarrow> nat" where
  "e2_contributors h = of_bool (e2h_finalPrediction h = e2h_globalPredTaken h) +
     of_bool (e2h_finalPrediction h = e2h_tournamentPredTaken h) + of_bool (e2h_finalPrediction h = e2h_gsharePredTaken h)"

definition e2_updateWeights :: "EnsembleBP2 \<Rightarrow> bool \<Rightarrow> E2BPHistory \<Rightarrow> EnsembleBP2" where
  "e2_updateWeights s taken history =
     (let globalContributed = (e2h_finalPrediction history = e2h_globalPredTaken history);
          tournamentContributed = (e2h_finalPrediction history = e2h_tournamentPredTaken history);
          gshareContributed = (e2h_finalPrediction history = e2h_gsharePredTaken history);
          learningRate = learning_rate (e2_contributors history);
          adjustmentRate = adjustment_rate (e2_contributors history);
          right = (e2h_finalPrediction history = taken);
          gsw = learn gshareContributed right learningRate (e2_gshareWeight s);
          gw = learn globalContributed right learningRate (e2_globalWeight s);
          tw = learn tournamentContributed right learningRate (e2_tournamentWeight s);
          weightSum = (ucast (sat_read gsw) + ucast (sat_read gw) + ucast (sat_read tw) :: unsigned)
      in if weightSum > MAX_WEIGHT_SUM2 then
           s\<lparr>e2_gshareWeight := adjust gshareContributed right adjustmentRate gsw,
             e2_globalWeight := adjust globalContributed right adjustmentRate gw,
             e2_tournamentWeight := adjust tournamentContributed right adjustmentRate tw\<rparr>
         else s\<lparr>e2_gshareWeight := gsw, e2_globalWeight := gw, e2_tournamentWeight := tw\<rparr>)"

definition e2_update ::
    "EnsembleBP2 \<Rightarrow> ThreadID \<Rightarrow> Addr \<Rightarrow> bool \<Rightarrow> E2BPHistory option \<Rightarrow> bool \<Rightarrow> EnsembleBP2 option" where
  "e2_update s tid branch_addr taken bp_history squashed = do {
     history \<leftarrow> bp_history;
     let c = e2_cfg s;
     local_history_idx \<leftarrow> e2_calcLocHistIdx c branch_addr;
     assert_that (local_history_idx < e2_localHistoryTableSize c);
     let old_local_pred_valid = (e2h_localHistory history \<noteq> invalidPredictorIndex);
     if squashed then do {
       gh \<leftarrow> vec_put (e2_globalHistory s) (tid_index tid)
              (shift_in (e2h_globalHistory history) taken AND e2_historyRegisterMask c);
       lh \<leftarrow> (if old_local_pred_valid
              then vec_put (e2_localHistoryTable s) (unat local_history_idx) (shift_in (e2h_localHistory history) taken)
              else Some (e2_localHistoryTable s));
       Some (s\<lparr>e2_globalHistory := gh, e2_localHistoryTable := lh\<rparr>) }
     else do {
       let old_local_pred_index = e2h_localHistory history AND e2_localPredictorMask c;
       assert_that (old_local_pred_index < e2_localPredictorSize c);
       let choice_predictor_idx = e2h_globalHistory history AND e2_choiceHistoryMask c;
       cc \<leftarrow> (if e2h_localPredTaken history \<noteq> e2h_globalPredTaken history \<and> old_local_pred_valid then
                if e2h_localPredTaken history = taken then vec_mod decrement (e2_choiceCtrs s) (unat choice_predictor_idx)
                else if e2h_globalPredTaken history = taken then vec_mod increment (e2_choiceCtrs s) (unat choice_predictor_idx)
                else Some (e2_choiceCtrs s)
              else Some (e2_choiceCtrs s));
       let s = s\<lparr>e2_choiceCtrs := cc\<rparr>;
       let global_predictor_idx = e2h_globalHistory history AND e2_globalHistoryMask c;
       gh \<leftarrow> vec_at (e2_globalHistory s) (tid_index tid);
       gshare_predictor_idx \<leftarrow> hash_idx (e2_instShiftAmt c) (e2_globalHistoryMask c) branch_addr gh;
       let s = e2_updateAdditionalStats s taken history (e2h_finalPrediction history = e2h_gsharePredTaken history)
         (e2h_finalPrediction history = e2h_globalPredTaken history)
         (e2h_finalPrediction history = e2h_tournamentPredTaken history);
       let s = e2_updateWeights s taken history;
       gc \<leftarrow> vec_mod (train taken) (e2_globalCtrs s) (unat global_predictor_idx);
       sc \<leftarrow> vec_mod (train taken) (e2_gshareCtrs s) (unat gshare_predictor_idx);
       lc \<leftarrow> (if old_local_pred_valid then vec_mod (train taken) (e2_localCtrs s) (unat old_local_pred_index)
              else Some (e2_localCtrs s));
       Some (s\<lparr>e2_globalCtrs := gc, e2_gshareCtrs := sc, e2_localCtrs := lc\<rparr>) } }"

definition e2_squash :: "EnsembleBP2 \<Rightarrow> ThreadID \<Rightarrow> E2BPHistory option \<Rightarrow> EnsembleBP2 option" where
  "e2_squash s tid bp_history = do {
     history \<leftarrow> bp_history;
     gh \<leftarrow> vec_put (e2_globalHistory s) (tid_index tid) (e2h_globalHistory history);
     lh \<leftarrow> (if e2h_localHistoryIdx history \<noteq> invalidPredictorIndex
            then vec_put (e2_localHistoryTable s) (unat (e2h_localHistoryIdx history)) (e2h_localHistory history)
            else Some (e2_localHistoryTable s));
     Some (s\<lparr>e2_globalHistory := gh, e2_localHistoryTable := lh\<rparr>) }"

definition e2_getGHR :: "EnsembleBP2 \<Rightarrow> ThreadID \<Rightarrow> E2BPHistory option \<Rightarrow> unsigned option" where
  "e2_getGHR s tid bp_history = map_option e2h_globalHistory bp_history"

definition Ensemble2Dir :: "(EnsembleBP2, E2BPHistory) DirPred" where
  "Ensemble2Dir = \<lparr>dp_lookup = e2_lookup, dp_uncondBranch = e2_uncondBranch, dp_btbUpdate = e2_btbUpdate,
     dp_update = e2_update, dp_squash = e2_squash, dp_getGHR = e2_getGHR\<rparr>"

lemma Ensemble2Dir_simps [simp]:
  "dp_lookup Ensemble2Dir = e2_lookup" "dp_uncondBranch Ensemble2Dir = e2_uncondBranch"
  "dp_btbUpdate Ensemble2Dir = e2_btbUpdate" "dp_update Ensemble2Dir = e2_update"
  "dp_squash Ensemble2Dir = e2_squash" "dp_getGHR Ensemble2Dir = e2_getGHR"
  by (simp_all add: Ensemble2Dir_def)

subsection \<open>Invariant\<close>

text \<open>
  The gshare table is indexed with the mask of the global table, so it must be at least as
  large, and the choice table must not be empty; the constructor checks neither.
\<close>

definition ens2_cfg_ok :: "Ensemble2Cfg \<Rightarrow> bool" where
  "ens2_cfg_ok c \<longleftrightarrow> unat (e2_instShiftAmt c) < 64 \<and>
     e2_localPredictorSize c \<noteq> 0 \<and> e2_localPredictorMask c = e2_localPredictorSize c - 1 \<and>
     e2_localHistoryTableSize c \<noteq> 0 \<and>
     e2_globalPredictorSize c \<noteq> 0 \<and> e2_globalHistoryMask c = e2_globalPredictorSize c - 1 \<and>
     e2_globalPredictorSize c \<le> e2_gsharePredictorSize c \<and>
     e2_choicePredictorSize c \<noteq> 0 \<and> e2_choiceHistoryMask c = e2_choicePredictorSize c - 1"

definition ens2_ok :: "EnsembleBP2 \<Rightarrow> bool" where
  "ens2_ok s \<longleftrightarrow> ens2_cfg_ok (e2_cfg s) \<and>
     ctrs_ok (e2_localPredictorSize (e2_cfg s)) (e2_localCtrBits (e2_cfg s)) (e2_localCtrs s) \<and>
     ctrs_ok (e2_globalPredictorSize (e2_cfg s)) (e2_globalCtrBits (e2_cfg s)) (e2_globalCtrs s) \<and>
     ctrs_ok (e2_gsharePredictorSize (e2_cfg s)) (e2_gshareCtrBits (e2_cfg s)) (e2_gshareCtrs s) \<and>
     ctrs_ok (e2_choicePredictorSize (e2_cfg s)) (e2_choiceCtrBits (e2_cfg s)) (e2_choiceCtrs s) \<and>
     ctr_ok WEIGHT_COUNTER_SIZE2 (e2_tournamentWeight s) \<and> ctr_ok WEIGHT_COUNTER_SIZE2 (e2_globalWeight s) \<and>
     ctr_ok WEIGHT_COUNTER_SIZE2 (e2_gshareWeight s) \<and>
     length (e2_localHistoryTable s) = unat (e2_localHistoryTableSize (e2_cfg s)) \<and>
     length (e2_globalHistory s) = unat (e2_numThreads (e2_cfg s))"

definition ens2_hist_ok :: "Ensemble2Cfg \<Rightarrow> E2BPHistory option \<Rightarrow> bool" where
  "ens2_hist_ok c ho \<longleftrightarrow> (case ho of None \<Rightarrow> False | Some h \<Rightarrow>
     e2h_localHistoryIdx h = invalidPredictorIndex \<or> e2h_localHistoryIdx h < e2_localHistoryTableSize c)"

definition ens2_threads :: "Ensemble2Cfg \<Rightarrow> nat" where
  "ens2_threads c = unat (e2_numThreads c)"

definition e2_idx :: "EnsembleBP2 \<Rightarrow> Addr \<Rightarrow> unsigned" where
  "e2_idx s a = lhi (e2_instShiftAmt (e2_cfg s)) (e2_localHistoryTableSize (e2_cfg s)) a"

definition e2_gidx :: "Ensemble2Cfg \<Rightarrow> Addr \<Rightarrow> unsigned \<Rightarrow> unsigned" where
  "e2_gidx c a gh = hashi (e2_instShiftAmt c) (e2_globalHistoryMask c) a gh"

lemma ens2_range:
  assumes "ens2_ok s"
  shows "unat (e2_instShiftAmt (e2_cfg s)) < 64"
    and "unat (e2_idx s a) < length (e2_localHistoryTable s)" and "e2_idx s a < e2_localHistoryTableSize (e2_cfg s)"
    and "unat (x AND e2_localPredictorMask (e2_cfg s)) < length (e2_localCtrs s)"
    and "x AND e2_localPredictorMask (e2_cfg s) < e2_localPredictorSize (e2_cfg s)"
    and "unat (x AND e2_globalHistoryMask (e2_cfg s)) < length (e2_globalCtrs s)"
    and "e2_gidx (e2_cfg s) a x < e2_globalPredictorSize (e2_cfg s)"
    and "unat (e2_gidx (e2_cfg s) a x) < length (e2_gshareCtrs s)"
    and "unat (x AND e2_choiceHistoryMask (e2_cfg s)) < length (e2_choiceCtrs s)"
  using assms
  by (auto simp: ens2_ok_def ens2_cfg_ok_def e2_idx_def e2_gidx_def lhi_less unat_and_less hashi_less ctrs_ok_def
      word_less_nat_alt word_le_nat_alt)
    (rule less_le_trans [OF hashi_less(1)], assumption+)

subsection \<open>The operations as equations\<close>

definition e2_verdict :: "EnsembleBP2 \<Rightarrow> bool \<Rightarrow> bool \<Rightarrow> bool \<Rightarrow> bool" where
  "e2_verdict s tp gp sp \<longleftrightarrow> 0 \<le> vote sp (e2_gshareWeight s) (vote tp (e2_tournamentWeight s) (vote gp (e2_globalWeight s) 0))"

definition e2_hist :: "EnsembleBP2 \<Rightarrow> ThreadID \<Rightarrow> Addr \<Rightarrow> E2BPHistory" where
  "e2_hist s t a = (let c = e2_cfg s; gh = e2_globalHistory s ! tid_index t;
       li = (e2_localHistoryTable s ! unat (e2_idx s a)) AND e2_localPredictorMask c;
       lp = above (e2_localThreshold c) (e2_localCtrs s ! unat li);
       gp = above (e2_globalThreshold c) (e2_globalCtrs s ! unat (gh AND e2_globalHistoryMask c));
       cp = above (e2_choiceThreshold c) (e2_choiceCtrs s ! unat (gh AND e2_choiceHistoryMask c));
       sp = above (e2_gshareThreshold c) (e2_gshareCtrs s ! unat (e2_gidx c a gh));
       tp = (if cp then gp else lp) in
     \<lparr>e2h_globalHistory = gh, e2h_localHistoryIdx = e2_idx s a, e2h_localHistory = li, e2h_localPredTaken = lp,
      e2h_globalPredTaken = gp, e2h_tournamentPredTaken = tp, e2h_gsharePredTaken = sp, e2h_globalUsed = cp,
      e2h_finalPrediction = e2_verdict s tp gp sp\<rparr>)"

lemma e2_hist_global [simp]: "e2h_globalHistory (e2_hist s t a) = e2_globalHistory s ! tid_index t"
  by (simp add: e2_hist_def Let_def)

lemma e2_calcLocHistIdx_eq: "ens2_ok s \<Longrightarrow> e2_calcLocHistIdx (e2_cfg s) a = Some (e2_idx s a)"
  by (simp add: e2_calcLocHistIdx_def e2_idx_def loc_hist_idx_eq ens2_range(1))

lemma e2_gshareIdx_eq:
  "ens2_ok s \<Longrightarrow> hash_idx (e2_instShiftAmt (e2_cfg s)) (e2_globalHistoryMask (e2_cfg s)) a gh = Some (e2_gidx (e2_cfg s) a gh)"
  by (simp add: hash_idx_eq e2_gidx_def ens2_range(1))

lemma e2_lookup_eq:
  assumes "ens2_ok s" and "tid_index t < length (e2_globalHistory s)"
  shows "e2_lookup s t a = Some (e2h_finalPrediction (e2_hist s t a), Some (e2_hist s t a), s)"
  using assms(2) ens2_range [OF assms(1)]
  by (simp add: e2_lookup_def e2_calcLocHistIdx_eq [OF assms(1)] e2_gshareIdx_eq [OF assms(1)] fault_simps Let_def
      e2_hist_def e2_verdict_def)

lemma e2_uncond_eq:
  assumes "tid_index t < length (e2_globalHistory s)"
  shows "e2_uncondBranch s t a = Some (Some \<lparr>e2h_globalHistory = e2_globalHistory s ! tid_index t,
      e2h_localHistoryIdx = invalidPredictorIndex, e2h_localHistory = invalidPredictorIndex, e2h_localPredTaken = True,
      e2h_globalPredTaken = True, e2h_tournamentPredTaken = True, e2h_gsharePredTaken = True, e2h_globalUsed = True, e2h_finalPrediction = True\<rparr>,
    s\<lparr>e2_globalHistory := (e2_globalHistory s)[tid_index t :=
      shift_in (e2_globalHistory s ! tid_index t) True AND e2_historyRegisterMask (e2_cfg s)]\<rparr>)"
  using assms by (simp add: e2_uncondBranch_def e2_updateGlobalHistTaken_def fault_simps)

lemma e2_btbUpdate_eq:
  assumes "ens2_ok s" and "tid_index t < length (e2_globalHistory s)"
  shows "e2_btbUpdate s t a h = Some (s\<lparr>
    e2_globalHistory := (e2_globalHistory s)[tid_index t :=
      clear_lsb (e2_historyRegisterMask (e2_cfg s)) (e2_globalHistory s ! tid_index t)],
    e2_localHistoryTable := (e2_localHistoryTable s)[unat (e2_idx s a) :=
      clear_lsb (e2_localPredictorMask (e2_cfg s)) (e2_localHistoryTable s ! unat (e2_idx s a))]\<rparr>)"
  using assms(2) ens2_range(2) [OF assms(1)] by (simp add: e2_btbUpdate_def e2_calcLocHistIdx_eq [OF assms(1)] fault_simps)

lemma e2_squash_eq:
  assumes "ens2_ok s" and "tid_index t < length (e2_globalHistory s)" and "ens2_hist_ok (e2_cfg s) (Some h)"
  shows "e2_squash s t (Some h) = Some (s\<lparr>
    e2_globalHistory := (e2_globalHistory s)[tid_index t := e2h_globalHistory h],
    e2_localHistoryTable := (if e2h_localHistoryIdx h = invalidPredictorIndex then e2_localHistoryTable s
      else (e2_localHistoryTable s)[unat (e2h_localHistoryIdx h) := e2h_localHistory h])\<rparr>)"
  using assms by (auto simp: e2_squash_def ens2_hist_ok_def ens2_ok_def fault_simps word_less_nat_alt)

lemma e2_update_squashed_eq:
  assumes "ens2_ok s" and "tid_index t < length (e2_globalHistory s)"
  shows "e2_update s t a taken (Some h) True = Some (s\<lparr>
    e2_globalHistory := (e2_globalHistory s)[tid_index t := shift_in (e2h_globalHistory h) taken AND e2_historyRegisterMask (e2_cfg s)],
    e2_localHistoryTable := (if e2h_localHistory h = invalidPredictorIndex then e2_localHistoryTable s
      else (e2_localHistoryTable s)[unat (e2_idx s a) := shift_in (e2h_localHistory h) taken])\<rparr>)"
  using assms(2) ens2_range(2,3) [OF assms(1)]
  by (simp add: e2_update_def e2_calcLocHistIdx_eq [OF assms(1)] fault_simps Let_def)

lemma e2_stats_frame [simp]:
  "e2_cfg (e2_updateAdditionalStats s b h x y z) = e2_cfg s"
  "e2_localCtrs (e2_updateAdditionalStats s b h x y z) = e2_localCtrs s"
  "e2_localHistoryTable (e2_updateAdditionalStats s b h x y z) = e2_localHistoryTable s"
  "e2_globalCtrs (e2_updateAdditionalStats s b h x y z) = e2_globalCtrs s"
  "e2_globalHistory (e2_updateAdditionalStats s b h x y z) = e2_globalHistory s"
  "e2_gshareCtrs (e2_updateAdditionalStats s b h x y z) = e2_gshareCtrs s"
  "e2_choiceCtrs (e2_updateAdditionalStats s b h x y z) = e2_choiceCtrs s"
  "e2_tournamentWeight (e2_updateAdditionalStats s b h x y z) = e2_tournamentWeight s"
  "e2_globalWeight (e2_updateAdditionalStats s b h x y z) = e2_globalWeight s"
  "e2_gshareWeight (e2_updateAdditionalStats s b h x y z) = e2_gshareWeight s"
  by (simp_all add: e2_updateAdditionalStats_def Let_def)

lemma e2_weights_frame [simp]:
  "e2_cfg (e2_updateWeights s b h) = e2_cfg s"
  "e2_localCtrs (e2_updateWeights s b h) = e2_localCtrs s"
  "e2_localHistoryTable (e2_updateWeights s b h) = e2_localHistoryTable s"
  "e2_globalCtrs (e2_updateWeights s b h) = e2_globalCtrs s"
  "e2_globalHistory (e2_updateWeights s b h) = e2_globalHistory s"
  "e2_gshareCtrs (e2_updateWeights s b h) = e2_gshareCtrs s"
  "e2_choiceCtrs (e2_updateWeights s b h) = e2_choiceCtrs s"
  "e2_stats (e2_updateWeights s b h) = e2_stats s"
  by (simp_all add: e2_updateWeights_def Let_def)

text \<open>The choice table after a commit, then the statistics and the weights.\<close>

definition e2_choice_step :: "bool \<Rightarrow> E2BPHistory \<Rightarrow> SatCounter \<Rightarrow> SatCounter" where
  "e2_choice_step taken h =
     (if e2h_localPredTaken h \<noteq> e2h_globalPredTaken h \<and> e2h_localHistory h \<noteq> invalidPredictorIndex
      then train (e2h_globalPredTaken h = taken) else id)"

definition e2_scored :: "EnsembleBP2 \<Rightarrow> bool \<Rightarrow> E2BPHistory \<Rightarrow> EnsembleBP2" where
  "e2_scored s taken h = e2_updateWeights (e2_updateAdditionalStats (s\<lparr>e2_choiceCtrs :=
       (let i = unat (e2h_globalHistory h AND e2_choiceHistoryMask (e2_cfg s)) in
         (e2_choiceCtrs s)[i := e2_choice_step taken h (e2_choiceCtrs s ! i)])\<rparr>) taken h
     (e2h_finalPrediction h = e2h_gsharePredTaken h) (e2h_finalPrediction h = e2h_globalPredTaken h)
     (e2h_finalPrediction h = e2h_tournamentPredTaken h)) taken h"

lemma e2_choice_eq:
  assumes "i < length cs"
  shows "(if e2h_localPredTaken h \<noteq> e2h_globalPredTaken h \<and> e2h_localHistory h \<noteq> invalidPredictorIndex then
      if e2h_localPredTaken h = taken then vec_mod decrement cs i
      else if e2h_globalPredTaken h = taken then vec_mod increment cs i else Some cs
    else Some cs) = Some (cs[i := e2_choice_step taken h (cs ! i)])"
  using assms by (auto simp: e2_choice_step_def train_def vec_mod_Some)

lemma e2_update_commit_eq:
  assumes "ens2_ok s" and "tid_index t < length (e2_globalHistory s)"
  shows "e2_update s t a taken (Some h) False = Some ((e2_scored s taken h)\<lparr>
    e2_globalCtrs := (let i = unat (e2h_globalHistory h AND e2_globalHistoryMask (e2_cfg s)) in
      (e2_globalCtrs s)[i := train taken (e2_globalCtrs s ! i)]),
    e2_gshareCtrs := (let i = unat (e2_gidx (e2_cfg s) a (e2_globalHistory s ! tid_index t)) in
      (e2_gshareCtrs s)[i := train taken (e2_gshareCtrs s ! i)]),
    e2_localCtrs := (let i = unat (e2h_localHistory h AND e2_localPredictorMask (e2_cfg s)) in
      (if e2h_localHistory h = invalidPredictorIndex then e2_localCtrs s
       else (e2_localCtrs s)[i := train taken (e2_localCtrs s ! i)]))\<rparr>)"
  using assms(2) ens2_range [OF assms(1)]
  unfolding e2_update_def Let_def e2_choice_eq [OF ens2_range(9) [OF assms(1)]]
  by (simp add: e2_calcLocHistIdx_eq [OF assms(1)] e2_gshareIdx_eq [OF assms(1)] fault_simps e2_scored_def Let_def)

lemma e2_choice_step_ok: "ctrs_ok sz bits cs \<Longrightarrow> ctrs_ok sz bits (cs[i := e2_choice_step b h (cs ! i)])"
  by (cases "i < length cs") (auto simp: e2_choice_step_def ctrs_ok_train_at list_update_beyond)

subsection \<open>The contracts of the base class\<close>

lemma ens2_weights_ok:
  assumes "ctr_ok b (e2_tournamentWeight s)" and "ctr_ok b (e2_globalWeight s)" and "ctr_ok b (e2_gshareWeight s)"
  shows "ctr_ok b (e2_tournamentWeight (e2_updateWeights s taken h)) \<and> ctr_ok b (e2_globalWeight (e2_updateWeights s taken h)) \<and>
    ctr_ok b (e2_gshareWeight (e2_updateWeights s taken h))"
  using assms by (simp add: e2_updateWeights_def Let_def adjust_learn learn_ok)

lemma ens2_ok_frame:
  "ens2_ok s \<Longrightarrow> e2_cfg s' = e2_cfg s \<Longrightarrow> e2_localCtrs s' = e2_localCtrs s \<Longrightarrow> e2_globalCtrs s' = e2_globalCtrs s \<Longrightarrow>
   e2_gshareCtrs s' = e2_gshareCtrs s \<Longrightarrow> e2_choiceCtrs s' = e2_choiceCtrs s \<Longrightarrow> e2_tournamentWeight s' = e2_tournamentWeight s \<Longrightarrow> e2_globalWeight s' = e2_globalWeight s \<Longrightarrow>
   e2_gshareWeight s' = e2_gshareWeight s \<Longrightarrow> length (e2_localHistoryTable s') = length (e2_localHistoryTable s) \<Longrightarrow>
   length (e2_globalHistory s') = length (e2_globalHistory s) \<Longrightarrow> ens2_ok s'"
  by (simp add: ens2_ok_def)

lemma ens2_commit_ok:
  assumes "ens2_ok s" and "tid_index t < length (e2_globalHistory s)" and "e2_update s t a taken (Some h) False = Some s'"
  shows "ens2_ok s' \<and> e2_cfg s' = e2_cfg s \<and> e2_globalHistory s' = e2_globalHistory s \<and> e2_localHistoryTable s' = e2_localHistoryTable s"
  using assms ens2_weights_ok
  by (auto simp: e2_update_commit_eq ens2_ok_def ctrs_ok_train_at e2_choice_step_ok e2_scored_def Let_def)

definition ens2_undo :: "ThreadID \<Rightarrow> E2BPHistory option \<Rightarrow> unsigned list \<Rightarrow> unsigned list" where
  "ens2_undo t ho gh = (case ho of None \<Rightarrow> gh | Some h \<Rightarrow> gh[tid_index t := e2h_globalHistory h])"

lemma ens2_threads_length: "ens2_ok s \<Longrightarrow> ens2_threads (e2_cfg s) = length (e2_globalHistory s)"
  by (simp add: ens2_ok_def ens2_threads_def)

lemma ens2_hist_ok_lookup: "ens2_ok s \<Longrightarrow> ens2_hist_ok (e2_cfg s) (Some (e2_hist s t a))"
  using ens2_range(3) by (simp add: ens2_hist_ok_def e2_hist_def Let_def)

interpretation ens2: speculative_predictor Ensemble2Dir ens2_ok e2_cfg ens2_threads ens2_hist_ok e2_globalHistory ens2_undo
proof unfold_locales
  fix s s' s'' :: EnsembleBP2 and t :: ThreadID and a :: Addr and h :: "E2BPHistory option" and b q :: bool
  assume ok: "ens2_ok s" and "tid_index t < ens2_threads (e2_cfg s)"
  then have i: "tid_index t < length (e2_globalHistory s)" by (simp add: ens2_threads_length)
  show "\<exists>b h s'. dp_lookup Ensemble2Dir s t a = Some (b, h, s') \<and> ens2_ok s' \<and> e2_cfg s' = e2_cfg s \<and> ens2_hist_ok (e2_cfg s) h"
    using ok by (simp add: e2_lookup_eq [OF ok i] ens2_hist_ok_lookup [OF ok])
  show "\<exists>h s'. dp_uncondBranch Ensemble2Dir s t a = Some (h, s') \<and> ens2_ok s' \<and> e2_cfg s' = e2_cfg s \<and> ens2_hist_ok (e2_cfg s) h"
    by (simp add: e2_uncond_eq [OF i] ens2_hist_ok_def ens2_ok_frame [OF ok])
  show "dp_lookup Ensemble2Dir s t a = Some (b, h, s') \<Longrightarrow> ens2_undo t h (e2_globalHistory s') = e2_globalHistory s"
    using i ok by (auto simp: e2_lookup_eq ens2_undo_def)
  show "dp_uncondBranch Ensemble2Dir s t a = Some (h, s') \<Longrightarrow> ens2_undo t h (e2_globalHistory s') = e2_globalHistory s"
    using i by (auto simp: e2_uncond_eq [OF i] ens2_undo_def)
  show "dp_lookup Ensemble2Dir s t a = Some (b, h, s') \<Longrightarrow> dp_btbUpdate Ensemble2Dir s' t a h = Some s'' \<Longrightarrow>
      ens2_undo t h (e2_globalHistory s'') = e2_globalHistory s"
    using i ok by (auto simp: e2_lookup_eq e2_btbUpdate_eq ens2_undo_def)
  show "dp_uncondBranch Ensemble2Dir s t a = Some (h, s') \<Longrightarrow> dp_btbUpdate Ensemble2Dir s' t a h = Some s'' \<Longrightarrow>
      ens2_undo t h (e2_globalHistory s'') = e2_globalHistory s"
    using i by (auto simp: e2_uncond_eq [OF i] e2_btbUpdate_eq ens2_ok_frame [OF ok] ens2_undo_def)
  assume "ens2_hist_ok (e2_cfg s) h"
  then obtain x where h: "h = Some x" "ens2_hist_ok (e2_cfg s) (Some x)" by (cases h) (auto simp: ens2_hist_ok_def)
  show "\<exists>s'. dp_btbUpdate Ensemble2Dir s t a h = Some s' \<and> ens2_ok s' \<and> e2_cfg s' = e2_cfg s"
    by (simp add: e2_btbUpdate_eq [OF ok i] ens2_ok_frame [OF ok])
  show "\<exists>s'. dp_update Ensemble2Dir s t a b h q = Some s' \<and> ens2_ok s' \<and> e2_cfg s' = e2_cfg s"
    using ens2_commit_ok [OF ok i, of a b x] e2_update_commit_eq [OF ok i, of a b x]
    by (cases q) (auto simp: h(1) e2_update_squashed_eq [OF ok i] intro: ens2_ok_frame [OF ok])
  show "\<exists>s'. dp_squash Ensemble2Dir s t h = Some s' \<and> ens2_ok s' \<and> e2_cfg s' = e2_cfg s"
    by (simp add: h(1) e2_squash_eq [OF ok i h(2)] ens2_ok_frame [OF ok])
  show "\<exists>g. dp_getGHR Ensemble2Dir s t h = Some g" by (simp add: h(1) e2_getGHR_def)
  show "dp_squash Ensemble2Dir s t h = Some s' \<Longrightarrow> e2_globalHistory s' = ens2_undo t h (e2_globalHistory s)"
    by (auto simp: h(1) e2_squash_eq [OF ok i h(2)] ens2_undo_def)
  show "dp_update Ensemble2Dir s t a b h False = Some s' \<Longrightarrow> e2_globalHistory s' = e2_globalHistory s"
    using ens2_commit_ok [OF ok i, of a b x] by (simp add: h(1))
qed

subsection \<open>The constructed predictor\<close>

lemma EnsembleBP2_new_ok:
  assumes "EnsembleBP2_new junk p = Inr s" and "unat (e2p_instShiftAmt p) < 64"
    and "e2p_globalPredictorSize p \<le> e2p_gsharePredictorSize p" and "e2p_choicePredictorSize p \<noteq> 0"
  shows "ens2_ok s" and "e2_numThreads (e2_cfg s) = e2p_numThreads p"
proof -
  obtain lb gb cb lc gc sc cc lw where
    d: "ceilLog2 (e2p_localPredictorSize p) = Some lb" "ceilLog2 (e2p_globalPredictorSize p) = Some gb"
      "isPowerOf2 (e2p_localPredictorSize p)" "isPowerOf2 (e2p_globalPredictorSize p)" "isPowerOf2 (e2p_gsharePredictorSize p)"
      "isPowerOf2 (e2p_localHistoryTableSize p)"
    and c: "fresh_counters junk (e2p_localPredictorSize p) (e2p_localCtrBits p) = Some lc"
      "fresh_counters junk (e2p_globalPredictorSize p) (e2p_globalCtrBits p) = Some gc"
      "fresh_counters junk (e2p_gsharePredictorSize p) (e2p_gshareCtrBits p) = Some sc"
      "fresh_counters junk (e2p_choicePredictorSize p) (e2p_choiceCtrBits p) = Some cc"
    and w: "setBits WEIGHT_COUNTER_SIZE2 (SatCounter_default junk) = Some lw"
    and s: "e2_localCtrs s = lc" "e2_globalCtrs s = gc" "e2_gshareCtrs s = sc" "e2_choiceCtrs s = cc"
      "e2_tournamentWeight s = lw" "e2_globalWeight s = lw" "e2_gshareWeight s = lw"
      "e2_localHistoryTable s = replicate (unat (e2p_localHistoryTableSize p)) 0"
      "e2_globalHistory s = replicate (unat (e2p_numThreads p)) 0"
    and f: "e2_numThreads (e2_cfg s) = e2p_numThreads p" "e2_instShiftAmt (e2_cfg s) = e2p_instShiftAmt p"
      "e2_localPredictorSize (e2_cfg s) = e2p_localPredictorSize p" "e2_localPredictorMask (e2_cfg s) = ucast (mask64 lb)"
      "e2_localCtrBits (e2_cfg s) = e2p_localCtrBits p" "e2_localHistoryTableSize (e2_cfg s) = e2p_localHistoryTableSize p"
      "e2_globalPredictorSize (e2_cfg s) = e2p_globalPredictorSize p" "e2_globalCtrBits (e2_cfg s) = e2p_globalCtrBits p"
      "e2_globalHistoryMask (e2_cfg s) = e2p_globalPredictorSize p - 1"
      "e2_choiceHistoryMask (e2_cfg s) = e2p_choicePredictorSize p - 1"
      "e2_choicePredictorSize (e2_cfg s) = e2p_choicePredictorSize p" "e2_choiceCtrBits (e2_cfg s) = e2p_choiceCtrBits p"
      "e2_gsharePredictorSize (e2_cfg s) = e2p_gsharePredictorSize p" "e2_gshareCtrBits (e2_cfg s) = e2p_gshareCtrBits p"
    using assms(1) by (auto simp: EnsembleBP2_new_def ebind_eq_Inr Let_def)
  have nz: "e2p_localPredictorSize p \<noteq> 0" "e2p_globalPredictorSize p \<noteq> 0" "e2p_gsharePredictorSize p \<noteq> 0"
    "e2p_localHistoryTableSize p \<noteq> 0" using d(3-6) by (auto simp: isPowerOf2_def)
  have m: "ucast (mask64 lb) = e2p_localPredictorSize p - 1"
    using ceilLog2_mask [OF d(3)] d(1) by auto
  moreover have "ctr_ok WEIGHT_COUNTER_SIZE2 lw"
    using w by (auto simp: setBits_def SatCounter_default_def ctr_ok_def sat_ok_def WEIGHT_COUNTER_SIZE2_def maxVal_of_bits_def)
  ultimately show "ens2_ok s"
    using nz assms(2-4) ctrs_ok_fresh [OF c(1)] ctrs_ok_fresh [OF c(2)] ctrs_ok_fresh [OF c(3)] ctrs_ok_fresh [OF c(4)]
    by (simp add: ens2_ok_def ens2_cfg_ok_def s f)
  show "e2_numThreads (e2_cfg s) = e2p_numThreads p" by (fact f(1))
qed

text \<open>A small instance, and a unit built on it.\<close>

definition sample_ens2_params :: Ensemble2Params where
  "sample_ens2_params = \<lparr>e2p_numThreads = 1, e2p_instShiftAmt = 2, e2p_localPredictorSize = 2, e2p_localCtrBits = 2,
     e2p_localHistoryTableSize = 2, e2p_globalPredictorSize = 4, e2p_globalCtrBits = 2, e2p_choicePredictorSize = 4,
     e2p_choiceCtrBits = 2, e2p_gsharePredictorSize = 4,
     e2p_gshareCtrBits = 2\<rparr>"

definition sample_ens2 :: EnsembleBP2 where
  "sample_ens2 = projr (EnsembleBP2_new 0 sample_ens2_params)"

definition sample_ens2_unit :: "(EnsembleBP2, E2BPHistory, Addr) BPredUnit" where
  "sample_ens2_unit = projr (BPredUnit_new sample_isa 0 sample_bp sample_ens2)"

lemma sample_ens2_new: "EnsembleBP2_new 0 sample_ens2_params = Inr sample_ens2"
  by code_simp

lemma sample_ens2_unit_new: "BPredUnit_new sample_isa 0 sample_bp sample_ens2 = Inr sample_ens2_unit"
  by code_simp

lemma sample_ens2_ok: "ens2_ok sample_ens2"
  by (rule EnsembleBP2_new_ok [OF sample_ens2_new]) code_simp+

lemma sample_ens2_unit_ok: "unit_ok ens2_ok e2_cfg ens2_threads ens2_hist_ok sample_ens2_unit"
  by (rule ens2.BPredUnit_new_ok [OF sample_ens2_unit_new sample_bp_ok sample_ens2_ok]) code_simp

lemma sample_ens2_thread: "tid_index 0 < length (e2_globalHistory sample_ens2)"
  by code_simp

end
