(* ===== verification/Ensemble2_Props.thy ===== *)
theory Ensemble2_Props
  imports Ensemble2 Ensemble_Props
begin

text \<open>
  What the second ensemble predictor computes: the unit built on it does not fault under the two
  size conditions its constructor leaves out, the verdict is the weighted majority of its three
  experts, and its expert statistics look at the wrong expert.
\<close>



definition empty_choice_params :: Ensemble2Params where
  "empty_choice_params = sample_ens2_params\<lparr>e2p_choicePredictorSize := 0\<rparr>"

definition small_gshare2_params :: Ensemble2Params where
  "small_gshare2_params = sample_ens2_params\<lparr>e2p_gsharePredictorSize := 1\<rparr>"

text \<open>
  Both size conditions are needed: the constructor accepts an empty choice table and a gshare
  table smaller than the global one, and the lookup then reads past the end of the table.
\<close>

theorem ensemble2_unchecked_sizes_fault:
  "(\<exists>s. EnsembleBP2_new 0 empty_choice_params = Inr s \<and> e2_lookup s 0 0x40 = None) \<and>
   (\<exists>s. EnsembleBP2_new 0 small_gshare2_params = Inr s \<and> e2_lookup s 0 0x44 = None)"
proof (intro conjI exI)
  show "EnsembleBP2_new 0 empty_choice_params = Inr (projr (EnsembleBP2_new 0 empty_choice_params))" by code_simp
  show "e2_lookup (projr (EnsembleBP2_new 0 empty_choice_params)) 0 0x40 = None" by code_simp
  show "EnsembleBP2_new 0 small_gshare2_params = Inr (projr (EnsembleBP2_new 0 small_gshare2_params))" by code_simp
  show "e2_lookup (projr (EnsembleBP2_new 0 small_gshare2_params)) 0 0x44 = None" by code_simp
qed

definition votes2_for :: "bool \<Rightarrow> EnsembleBP2 \<Rightarrow> E2BPHistory \<Rightarrow> nat" where
  "votes2_for b s h =
     (if e2h_tournamentPredTaken h = b then unat (counter (e2_tournamentWeight s)) else 0) +
     (if e2h_globalPredTaken h = b then unat (counter (e2_globalWeight s)) else 0) +
     (if e2h_gsharePredTaken h = b then unat (counter (e2_gshareWeight s)) else 0)"

text \<open>
  \<^bold>\<open>C33.\<close> The prediction of the second ensemble is the weighted majority of global, tournament and
  gshare, a tie counting as taken; the tournament's vote is the global or the local one as the
  choice counter says, so a local vote that agrees with the global one never matters.
\<close>

theorem ensemble2_weighted_majority:
  assumes "ens2_ok s" and "tid_index t < length (e2_globalHistory s)" and "e2_lookup s t a = Some (b, Some h, s')"
  shows "s' = s \<and> e2h_finalPrediction h = b \<and> (b \<longleftrightarrow> votes2_for False s h \<le> votes2_for True s h) \<and>
    e2h_tournamentPredTaken h = (if e2h_globalUsed h then e2h_globalPredTaken h else e2h_localPredTaken h)"
proof -
  have h: "h = e2_hist s t a" "b = e2h_finalPrediction h" "s' = s" using assms(3) by (auto simp: e2_lookup_eq [OF assms(1,2)])
  have "e2h_finalPrediction h = e2_verdict s (e2h_tournamentPredTaken h) (e2h_globalPredTaken h) (e2h_gsharePredTaken h)"
    by (simp add: h(1) e2_hist_def Let_def)
  also have "\<dots> \<longleftrightarrow> votes2_for False s h \<le> votes2_for True s h"
    unfolding e2_verdict_def vote_signed votes2_for_def signed_votes ..
  finally show ?thesis using h by (simp add: e2_hist_def Let_def)
qed

theorem ensemble2_weighted_majority_witness:
  "\<exists>h. e2_lookup sample_ens2 0 0x40 = Some (True, Some h, sample_ens2) \<and>
    votes2_for False sample_ens2 h \<le> votes2_for True sample_ens2 h"
proof -
  have l: "e2_lookup sample_ens2 0 0x40 = Some (True, Some (e2_hist sample_ens2 0 0x40), sample_ens2)" by code_simp
  show ?thesis using ensemble2_weighted_majority [OF sample_ens2_ok sample_ens2_thread l] l by blast
qed

text \<open>
  The statistics of the second ensemble are wrong about its experts: when global, tournament and
  gshare are all wrong while the local predictor, which has no vote, is right, the case is not
  counted as all experts wrong, and it is counted as a misprediction with a correct expert.
\<close>

theorem ensemble2_statistics_wrong_expert:
  "e2_stats (e2_updateAdditionalStats s taken
     \<lparr>e2h_globalHistory = gh, e2h_localHistoryIdx = li, e2h_localHistory = lh, e2h_localPredTaken = taken,
      e2h_globalPredTaken = (\<not> taken), e2h_tournamentPredTaken = (\<not> taken), e2h_gsharePredTaken = (\<not> taken),
      e2h_globalUsed = True, e2h_finalPrediction = (\<not> taken)\<rparr> True True True) =
   (e2_stats s)\<lparr>atLeastOneCorrectExpertOnMispredict := atLeastOneCorrectExpertOnMispredict (e2_stats s) + 1\<rparr>"
  by (simp add: e2_updateAdditionalStats_def Let_def)

end
