(* ===== verification/Bi_Mode.thy ===== *)
theory Bi_Mode
  imports Sample_Config
begin

text \<open>
  \<open>cpu/pred/bi_mode.hh\<close> and \<open>bi_mode.cc\<close>: the bi-mode predictor. A choice table indexed by the
  address selects one of two direction tables, which are indexed by the address hashed with the
  global history.
\<close>

record BiModeCfg =
  bm_numThreads :: unsigned
  bm_instShiftAmt :: unsigned
  bm_globalHistoryBits :: unsigned
  bm_historyRegisterMask :: unsigned
  bm_choicePredictorSize :: unsigned
  bm_choiceCtrBits :: unsigned
  bm_choiceHistoryMask :: unsigned
  bm_globalPredictorSize :: unsigned
  bm_globalCtrBits :: unsigned
  bm_globalHistoryMask :: unsigned
  bm_choiceThreshold :: unsigned
  bm_takenThreshold :: unsigned
  bm_notTakenThreshold :: unsigned

record BiModeBP =
  bm_cfg :: BiModeCfg
  choiceCounters :: "SatCounter list"
  takenCounters :: "SatCounter list"
  notTakenCounters :: "SatCounter list"
  globalHistoryReg :: "unsigned list"

record BMHistory =
  bh_globalHistoryReg :: unsigned
  bh_takenUsed :: bool
  bh_takenPred :: bool
  bh_notTakenPred :: bool
  bh_finalPred :: bool

record BiModeParams =
  bmp_numThreads :: unsigned
  bmp_instShiftAmt :: unsigned
  bmp_choicePredictorSize :: unsigned
  bmp_choiceCtrBits :: unsigned
  bmp_globalPredictorSize :: unsigned
  bmp_globalCtrBits :: unsigned

definition BiModeBP_new :: "uint8 \<Rightarrow> BiModeParams \<Rightarrow> bp_error + BiModeBP" where
  "BiModeBP_new junk p =
     ebind (no_fault (ceilLog2 (bmp_globalPredictorSize p))) (\<lambda>bits.
     ebind (error_if (\<not> isPowerOf2 (bmp_choicePredictorSize p)) (Fatal ''Invalid choice predictor size.'')) (\<lambda>_.
     ebind (error_if (\<not> isPowerOf2 (bmp_globalPredictorSize p)) (Fatal ''Invalid global history predictor size.'')) (\<lambda>_.
     ebind (no_fault (fresh_counters junk (bmp_choicePredictorSize p) (bmp_choiceCtrBits p))) (\<lambda>choice.
     ebind (no_fault (fresh_counters junk (bmp_globalPredictorSize p) (bmp_globalCtrBits p))) (\<lambda>takens.
     ebind (no_fault (fresh_counters junk (bmp_globalPredictorSize p) (bmp_globalCtrBits p))) (\<lambda>notTakens.
     ebind (no_fault (threshold_of_bits (bmp_choiceCtrBits p))) (\<lambda>threshold.
       Inr \<lparr>bm_cfg =
              \<lparr>bm_numThreads = bmp_numThreads p, bm_instShiftAmt = bmp_instShiftAmt p,
               bm_globalHistoryBits = of_nat bits,
               bm_historyRegisterMask = ucast (mask64 bits),
               bm_choicePredictorSize = bmp_choicePredictorSize p,
               bm_choiceCtrBits = bmp_choiceCtrBits p,
               bm_choiceHistoryMask = bmp_choicePredictorSize p - 1,
               bm_globalPredictorSize = bmp_globalPredictorSize p,
               bm_globalCtrBits = bmp_globalCtrBits p,
               bm_globalHistoryMask = bmp_globalPredictorSize p - 1,
               bm_choiceThreshold = threshold,
               bm_takenThreshold = threshold,
               bm_notTakenThreshold = threshold\<rparr>,
            choiceCounters = choice,
            takenCounters = takens,
            notTakenCounters = notTakens,
            globalHistoryReg = replicate (unat (bmp_numThreads p)) 0\<rparr>)))))))"

definition bm_updateGlobalHistReg :: "BiModeBP \<Rightarrow> ThreadID \<Rightarrow> bool \<Rightarrow> BiModeBP option" where
  "bm_updateGlobalHistReg s tid taken = do {
     g \<leftarrow> vec_mod (\<lambda>h. (if taken then push_bit 1 h OR 1 else push_bit 1 h) AND bm_historyRegisterMask (bm_cfg s))
            (globalHistoryReg s) (tid_index tid);
     Some (s\<lparr>globalHistoryReg := g\<rparr>) }"

definition bm_uncondBranch :: "BiModeBP \<Rightarrow> ThreadID \<Rightarrow> Addr \<Rightarrow> (BMHistory option \<times> BiModeBP) option" where
  "bm_uncondBranch s tid pc = do {
     g \<leftarrow> vec_at (globalHistoryReg s) (tid_index tid);
     let history = \<lparr>bh_globalHistoryReg = g, bh_takenUsed = True, bh_takenPred = True, bh_notTakenPred = True,
       bh_finalPred = True\<rparr>;
     s \<leftarrow> bm_updateGlobalHistReg s tid True;
     Some (Some history, s) }"

definition bm_squash :: "BiModeBP \<Rightarrow> ThreadID \<Rightarrow> BMHistory option \<Rightarrow> BiModeBP option" where
  "bm_squash s tid bp_history = do {
     history \<leftarrow> bp_history;
     g \<leftarrow> vec_put (globalHistoryReg s) (tid_index tid) (bh_globalHistoryReg history);
     Some (s\<lparr>globalHistoryReg := g\<rparr>) }"

definition bm_lookup :: "BiModeBP \<Rightarrow> ThreadID \<Rightarrow> Addr \<Rightarrow> (bool \<times> BMHistory option \<times> BiModeBP) option" where
  "bm_lookup s tid branchAddr = do {
     let c = bm_cfg s;
     choiceHistoryIdx \<leftarrow> pc_idx (bm_instShiftAmt c) (bm_choiceHistoryMask c) branchAddr;
     g \<leftarrow> vec_at (globalHistoryReg s) (tid_index tid);
     globalHistoryIdx \<leftarrow> hash_idx (bm_instShiftAmt c) (bm_globalHistoryMask c) branchAddr g;
     assert_that (choiceHistoryIdx < bm_choicePredictorSize c);
     assert_that (globalHistoryIdx < bm_globalPredictorSize c);
     cc \<leftarrow> vec_at (choiceCounters s) (unat choiceHistoryIdx);
     let choicePrediction = above (bm_choiceThreshold c) cc;
     tc \<leftarrow> vec_at (takenCounters s) (unat globalHistoryIdx);
     let takenGHBPrediction = above (bm_takenThreshold c) tc;
     nc \<leftarrow> vec_at (notTakenCounters s) (unat globalHistoryIdx);
     let notTakenGHBPrediction = above (bm_notTakenThreshold c) nc;
     let finalPrediction = (if choicePrediction then takenGHBPrediction else notTakenGHBPrediction);
     let history = \<lparr>bh_globalHistoryReg = g, bh_takenUsed = choicePrediction, bh_takenPred = takenGHBPrediction,
       bh_notTakenPred = notTakenGHBPrediction, bh_finalPred = finalPrediction\<rparr>;
     s \<leftarrow> bm_updateGlobalHistReg s tid finalPrediction;
     Some (finalPrediction, Some history, s) }"

definition bm_btbUpdate :: "BiModeBP \<Rightarrow> ThreadID \<Rightarrow> Addr \<Rightarrow> BMHistory option \<Rightarrow> BiModeBP option" where
  "bm_btbUpdate s tid branchAddr bp_history = do {
     g \<leftarrow> vec_mod (clear_lsb (bm_historyRegisterMask (bm_cfg s))) (globalHistoryReg s) (tid_index tid);
     Some (s\<lparr>globalHistoryReg := g\<rparr>) }"

definition bm_update ::
    "BiModeBP \<Rightarrow> ThreadID \<Rightarrow> Addr \<Rightarrow> bool \<Rightarrow> BMHistory option \<Rightarrow> bool \<Rightarrow> BiModeBP option" where
  "bm_update s tid branchAddr taken bp_history squashed = do {
     history \<leftarrow> bp_history;
     let c = bm_cfg s;
     if squashed then do {
       g \<leftarrow> vec_put (globalHistoryReg s) (tid_index tid) (shift_in (bh_globalHistoryReg history) taken);
       Some (s\<lparr>globalHistoryReg := g\<rparr>) }
     else do {
       choiceHistoryIdx \<leftarrow> pc_idx (bm_instShiftAmt c) (bm_choiceHistoryMask c) branchAddr;
       globalHistoryIdx \<leftarrow> hash_idx (bm_instShiftAmt c) (bm_globalHistoryMask c) branchAddr (bh_globalHistoryReg history);
       assert_that (choiceHistoryIdx < bm_choicePredictorSize c);
       assert_that (globalHistoryIdx < bm_globalPredictorSize c);
       s \<leftarrow> (if bh_takenUsed history then do {
               tc \<leftarrow> vec_mod (train taken) (takenCounters s) (unat globalHistoryIdx);
               Some (s\<lparr>takenCounters := tc\<rparr>) }
             else do {
               nc \<leftarrow> vec_mod (train taken) (notTakenCounters s) (unat globalHistoryIdx);
               Some (s\<lparr>notTakenCounters := nc\<rparr>) });
       if bh_finalPred history = taken then
         if bh_finalPred history = bh_takenUsed history then do {
           cc \<leftarrow> vec_mod (train taken) (choiceCounters s) (unat choiceHistoryIdx);
           Some (s\<lparr>choiceCounters := cc\<rparr>) }
         else Some s
       else do {
         cc \<leftarrow> vec_mod (train taken) (choiceCounters s) (unat choiceHistoryIdx);
         Some (s\<lparr>choiceCounters := cc\<rparr>) } } }"

definition bm_getGHR :: "BiModeBP \<Rightarrow> ThreadID \<Rightarrow> BMHistory option \<Rightarrow> unsigned option" where
  "bm_getGHR s tid bp_history = map_option bh_globalHistoryReg bp_history"

definition BiModeDir :: "(BiModeBP, BMHistory) DirPred" where
  "BiModeDir = \<lparr>dp_lookup = bm_lookup, dp_uncondBranch = bm_uncondBranch, dp_btbUpdate = bm_btbUpdate,
     dp_update = bm_update, dp_squash = bm_squash, dp_getGHR = bm_getGHR\<rparr>"

lemma BiModeDir_simps [simp]:
  "dp_lookup BiModeDir = bm_lookup" "dp_uncondBranch BiModeDir = bm_uncondBranch"
  "dp_btbUpdate BiModeDir = bm_btbUpdate" "dp_update BiModeDir = bm_update"
  "dp_squash BiModeDir = bm_squash" "dp_getGHR BiModeDir = bm_getGHR"
  by (simp_all add: BiModeDir_def)

subsection \<open>Invariant\<close>

definition bimode_cfg_ok :: "BiModeCfg \<Rightarrow> bool" where
  "bimode_cfg_ok c \<longleftrightarrow> unat (bm_instShiftAmt c) < 64 \<and>
     bm_choicePredictorSize c \<noteq> 0 \<and> bm_choiceHistoryMask c = bm_choicePredictorSize c - 1 \<and>
     bm_globalPredictorSize c \<noteq> 0 \<and> bm_globalHistoryMask c = bm_globalPredictorSize c - 1 \<and>
     bm_historyRegisterMask c = bm_globalHistoryMask c \<and> (\<exists>k<32. bm_globalHistoryMask c = mask k)"

definition bimode_ok :: "BiModeBP \<Rightarrow> bool" where
  "bimode_ok s \<longleftrightarrow> bimode_cfg_ok (bm_cfg s) \<and>
     ctrs_ok (bm_choicePredictorSize (bm_cfg s)) (bm_choiceCtrBits (bm_cfg s)) (choiceCounters s) \<and>
     ctrs_ok (bm_globalPredictorSize (bm_cfg s)) (bm_globalCtrBits (bm_cfg s)) (takenCounters s) \<and>
     ctrs_ok (bm_globalPredictorSize (bm_cfg s)) (bm_globalCtrBits (bm_cfg s)) (notTakenCounters s) \<and>
     length (globalHistoryReg s) = unat (bm_numThreads (bm_cfg s))"

definition bimode_hist_ok :: "BiModeCfg \<Rightarrow> BMHistory option \<Rightarrow> bool" where
  "bimode_hist_ok c ho \<longleftrightarrow> ho \<noteq> None"

definition bimode_threads :: "BiModeCfg \<Rightarrow> nat" where
  "bimode_threads c = unat (bm_numThreads c)"

text \<open>The two table indices and the history object as functions of the state.\<close>

definition bm_cidx :: "BiModeBP \<Rightarrow> Addr \<Rightarrow> unsigned" where
  "bm_cidx s a = pci (bm_instShiftAmt (bm_cfg s)) (bm_choiceHistoryMask (bm_cfg s)) a"

definition bm_gidx :: "BiModeBP \<Rightarrow> Addr \<Rightarrow> unsigned \<Rightarrow> unsigned" where
  "bm_gidx s a g = hashi (bm_instShiftAmt (bm_cfg s)) (bm_globalHistoryMask (bm_cfg s)) a g"

definition bm_hist :: "BiModeBP \<Rightarrow> ThreadID \<Rightarrow> Addr \<Rightarrow> BMHistory" where
  "bm_hist s t a = (let c = bm_cfg s; g = globalHistoryReg s ! tid_index t;
       used = above (bm_choiceThreshold c) (choiceCounters s ! unat (bm_cidx s a));
       tp = above (bm_takenThreshold c) (takenCounters s ! unat (bm_gidx s a g));
       np = above (bm_notTakenThreshold c) (notTakenCounters s ! unat (bm_gidx s a g)) in
     \<lparr>bh_globalHistoryReg = g, bh_takenUsed = used, bh_takenPred = tp, bh_notTakenPred = np,
      bh_finalPred = (if used then tp else np)\<rparr>)"

definition bm_spec :: "BiModeBP \<Rightarrow> ThreadID \<Rightarrow> bool \<Rightarrow> BiModeBP" where
  "bm_spec s t b = s\<lparr>globalHistoryReg := (globalHistoryReg s)[tid_index t :=
     shift_in (globalHistoryReg s ! tid_index t) b AND bm_historyRegisterMask (bm_cfg s)]\<rparr>"

lemma bimode_range:
  assumes "bimode_ok s"
  shows "unat (bm_instShiftAmt (bm_cfg s)) < 64"
    and "unat (bm_cidx s a) < length (choiceCounters s)" and "bm_cidx s a < bm_choicePredictorSize (bm_cfg s)"
    and "unat (bm_gidx s a g) < length (takenCounters s)" and "unat (bm_gidx s a g) < length (notTakenCounters s)"
    and "bm_gidx s a g < bm_globalPredictorSize (bm_cfg s)"
  using assms
  by (auto simp: bimode_ok_def bimode_cfg_ok_def bm_cidx_def bm_gidx_def pci_less hashi_less ctrs_ok_def)

lemma bm_idx_eq:
  assumes "bimode_ok s"
  shows "pc_idx (bm_instShiftAmt (bm_cfg s)) (bm_choiceHistoryMask (bm_cfg s)) a = Some (bm_cidx s a)"
    and "hash_idx (bm_instShiftAmt (bm_cfg s)) (bm_globalHistoryMask (bm_cfg s)) a g = Some (bm_gidx s a g)"
  using bimode_range(1) [OF assms] by (simp_all add: pc_idx_eq hash_idx_eq bm_cidx_def bm_gidx_def)

lemma bm_updateGHR_eq:
  "tid_index t < length (globalHistoryReg s) \<Longrightarrow> bm_updateGlobalHistReg s t b = Some (bm_spec s t b)"
  by (cases b) (simp_all add: bm_updateGlobalHistReg_def bm_spec_def fault_simps)

lemma bm_lookup_eq:
  assumes "bimode_ok s" and "tid_index t < length (globalHistoryReg s)"
  shows "bm_lookup s t a = Some (bh_finalPred (bm_hist s t a), Some (bm_hist s t a), bm_spec s t (bh_finalPred (bm_hist s t a)))"
  using assms bimode_range [OF assms(1)]
  by (simp add: bm_lookup_def bm_idx_eq fault_simps bm_updateGHR_eq bm_hist_def Let_def)

lemma bm_uncond_eq:
  assumes "tid_index t < length (globalHistoryReg s)"
  shows "bm_uncondBranch s t a = Some (Some \<lparr>bh_globalHistoryReg = globalHistoryReg s ! tid_index t, bh_takenUsed = True,
      bh_takenPred = True, bh_notTakenPred = True, bh_finalPred = True\<rparr>, bm_spec s t True)"
  using assms by (simp add: bm_uncondBranch_def fault_simps bm_updateGHR_eq)

text \<open>When the choice counter moves: not if the other table would have been the biased choice.\<close>

definition bm_choice_moves :: "BMHistory \<Rightarrow> bool \<Rightarrow> bool" where
  "bm_choice_moves h taken \<longleftrightarrow> \<not> (bh_finalPred h = taken \<and> bh_takenUsed h \<noteq> taken)"

lemma bm_update_commit_eq:
  assumes "bimode_ok s"
  shows "bm_update s t a taken (Some h) False = Some (let i = unat (bm_gidx s a (bh_globalHistoryReg h)); j = unat (bm_cidx s a) in
    s\<lparr>takenCounters := (if bh_takenUsed h then (takenCounters s)[i := train taken (takenCounters s ! i)] else takenCounters s),
      notTakenCounters := (if bh_takenUsed h then notTakenCounters s else (notTakenCounters s)[i := train taken (notTakenCounters s ! i)]),
      choiceCounters := (if bm_choice_moves h taken then (choiceCounters s)[j := train taken (choiceCounters s ! j)] else choiceCounters s)\<rparr>)"
  using bimode_range [OF assms]
  by (auto simp: bm_update_def bm_idx_eq [OF assms] fault_simps bm_choice_moves_def Let_def)

lemma bm_update_squashed_eq:
  "tid_index t < length (globalHistoryReg s) \<Longrightarrow>
   bm_update s t a taken (Some h) True =
     Some (s\<lparr>globalHistoryReg := (globalHistoryReg s)[tid_index t := shift_in (bh_globalHistoryReg h) taken]\<rparr>)"
  by (simp add: bm_update_def fault_simps del: shift_in_simps)

lemmas bm_simple_eqs = bm_btbUpdate_def bm_squash_def bm_getGHR_def

subsection \<open>The contracts of the base class\<close>

definition bimode_undo :: "ThreadID \<Rightarrow> BMHistory option \<Rightarrow> unsigned list \<Rightarrow> unsigned list" where
  "bimode_undo t ho g = (case ho of None \<Rightarrow> g | Some h \<Rightarrow> g[tid_index t := bh_globalHistoryReg h])"

lemma bimode_threads_length: "bimode_ok s \<Longrightarrow> bimode_threads (bm_cfg s) = length (globalHistoryReg s)"
  by (simp add: bimode_ok_def bimode_threads_def)

lemma bimode_ok_ghr: "bimode_ok s \<Longrightarrow> length g = length (globalHistoryReg s) \<Longrightarrow> bimode_ok (s\<lparr>globalHistoryReg := g\<rparr>)"
  by (simp add: bimode_ok_def)

lemma bimode_spec_ok [simp]: "bimode_ok s \<Longrightarrow> bimode_ok (bm_spec s t b)" "bm_cfg (bm_spec s t b) = bm_cfg s"
  "globalHistoryReg (bm_spec s t b) = (globalHistoryReg s)[tid_index t :=
     shift_in (globalHistoryReg s ! tid_index t) b AND bm_historyRegisterMask (bm_cfg s)]"
  by (simp_all add: bm_spec_def bimode_ok_ghr)

lemma bimode_commit_ok:
  assumes "bimode_ok s" and "bm_update s t a taken (Some h) False = Some s'"
  shows "bimode_ok s'" and "bm_cfg s' = bm_cfg s" and "globalHistoryReg s' = globalHistoryReg s"
  using assms by (auto simp: bm_update_commit_eq bimode_ok_def ctrs_ok_train_at Let_def)

interpretation bimode: speculative_predictor BiModeDir bimode_ok bm_cfg bimode_threads bimode_hist_ok globalHistoryReg bimode_undo
proof unfold_locales
  fix s s' s'' :: BiModeBP and t :: ThreadID and a :: Addr and h :: "BMHistory option" and b q :: bool
  assume ok: "bimode_ok s" and "tid_index t < bimode_threads (bm_cfg s)"
  then have i: "tid_index t < length (globalHistoryReg s)" by (simp add: bimode_threads_length)
  show "\<exists>b h s'. dp_lookup BiModeDir s t a = Some (b, h, s') \<and> bimode_ok s' \<and> bm_cfg s' = bm_cfg s \<and> bimode_hist_ok (bm_cfg s) h"
    using ok by (simp add: bm_lookup_eq [OF ok i] bimode_hist_ok_def)
  show "\<exists>h s'. dp_uncondBranch BiModeDir s t a = Some (h, s') \<and> bimode_ok s' \<and> bm_cfg s' = bm_cfg s \<and> bimode_hist_ok (bm_cfg s) h"
    using ok by (simp add: bm_uncond_eq [OF i] bimode_hist_ok_def)
  show "dp_lookup BiModeDir s t a = Some (b, h, s') \<Longrightarrow> bimode_undo t h (globalHistoryReg s') = globalHistoryReg s"
    by (auto simp: bm_lookup_eq [OF ok i] bimode_undo_def bm_hist_def Let_def)
  show "dp_uncondBranch BiModeDir s t a = Some (h, s') \<Longrightarrow> bimode_undo t h (globalHistoryReg s') = globalHistoryReg s"
    by (auto simp: bm_uncond_eq [OF i] bimode_undo_def)
  show "dp_lookup BiModeDir s t a = Some (b, h, s') \<Longrightarrow> dp_btbUpdate BiModeDir s' t a h = Some s'' \<Longrightarrow>
      bimode_undo t h (globalHistoryReg s'') = globalHistoryReg s"
    using i by (auto simp: bm_lookup_eq [OF ok i] bm_btbUpdate_def fault_simps bimode_undo_def bm_hist_def Let_def)
  show "dp_uncondBranch BiModeDir s t a = Some (h, s') \<Longrightarrow> dp_btbUpdate BiModeDir s' t a h = Some s'' \<Longrightarrow>
      bimode_undo t h (globalHistoryReg s'') = globalHistoryReg s"
    using i by (auto simp: bm_uncond_eq [OF i] bm_btbUpdate_def fault_simps bimode_undo_def)
  assume "bimode_hist_ok (bm_cfg s) h"
  then obtain x where h: "h = Some x" by (auto simp: bimode_hist_ok_def)
  have g: "bimode_ok (s\<lparr>globalHistoryReg := (globalHistoryReg s)[j := v]\<rparr>)" for j v
    by (rule bimode_ok_ghr [OF ok]) simp
  show "\<exists>s'. dp_btbUpdate BiModeDir s t a h = Some s' \<and> bimode_ok s' \<and> bm_cfg s' = bm_cfg s"
    using i by (simp add: bm_btbUpdate_def vec_mod_Some g)
  show "\<exists>s'. dp_update BiModeDir s t a b h q = Some s' \<and> bimode_ok s' \<and> bm_cfg s' = bm_cfg s"
  proof (cases q)
    case True
    then show ?thesis by (simp add: h bm_update_squashed_eq [OF i] g)
  next
    case False
    obtain s1 where "bm_update s t a b h False = Some s1" unfolding h bm_update_commit_eq [OF ok] by blast
    then show ?thesis using False bimode_commit_ok [OF ok, of t a b x s1] by (simp add: h)
  qed
  show "\<exists>s'. dp_squash BiModeDir s t h = Some s' \<and> bimode_ok s' \<and> bm_cfg s' = bm_cfg s"
    using i by (simp add: h bm_squash_def vec_put_Some g)
  show "\<exists>g. dp_getGHR BiModeDir s t h = Some g" by (simp add: h bm_getGHR_def)
  show "dp_squash BiModeDir s t h = Some s' \<Longrightarrow> globalHistoryReg s' = bimode_undo t h (globalHistoryReg s)"
    using i by (auto simp: h bm_squash_def fault_simps bimode_undo_def)
  show "dp_update BiModeDir s t a b h False = Some s' \<Longrightarrow> globalHistoryReg s' = globalHistoryReg s"
    using bimode_commit_ok(3) [OF ok] by (auto simp: h)
qed

subsection \<open>The constructed predictor\<close>

lemma BiModeBP_new_ok:
  assumes "BiModeBP_new junk p = Inr s" and "unat (bmp_instShiftAmt p) < 64"
  shows "bimode_ok s" and "bm_numThreads (bm_cfg s) = bmp_numThreads p"
proof -
  obtain gb cc tc nc th where
    d: "ceilLog2 (bmp_globalPredictorSize p) = Some gb" "isPowerOf2 (bmp_choicePredictorSize p)"
      "isPowerOf2 (bmp_globalPredictorSize p)"
    and c: "fresh_counters junk (bmp_choicePredictorSize p) (bmp_choiceCtrBits p) = Some cc"
      "fresh_counters junk (bmp_globalPredictorSize p) (bmp_globalCtrBits p) = Some tc"
      "fresh_counters junk (bmp_globalPredictorSize p) (bmp_globalCtrBits p) = Some nc"
    and s: "s = \<lparr>bm_cfg = \<lparr>bm_numThreads = bmp_numThreads p, bm_instShiftAmt = bmp_instShiftAmt p,
               bm_globalHistoryBits = of_nat gb, bm_historyRegisterMask = ucast (mask64 gb),
               bm_choicePredictorSize = bmp_choicePredictorSize p, bm_choiceCtrBits = bmp_choiceCtrBits p,
               bm_choiceHistoryMask = bmp_choicePredictorSize p - 1, bm_globalPredictorSize = bmp_globalPredictorSize p,
               bm_globalCtrBits = bmp_globalCtrBits p, bm_globalHistoryMask = bmp_globalPredictorSize p - 1,
               bm_choiceThreshold = th, bm_takenThreshold = th, bm_notTakenThreshold = th\<rparr>,
            choiceCounters = cc, takenCounters = tc, notTakenCounters = nc,
            globalHistoryReg = replicate (unat (bmp_numThreads p)) 0\<rparr>"
    using assms(1) by (auto simp: BiModeBP_new_def ebind_eq_Inr)
  have nz: "bmp_choicePredictorSize p \<noteq> 0" "bmp_globalPredictorSize p \<noteq> 0" using d by (auto simp: isPowerOf2_def)
  have m: "ucast (mask64 gb) = bmp_globalPredictorSize p - 1" "gb < 32" using ceilLog2_mask [OF d(3)] d(1) by auto
  moreover have "(ucast (mask64 gb) :: unsigned) = mask gb"
    using ucast_mask64 [OF m(2)] by (simp add: mask_eq_exp_minus_1)
  ultimately have "\<exists>k<32. bmp_globalPredictorSize p - 1 = mask k" by metis
  then show "bimode_ok s"
    using nz m assms(2) ctrs_ok_fresh [OF c(1)] ctrs_ok_fresh [OF c(2)] ctrs_ok_fresh [OF c(3)]
    by (auto simp: bimode_ok_def bimode_cfg_ok_def s)
  show "bm_numThreads (bm_cfg s) = bmp_numThreads p" by (simp add: s)
qed

definition sample_bimode_params :: BiModeParams where
  "sample_bimode_params = \<lparr>bmp_numThreads = 1, bmp_instShiftAmt = 2, bmp_choicePredictorSize = 2, bmp_choiceCtrBits = 2,
     bmp_globalPredictorSize = 4, bmp_globalCtrBits = 2\<rparr>"

definition sample_bimode :: BiModeBP where
  "sample_bimode = projr (BiModeBP_new 0 sample_bimode_params)"

definition sample_bimode_unit :: "(BiModeBP, BMHistory, Addr) BPredUnit" where
  "sample_bimode_unit = projr (BPredUnit_new sample_isa 0 sample_bp sample_bimode)"

lemma sample_bimode_new: "BiModeBP_new 0 sample_bimode_params = Inr sample_bimode"
  by code_simp

lemma sample_bimode_unit_new: "BPredUnit_new sample_isa 0 sample_bp sample_bimode = Inr sample_bimode_unit"
  by code_simp

lemma sample_bimode_ok: "bimode_ok sample_bimode"
  by (rule BiModeBP_new_ok [OF sample_bimode_new]) code_simp

lemma sample_bimode_thread: "tid_index 0 < length (globalHistoryReg sample_bimode)"
  by code_simp

subsection \<open>Properties\<close>



text \<open>
  \<^bold>\<open>C28.\<close> Predicting a branch and committing its outcome trains the direction table the choice
  selected, at the counter that was read, and leaves the other direction table as it was; the
  choice counter moves towards the outcome except when the choice was opposite to the outcome
  and the prediction was nevertheless right.
\<close>

theorem bimode_commit_policy:
  assumes "bimode_ok s" and "tid_index t < length (globalHistoryReg s)"
    and "bm_lookup s t a = Some (b, Some h, s1)" and "bm_update s1 t a taken (Some h) False = Some s2"
  shows "let i = unat (bm_gidx s a (globalHistoryReg s ! tid_index t)); j = unat (bm_cidx s a);
      choice = above (bm_choiceThreshold (bm_cfg s)) (choiceCounters s ! j);
      tr = \<lambda>k cs. cs[k := train taken (cs ! k)] in
    takenCounters s2 = (if choice then tr i (takenCounters s) else takenCounters s) \<and>
    notTakenCounters s2 = (if choice then notTakenCounters s else tr i (notTakenCounters s)) \<and>
    choiceCounters s2 = (if choice \<noteq> taken \<and> b = taken then choiceCounters s else tr j (choiceCounters s)) \<and>
    globalHistoryReg s2 = globalHistoryReg s1"
proof -
  have h: "h = bm_hist s t a" "b = bh_finalPred h" "s1 = bm_spec s t b" using assms(3) by (auto simp: bm_lookup_eq [OF assms(1,2)])
  have "bimode_ok s1" using assms(1) h by simp
  then have s2: "Some s2 = bm_update s1 t a taken (Some h) False" "bimode_ok s1" using assms(4) by simp_all
  have f: "bm_gidx s1 = bm_gidx s" "bm_cidx s1 = bm_cidx s" "takenCounters s1 = takenCounters s"
    "notTakenCounters s1 = notTakenCounters s" "choiceCounters s1 = choiceCounters s"
    by (auto simp: h(3) bm_spec_def bm_gidx_def bm_cidx_def fun_eq_iff)
  show ?thesis
    using s2(1) unfolding bm_update_commit_eq [OF s2(2)] f
    by (auto simp: h(1,2) bm_choice_moves_def bm_hist_def Let_def)
qed

theorem bimode_commit_policy_witness:
  "map counter (notTakenCounters (the (bm_update (bm_spec sample_bimode 0 False) 0 0x40 True
    (Some (bm_hist sample_bimode 0 0x40)) False))) = [1, 0, 0, 0]"
proof -
  let ?h = "bm_hist sample_bimode 0 0x40" let ?s1 = "bm_spec sample_bimode 0 False"
  let ?s2 = "the (bm_update ?s1 0 0x40 True (Some ?h) False)"
  have l: "bm_lookup sample_bimode 0 0x40 = Some (False, Some ?h, ?s1)" by code_simp
  have u: "bm_update ?s1 0 0x40 True (Some ?h) False = Some ?s2" by code_simp
  have i: "bm_gidx sample_bimode 0x40 (globalHistoryReg sample_bimode ! tid_index 0) = 0"
    "above (bm_choiceThreshold (bm_cfg sample_bimode)) (choiceCounters sample_bimode ! unat (bm_cidx sample_bimode 0x40)) = False"
    by code_simp+
  have "notTakenCounters ?s2 = (notTakenCounters sample_bimode)[0 := train True (notTakenCounters sample_bimode ! 0)]"
    using bimode_commit_policy [OF sample_bimode_ok sample_bimode_thread l u] by (simp add: i Let_def)
  moreover have "map counter ((notTakenCounters sample_bimode)[0 := train True (notTakenCounters sample_bimode ! 0)]) = [1, 0, 0, 0]"
    by code_simp
  ultimately show ?thesis by simp
qed

text \<open>
  The repair of a misprediction stores \<open>(history << 1) | taken\<close> without the register mask,
  so the register can leave its width; still every later lookup reads the same counters as with
  the masked register that a correct prediction would have left.
\<close>

theorem bimode_repair_same_index:
  assumes "bimode_ok s" and "tid_index t < length (globalHistoryReg s)"
    and "bm_lookup s t a = Some (b, h, s1)" and "bm_update s1 t a taken h True = Some s2"
  shows "bm_gidx s2 x (globalHistoryReg s2 ! tid_index t) =
    bm_gidx s x (globalHistoryReg (bm_spec s t taken) ! tid_index t)"
proof -
  have h: "h = Some (bm_hist s t a)" "s1 = bm_spec s t b" using assms(3) by (auto simp: bm_lookup_eq [OF assms(1,2)])
  have i: "tid_index t < length (globalHistoryReg s1)" using assms(2) h by simp
  have "globalHistoryReg s2 ! tid_index t = shift_in (globalHistoryReg s ! tid_index t) taken" "bm_cfg s2 = bm_cfg s"
    using assms(2,4) by (auto simp: h(1) bm_update_squashed_eq [OF i] bm_hist_def Let_def) (auto simp: h(2))
  moreover have "bm_historyRegisterMask (bm_cfg s) = bm_globalHistoryMask (bm_cfg s)"
    using assms(1) by (simp add: bimode_ok_def bimode_cfg_ok_def)
  ultimately show ?thesis using assms(2) by (simp add: bm_gidx_def hashi_masked del: shift_in_simps)
qed

text \<open>A register of two bits that holds \<open>11\<close>; the mispredicted branch makes it \<open>111\<close>.\<close>

definition full_bimode :: BiModeBP where
  "full_bimode = sample_bimode\<lparr>globalHistoryReg := [3]\<rparr>"

theorem bimode_repair_same_index_witness:
  "\<exists>s2. bm_update (bm_spec full_bimode 0 False) 0 0x40 True (Some (bm_hist full_bimode 0 0x40)) True = Some s2 \<and>
    globalHistoryReg s2 = [7] \<and> bm_historyRegisterMask (bm_cfg s2) = 3 \<and> bm_gidx s2 0x44 7 = bm_gidx full_bimode 0x44 3"
proof -
  let ?h = "Some (bm_hist full_bimode 0 0x40)" let ?s1 = "bm_spec full_bimode 0 False"
  let ?s2 = "the (bm_update ?s1 0 0x40 True ?h True)"
  have ok: "bimode_ok full_bimode" using sample_bimode_thread
    unfolding full_bimode_def by (intro bimode_ok_ghr [OF sample_bimode_ok]) code_simp
  have i: "tid_index 0 < length (globalHistoryReg full_bimode)" by code_simp
  have l: "bm_lookup full_bimode 0 0x40 = Some (False, ?h, ?s1)" by code_simp
  have u: "bm_update ?s1 0 0x40 True ?h True = Some ?s2" by code_simp
  have v: "globalHistoryReg ?s2 = [7]" "bm_historyRegisterMask (bm_cfg ?s2) = 3" "globalHistoryReg ?s2 ! tid_index 0 = 7"
    "globalHistoryReg (bm_spec full_bimode 0 True) ! tid_index 0 = 3" by code_simp+
  show ?thesis using bimode_repair_same_index [OF ok i l u, of "0x44"] u v by metis
qed

end
