(* ===== verification/Pred_Copy.thy ===== *)
theory Pred_Copy
  imports BPred_Undo
begin

text \<open>
  Two derived classes of \<open>BPredUnit\<close> with the same code up to renaming. The locale
  \<open>predictor_copy\<close> states that a class \<open>Q\<close> computes what \<open>P\<close> computes under a translation \<open>f\<close> of
  its state and \<open>g\<close> of its history objects. It gives \<open>Q\<close> the contracts of \<open>P\<close>, and it lifts to the
  whole unit: a unit on \<open>Q\<close> and the translated unit on \<open>P\<close> make the same steps.
\<close>

definition map_entry :: "('k \<Rightarrow> 'h) \<Rightarrow> ('k, 'pc) PredictorHistory \<Rightarrow> ('h, 'pc) PredictorHistory" where
  "map_entry g e = \<lparr>seqNum = seqNum e, ph_pc = ph_pc e, bpHistory = map_option g (bpHistory e), RASTarget = RASTarget e,
     RASIndex = RASIndex e, ph_tid = ph_tid e, predTaken = predTaken e, usedRAS = usedRAS e, pushedRAS = pushedRAS e,
     wasCall = wasCall e, wasReturn = wasReturn e, wasIndirect = wasIndirect e\<rparr>"

definition map_unit :: "('r \<Rightarrow> 's) \<Rightarrow> ('k \<Rightarrow> 'h) \<Rightarrow> ('r, 'k, 'pc) BPredUnit \<Rightarrow> ('s, 'h, 'pc) BPredUnit" where
  "map_unit f g u = \<lparr>dir = f (dir u), bp_numThreads = bp_numThreads u, predHist = map (map (map_entry g)) (predHist u),
     bp_BTB = bp_BTB u, bp_RAS = bp_RAS u, useIndirect = useIndirect u, iPred = iPred u, stats = stats u\<rparr>"

lemma map_entry_simps [simp]:
  "seqNum (map_entry g e) = seqNum e" "ph_pc (map_entry g e) = ph_pc e" "bpHistory (map_entry g e) = map_option g (bpHistory e)"
  "RASTarget (map_entry g e) = RASTarget e" "RASIndex (map_entry g e) = RASIndex e" "predTaken (map_entry g e) = predTaken e"
  "usedRAS (map_entry g e) = usedRAS e" "pushedRAS (map_entry g e) = pushedRAS e" "wasCall (map_entry g e) = wasCall e"
  "wasReturn (map_entry g e) = wasReturn e" "wasIndirect (map_entry g e) = wasIndirect e"
  by (simp_all add: map_entry_def)

lemma map_entry_update [simp]:
  "(map_entry g e)\<lparr>predTaken := b\<rparr> = map_entry g (e\<lparr>predTaken := b\<rparr>)"
  "(map_entry g e)\<lparr>usedRAS := b\<rparr> = map_entry g (e\<lparr>usedRAS := b\<rparr>)"
  "(map_entry g e)\<lparr>pushedRAS := b\<rparr> = map_entry g (e\<lparr>pushedRAS := b\<rparr>)"
  "(map_entry g e)\<lparr>wasCall := b\<rparr> = map_entry g (e\<lparr>wasCall := b\<rparr>)"
  "(map_entry g e)\<lparr>wasReturn := b\<rparr> = map_entry g (e\<lparr>wasReturn := b\<rparr>)"
  "(map_entry g e)\<lparr>wasIndirect := b\<rparr> = map_entry g (e\<lparr>wasIndirect := b\<rparr>)"
  "(map_entry g e)\<lparr>RASIndex := n\<rparr> = map_entry g (e\<lparr>RASIndex := n\<rparr>)"
  "(map_entry g e)\<lparr>RASTarget := x\<rparr> = map_entry g (e\<lparr>RASTarget := x\<rparr>)"
  by (simp_all add: map_entry_def)

lemma map_unit_simps [simp]:
  "dir (map_unit f g u) = f (dir u)" "bp_numThreads (map_unit f g u) = bp_numThreads u"
  "predHist (map_unit f g u) = map (map (map_entry g)) (predHist u)" "bp_BTB (map_unit f g u) = bp_BTB u"
  "bp_RAS (map_unit f g u) = bp_RAS u" "useIndirect (map_unit f g u) = useIndirect u" "iPred (map_unit f g u) = iPred u"
  "stats (map_unit f g u) = stats u"
  by (simp_all add: map_unit_def)

lemma map_unit_update [simp]:
  "(map_unit f g u)\<lparr>dir := f s\<rparr> = map_unit f g (u\<lparr>dir := s\<rparr>)"
  "(map_unit f g u)\<lparr>bp_BTB := b\<rparr> = map_unit f g (u\<lparr>bp_BTB := b\<rparr>)"
  "(map_unit f g u)\<lparr>bp_RAS := r\<rparr> = map_unit f g (u\<lparr>bp_RAS := r\<rparr>)"
  "(map_unit f g u)\<lparr>iPred := ip\<rparr> = map_unit f g (u\<lparr>iPred := ip\<rparr>)"
  "(map_unit f g u)\<lparr>stats := st\<rparr> = map_unit f g (u\<lparr>stats := st\<rparr>)"
  "(map_unit f g u)\<lparr>predHist := map (map (map_entry g)) ph\<rparr> = map_unit f g (u\<lparr>predHist := ph\<rparr>)"
  by (simp_all add: map_unit_def)

text \<open>Sequencing commutes with a translation of the results.\<close>

lemma map_option_bind: "map_option h (m \<bind> k) = (m \<bind> (\<lambda>x. map_option h (k x)))"
  by (cases m) auto

lemma bind_map_option: "(map_option j m \<bind> k) = (m \<bind> (\<lambda>x. k (j x)))"
  by (cases m) auto

lemma map_option_if: "map_option h (if b then x else y) = (if b then map_option h x else map_option h y)"
  by simp

lemma map_option_case_prod: "map_option h (case p of (x, y) \<Rightarrow> k x y) = (case p of (x, y) \<Rightarrow> map_option h (k x y))"
  by (cases p) simp

lemma map_option_case_option:
  "map_option h (case m of None \<Rightarrow> x | Some y \<Rightarrow> k y) = (case m of None \<Rightarrow> map_option h x | Some y \<Rightarrow> map_option h (k y))"
  by (cases m) simp_all

lemma bind_case_option:
  "((case m of None \<Rightarrow> (x :: 'b option) | Some y \<Rightarrow> k y) \<bind> q) = (case m of None \<Rightarrow> x \<bind> q | Some y \<Rightarrow> k y \<bind> q)"
  by (cases m) simp_all

lemma case_list_map: "(case map j xs of [] \<Rightarrow> x | y # ys \<Rightarrow> k y ys) = (case xs of [] \<Rightarrow> x | y # ys \<Rightarrow> k (j y) (map j ys))"
  by (cases xs) simp_all

lemma map_option_case_list:
  "map_option h (case xs of [] \<Rightarrow> x | y # ys \<Rightarrow> k y ys) = (case xs of [] \<Rightarrow> map_option h x | y # ys \<Rightarrow> map_option h (k y ys))"
  by (cases xs) simp_all

lemma map_unit_if: "(if b then map_unit f g u else map_unit f g v) = map_unit f g (if b then u else v)"
  by simp

lemma map_sum_ebind: "map_sum id j (ebind m k) = ebind m (\<lambda>x. map_sum id j (k x))"
  by (cases m) simp_all

lemmas copy_simps = map_option_bind bind_map_option map_option_if map_option_case_prod map_option_case_option
  case_prod_unfold Let_def

text \<open>The parts of the unit that do not call the derived class.\<close>

lemma predict_return_copy:
  "predict_return isa (map_unit f g u) (map_entry g rec) pc t =
     map_option (\<lambda>(b, tg, rec, u). (b, tg, map_entry g rec, map_unit f g u)) (predict_return isa u rec pc t)"
  by (simp add: predict_return_def copy_simps)

lemma push_call_copy:
  "push_call (map_unit f g u) (map_entry g rec) inst pc t =
     map_option (\<lambda>(rec, u). (map_entry g rec, map_unit f g u)) (push_call u rec inst pc t)"
  by (simp add: push_call_def copy_simps)

lemma pop_call_copy:
  "pop_call (map_unit f g u) (map_entry g rec) t =
     map_option (\<lambda>(rec, u). (map_entry g rec, map_unit f g u)) (pop_call u rec t)"
  by (simp add: pop_call_def copy_simps)

lemma repair_RAS_copy [simp]: "repair_RAS r (map_entry g e) = repair_RAS r e"
  by (simp add: repair_RAS_def)

lemma fixup_taken_copy:
  "fixup_taken isa rnd (map_unit f g u) (map_entry g e) ghr tg t =
     map_option (\<lambda>(e, u). (map_entry g e, map_unit f g u)) (fixup_taken isa rnd u e ghr tg t)"
  by (simp add: fixup_taken_def copy_simps)

lemma fixup_not_taken_copy:
  "fixup_not_taken (map_unit f g u) (map_entry g e) t =
     map_option (\<lambda>(e, u). (map_entry g e, map_unit f g u)) (fixup_not_taken u e t)"
  by (simp add: fixup_not_taken_def copy_simps)

locale predictor_copy =
  fixes P :: "('s, 'h) DirPred" and Q :: "('r, 'k) DirPred" and f :: "'r \<Rightarrow> 's" and g :: "'k \<Rightarrow> 'h"
  assumes copy_lookup: "dp_lookup P (f s) t a = map_option (\<lambda>(b, h, s). (b, map_option g h, f s)) (dp_lookup Q s t a)"
    and copy_uncond: "dp_uncondBranch P (f s) t a = map_option (\<lambda>(h, s). (map_option g h, f s)) (dp_uncondBranch Q s t a)"
    and copy_btb: "dp_btbUpdate P (f s) t a (map_option g h) = map_option f (dp_btbUpdate Q s t a h)"
    and copy_update: "dp_update P (f s) t a b (map_option g h) q = map_option f (dp_update Q s t a b h q)"
    and copy_squash: "dp_squash P (f s) t (map_option g h) = map_option f (dp_squash Q s t h)"
    and copy_getGHR: "dp_getGHR P (f s) t (map_option g h) = dp_getGHR Q s t h"
begin

lemma predict_direction_copy:
  "predict_direction P (map_unit f g u) inst a t =
     map_option (\<lambda>(b, h, u). (b, map_option g h, map_unit f g u)) (predict_direction Q u inst a t)"
  by (simp add: predict_direction_def copy_lookup copy_uncond copy_simps)

lemma predict_btb_copy:
  "predict_btb P isa (map_unit f g u) (map_entry g rec) inst pc t =
     map_option (\<lambda>(b, tg, rec, u). (b, tg, map_entry g rec, map_unit f g u)) (predict_btb Q isa u rec inst pc t)"
  by (cases "isCall inst"; cases "isReturn inst"; cases "isUncondCtrl inst")
    (simp_all add: predict_btb_def copy_btb pop_call_copy copy_simps cong: if_cong)

lemma predict_indirect_copy:
  "predict_indirect P isa (map_unit f g u) (map_entry g rec) inst sn pc t =
     map_option (\<lambda>(b, tg, rec, u). (b, tg, map_entry g rec, map_unit f g u)) (predict_indirect Q isa u rec inst sn pc t)"
  by (cases "isCall inst"; cases "isReturn inst"; cases "isUncondCtrl inst")
    (simp_all add: predict_indirect_def copy_getGHR pop_call_copy copy_simps bind_case_option cong: option.case_cong if_cong)

lemma predict_target_copy:
  "predict_target P isa (map_unit f g u) b (map_entry g rec) inst sn pc t =
     map_option (\<lambda>(b, tg, rec, u). (b, tg, map_entry g rec, map_unit f g u)) (predict_target Q isa u b rec inst sn pc t)"
  by (simp add: predict_target_def predict_return_copy push_call_copy predict_btb_copy predict_indirect_copy copy_simps cong: if_cong)

lemma vec_mod_predHist:
  "vec_mod (Cons (map_entry g e)) (map (map (map_entry g)) ph) i = map_option (map (map (map_entry g))) (vec_mod (Cons e) ph i)"
  by (simp add: vec_mod_def map_update)

lemma vec_at_predHist: "vec_at (map (map (map_entry g)) ph) i = map_option (map (map_entry g)) (vec_at ph i)"
  by (simp add: vec_at_def)

lemma predict_copy:
  "predict P isa (map_unit f g u) inst sn pc t =
     map_option (\<lambda>(b, tg, u). (b, tg, map_unit f g u)) (predict Q isa u inst sn pc t)"
proof -
  have new: "PredictorHistory_new z sn a b (map_option g h) t = map_entry g (PredictorHistory_new z sn a b h t)" for z a b h
    by (simp add: PredictorHistory_new_def map_entry_def)
  show ?thesis
    by (simp add: predict_def predict_direction_copy new predict_target_copy vec_mod_predHist copy_simps)
qed

lemma commit_loop_copy:
  "commit_loop P sn t (f s) (map (map_entry g) es) = map_option (\<lambda>(s, es). (f s, map (map_entry g) es)) (commit_loop Q sn t s es)"
  by (induction es arbitrary: s) (simp_all add: copy_update copy_simps)

lemma squash_loop_copy:
  "squash_loop P sn t (f s) r (map (map_entry g) es) =
     map_option (\<lambda>(s, r, es). (f s, r, map (map_entry g) es)) (squash_loop Q sn t s r es)"
  by (induction es arbitrary: s r) (simp_all add: copy_squash copy_simps)

lemma bp_update_copy: "bp_update P (map_unit f g u) sn t = map_option (map_unit f g) (bp_update Q u sn t)"
  by (simp add: bp_update_def vec_at_predHist commit_loop_copy rev_map map_update [symmetric] copy_simps del: map_update)

lemma bp_squash_copy: "bp_squash P (map_unit f g u) sn t = map_option (map_unit f g) (bp_squash Q u sn t)"
  by (simp add: bp_squash_def vec_at_predHist squash_loop_copy map_update [symmetric] copy_simps del: map_update)

lemma bp_mispredict_copy:
  "bp_mispredict P isa rnd (map_unit f g u) sn tg b t = map_option (map_unit f g) (bp_mispredict Q isa rnd u sn tg b t)"
  by (cases b) (simp_all add: bp_mispredict_def bp_squash_copy vec_at_predHist copy_getGHR copy_update fixup_taken_copy fixup_not_taken_copy
      copy_simps map_option_case_list case_list_map map_unit_if list.simps(9) [symmetric] map_update [symmetric]
      del: map_update list.simps(9) cong: list.case_cong if_cong)

lemma bp_step_copy: "bp_step P isa t (map_unit f g u) c = map_option (map_unit f g) (bp_step Q isa t u c)"
  by (cases c) (simp_all add: predict_copy bp_update_copy bp_squash_copy bp_mispredict_copy option.map_comp comp_def case_prod_unfold)

end

subsection \<open>The contracts carry over\<close>

locale predictor_copy_contract = speculative_predictor P inv cfg threads hist_ok view undo + predictor_copy P Q f g
  for P :: "('s, 'h) DirPred" and inv :: "'s \<Rightarrow> bool" and cfg :: "'s \<Rightarrow> 'c" and threads :: "'c \<Rightarrow> nat"
    and hist_ok :: "'c \<Rightarrow> 'h option \<Rightarrow> bool" and view :: "'s \<Rightarrow> 'v" and undo :: "ThreadID \<Rightarrow> 'h option \<Rightarrow> 'v \<Rightarrow> 'v"
    and Q :: "('r, 'k) DirPred" and f :: "'r \<Rightarrow> 's" and g :: "'k \<Rightarrow> 'h"

sublocale predictor_copy_contract \<subseteq> copy: speculative_predictor Q "\<lambda>s. inv (f s)" "\<lambda>s. cfg (f s)" threads
    "\<lambda>c h. hist_ok c (map_option g h)" "\<lambda>s. view (f s)" "\<lambda>t h. undo t (map_option g h)"
proof unfold_locales
  fix s s' s'' t a b h q
  assume ok: "inv (f s)" "tid_index t < threads (cfg (f s))"
  show "\<exists>b h s'. dp_lookup Q s t a = Some (b, h, s') \<and> inv (f s') \<and> cfg (f s') = cfg (f s) \<and> hist_ok (cfg (f s)) (map_option g h)"
    using lookup_ok [OF ok, of a] by (auto simp: copy_lookup)
  show "\<exists>h s'. dp_uncondBranch Q s t a = Some (h, s') \<and> inv (f s') \<and> cfg (f s') = cfg (f s) \<and> hist_ok (cfg (f s)) (map_option g h)"
    using uncond_ok [OF ok, of a] by (auto simp: copy_uncond)
  show "dp_lookup Q s t a = Some (b, h, s') \<Longrightarrow> undo t (map_option g h) (view (f s')) = view (f s)"
    by (rule undo_lookup [OF ok, of a b]) (simp add: copy_lookup)
  show "dp_uncondBranch Q s t a = Some (h, s') \<Longrightarrow> undo t (map_option g h) (view (f s')) = view (f s)"
    by (rule undo_uncond [OF ok, of a]) (simp add: copy_uncond)
  show "dp_lookup Q s t a = Some (b, h, s') \<Longrightarrow> dp_btbUpdate Q s' t a h = Some s'' \<Longrightarrow>
      undo t (map_option g h) (view (f s'')) = view (f s)"
    by (rule undo_lookup_btbUpdate [OF ok, of a b _ "f s'"]) (simp_all add: copy_lookup copy_btb)
  show "dp_uncondBranch Q s t a = Some (h, s') \<Longrightarrow> dp_btbUpdate Q s' t a h = Some s'' \<Longrightarrow>
      undo t (map_option g h) (view (f s'')) = view (f s)"
    by (rule undo_uncond_btbUpdate [OF ok, of a _ "f s'"]) (simp_all add: copy_uncond copy_btb)
  assume h: "hist_ok (cfg (f s)) (map_option g h)"
  show "\<exists>s'. dp_btbUpdate Q s t a h = Some s' \<and> inv (f s') \<and> cfg (f s') = cfg (f s)"
    using btbUpdate_ok [OF ok h, of a] by (auto simp: copy_btb)
  show "\<exists>s'. dp_update Q s t a b h q = Some s' \<and> inv (f s') \<and> cfg (f s') = cfg (f s)"
    using update_ok [OF ok h, of a b q] by (auto simp: copy_update)
  show "\<exists>s'. dp_squash Q s t h = Some s' \<and> inv (f s') \<and> cfg (f s') = cfg (f s)"
    using squash_ok [OF ok h] by (auto simp: copy_squash)
  show "\<exists>x. dp_getGHR Q s t h = Some x"
    using getGHR_ok [OF ok h] by (simp add: copy_getGHR)
  show "dp_squash Q s t h = Some s' \<Longrightarrow> view (f s') = undo t (map_option g h) (view (f s))"
    by (rule squash_view [OF ok h]) (simp add: copy_squash)
  show "dp_update Q s t a b h False = Some s' \<Longrightarrow> view (f s') = view (f s)"
    by (rule commit_view [OF ok h, of a b]) (simp add: copy_update)
qed

end
