(* ===== verification/Gshare_Pred.thy ===== *)
theory Gshare_Pred
  imports Bi_Mode Pred_Copy
begin

text \<open>
  \<open>cpu/pred/gshare.hh\<close> and \<open>gshare.cc\<close>. The class named \<open>Gshare\<close> is marked "COPIED FROM BI-MODE" in
  its source and still has a choice table and two direction tables. It is translated here from
  its own text and related to \<open>BiModeBP\<close>.
\<close>

record GshareCfg =
  gs_numThreads :: unsigned
  gs_instShiftAmt :: unsigned
  gs_globalHistoryBits :: unsigned
  gs_historyRegisterMask :: unsigned
  gs_choicePredictorSize :: unsigned
  gs_choiceCtrBits :: unsigned
  gs_choiceHistoryMask :: unsigned
  gs_globalPredictorSize :: unsigned
  gs_globalCtrBits :: unsigned
  gs_globalHistoryMask :: unsigned
  gs_choiceThreshold :: unsigned
  gs_takenThreshold :: unsigned
  gs_notTakenThreshold :: unsigned

record Gshare =
  gs_cfg :: GshareCfg
  gs_choiceCounters :: "SatCounter list"
  gs_takenCounters :: "SatCounter list"
  gs_notTakenCounters :: "SatCounter list"
  gs_globalHistoryReg :: "unsigned list"

record GshareHistory =
  gh_globalHistoryReg :: unsigned
  gh_takenUsed :: bool
  gh_takenPred :: bool
  gh_notTakenPred :: bool
  gh_finalPred :: bool

record GshareParams =
  gsp_numThreads :: unsigned
  gsp_instShiftAmt :: unsigned
  gsp_choicePredictorSize :: unsigned
  gsp_choiceCtrBits :: unsigned
  gsp_globalPredictorSize :: unsigned
  gsp_globalCtrBits :: unsigned

definition Gshare_new :: "uint8 \<Rightarrow> GshareParams \<Rightarrow> bp_error + Gshare" where
  "Gshare_new junk p =
     ebind (no_fault (ceilLog2 (gsp_globalPredictorSize p))) (\<lambda>bits.
     ebind (error_if (\<not> isPowerOf2 (gsp_choicePredictorSize p)) (Fatal ''Invalid choice predictor size.'')) (\<lambda>_.
     ebind (error_if (\<not> isPowerOf2 (gsp_globalPredictorSize p)) (Fatal ''Invalid global history predictor size.'')) (\<lambda>_.
     ebind (no_fault (fresh_counters junk (gsp_choicePredictorSize p) (gsp_choiceCtrBits p))) (\<lambda>choice.
     ebind (no_fault (fresh_counters junk (gsp_globalPredictorSize p) (gsp_globalCtrBits p))) (\<lambda>takens.
     ebind (no_fault (fresh_counters junk (gsp_globalPredictorSize p) (gsp_globalCtrBits p))) (\<lambda>notTakens.
     ebind (no_fault (threshold_of_bits (gsp_choiceCtrBits p))) (\<lambda>threshold.
       Inr \<lparr>gs_cfg =
              \<lparr>gs_numThreads = gsp_numThreads p, gs_instShiftAmt = gsp_instShiftAmt p,
               gs_globalHistoryBits = of_nat bits,
               gs_historyRegisterMask = ucast (mask64 bits),
               gs_choicePredictorSize = gsp_choicePredictorSize p,
               gs_choiceCtrBits = gsp_choiceCtrBits p,
               gs_choiceHistoryMask = gsp_choicePredictorSize p - 1,
               gs_globalPredictorSize = gsp_globalPredictorSize p,
               gs_globalCtrBits = gsp_globalCtrBits p,
               gs_globalHistoryMask = gsp_globalPredictorSize p - 1,
               gs_choiceThreshold = threshold,
               gs_takenThreshold = threshold,
               gs_notTakenThreshold = threshold\<rparr>,
            gs_choiceCounters = choice,
            gs_takenCounters = takens,
            gs_notTakenCounters = notTakens,
            gs_globalHistoryReg = replicate (unat (gsp_numThreads p)) 0\<rparr>)))))))"

definition gs_updateGlobalHistReg :: "Gshare \<Rightarrow> ThreadID \<Rightarrow> bool \<Rightarrow> Gshare option" where
  "gs_updateGlobalHistReg s tid taken = do {
     g \<leftarrow> vec_mod (\<lambda>h. (if taken then push_bit 1 h OR 1 else push_bit 1 h) AND gs_historyRegisterMask (gs_cfg s))
            (gs_globalHistoryReg s) (tid_index tid);
     Some (s\<lparr>gs_globalHistoryReg := g\<rparr>) }"

definition gs_uncondBranch :: "Gshare \<Rightarrow> ThreadID \<Rightarrow> Addr \<Rightarrow> (GshareHistory option \<times> Gshare) option" where
  "gs_uncondBranch s tid pc = do {
     g \<leftarrow> vec_at (gs_globalHistoryReg s) (tid_index tid);
     let history = \<lparr>gh_globalHistoryReg = g, gh_takenUsed = True, gh_takenPred = True, gh_notTakenPred = True,
       gh_finalPred = True\<rparr>;
     s \<leftarrow> gs_updateGlobalHistReg s tid True;
     Some (Some history, s) }"

definition gs_squash :: "Gshare \<Rightarrow> ThreadID \<Rightarrow> GshareHistory option \<Rightarrow> Gshare option" where
  "gs_squash s tid bp_history = do {
     history \<leftarrow> bp_history;
     g \<leftarrow> vec_put (gs_globalHistoryReg s) (tid_index tid) (gh_globalHistoryReg history);
     Some (s\<lparr>gs_globalHistoryReg := g\<rparr>) }"

definition gs_lookup :: "Gshare \<Rightarrow> ThreadID \<Rightarrow> Addr \<Rightarrow> (bool \<times> GshareHistory option \<times> Gshare) option" where
  "gs_lookup s tid branchAddr = do {
     let c = gs_cfg s;
     choiceHistoryIdx \<leftarrow> pc_idx (gs_instShiftAmt c) (gs_choiceHistoryMask c) branchAddr;
     g \<leftarrow> vec_at (gs_globalHistoryReg s) (tid_index tid);
     globalHistoryIdx \<leftarrow> hash_idx (gs_instShiftAmt c) (gs_globalHistoryMask c) branchAddr g;
     assert_that (choiceHistoryIdx < gs_choicePredictorSize c);
     assert_that (globalHistoryIdx < gs_globalPredictorSize c);
     cc \<leftarrow> vec_at (gs_choiceCounters s) (unat choiceHistoryIdx);
     let choicePrediction = above (gs_choiceThreshold c) cc;
     tc \<leftarrow> vec_at (gs_takenCounters s) (unat globalHistoryIdx);
     let takenGHBPrediction = above (gs_takenThreshold c) tc;
     nc \<leftarrow> vec_at (gs_notTakenCounters s) (unat globalHistoryIdx);
     let notTakenGHBPrediction = above (gs_notTakenThreshold c) nc;
     let finalPrediction = (if choicePrediction then takenGHBPrediction else notTakenGHBPrediction);
     let history = \<lparr>gh_globalHistoryReg = g, gh_takenUsed = choicePrediction, gh_takenPred = takenGHBPrediction,
       gh_notTakenPred = notTakenGHBPrediction, gh_finalPred = finalPrediction\<rparr>;
     s \<leftarrow> gs_updateGlobalHistReg s tid finalPrediction;
     Some (finalPrediction, Some history, s) }"

definition gs_btbUpdate :: "Gshare \<Rightarrow> ThreadID \<Rightarrow> Addr \<Rightarrow> GshareHistory option \<Rightarrow> Gshare option" where
  "gs_btbUpdate s tid branchAddr bp_history = do {
     g \<leftarrow> vec_mod (clear_lsb (gs_historyRegisterMask (gs_cfg s))) (gs_globalHistoryReg s) (tid_index tid);
     Some (s\<lparr>gs_globalHistoryReg := g\<rparr>) }"

definition gs_update ::
    "Gshare \<Rightarrow> ThreadID \<Rightarrow> Addr \<Rightarrow> bool \<Rightarrow> GshareHistory option \<Rightarrow> bool \<Rightarrow> Gshare option" where
  "gs_update s tid branchAddr taken bp_history squashed = do {
     history \<leftarrow> bp_history;
     let c = gs_cfg s;
     if squashed then do {
       g \<leftarrow> vec_put (gs_globalHistoryReg s) (tid_index tid) (shift_in (gh_globalHistoryReg history) taken);
       Some (s\<lparr>gs_globalHistoryReg := g\<rparr>) }
     else do {
       choiceHistoryIdx \<leftarrow> pc_idx (gs_instShiftAmt c) (gs_choiceHistoryMask c) branchAddr;
       globalHistoryIdx \<leftarrow> hash_idx (gs_instShiftAmt c) (gs_globalHistoryMask c) branchAddr (gh_globalHistoryReg history);
       assert_that (choiceHistoryIdx < gs_choicePredictorSize c);
       assert_that (globalHistoryIdx < gs_globalPredictorSize c);
       s \<leftarrow> (if gh_takenUsed history then do {
               tc \<leftarrow> vec_mod (train taken) (gs_takenCounters s) (unat globalHistoryIdx);
               Some (s\<lparr>gs_takenCounters := tc\<rparr>) }
             else do {
               nc \<leftarrow> vec_mod (train taken) (gs_notTakenCounters s) (unat globalHistoryIdx);
               Some (s\<lparr>gs_notTakenCounters := nc\<rparr>) });
       if gh_finalPred history = taken then
         if gh_finalPred history = gh_takenUsed history then do {
           cc \<leftarrow> vec_mod (train taken) (gs_choiceCounters s) (unat choiceHistoryIdx);
           Some (s\<lparr>gs_choiceCounters := cc\<rparr>) }
         else Some s
       else do {
         cc \<leftarrow> vec_mod (train taken) (gs_choiceCounters s) (unat choiceHistoryIdx);
         Some (s\<lparr>gs_choiceCounters := cc\<rparr>) } } }"

definition gs_getGHR :: "Gshare \<Rightarrow> ThreadID \<Rightarrow> GshareHistory option \<Rightarrow> unsigned option" where
  "gs_getGHR s tid bp_history = map_option gh_globalHistoryReg bp_history"

definition GshareDir :: "(Gshare, GshareHistory) DirPred" where
  "GshareDir = \<lparr>dp_lookup = gs_lookup, dp_uncondBranch = gs_uncondBranch, dp_btbUpdate = gs_btbUpdate,
     dp_update = gs_update, dp_squash = gs_squash, dp_getGHR = gs_getGHR\<rparr>"

lemma GshareDir_simps [simp]:
  "dp_lookup GshareDir = gs_lookup" "dp_uncondBranch GshareDir = gs_uncondBranch"
  "dp_btbUpdate GshareDir = gs_btbUpdate" "dp_update GshareDir = gs_update"
  "dp_squash GshareDir = gs_squash" "dp_getGHR GshareDir = gs_getGHR"
  by (simp_all add: GshareDir_def)

subsection \<open>Translation to the bi-mode predictor\<close>

definition gshare_cfg :: "GshareCfg \<Rightarrow> BiModeCfg" where
  "gshare_cfg c = \<lparr>bm_numThreads = gs_numThreads c, bm_instShiftAmt = gs_instShiftAmt c,
     bm_globalHistoryBits = gs_globalHistoryBits c, bm_historyRegisterMask = gs_historyRegisterMask c,
     bm_choicePredictorSize = gs_choicePredictorSize c, bm_choiceCtrBits = gs_choiceCtrBits c,
     bm_choiceHistoryMask = gs_choiceHistoryMask c, bm_globalPredictorSize = gs_globalPredictorSize c,
     bm_globalCtrBits = gs_globalCtrBits c, bm_globalHistoryMask = gs_globalHistoryMask c,
     bm_choiceThreshold = gs_choiceThreshold c, bm_takenThreshold = gs_takenThreshold c,
     bm_notTakenThreshold = gs_notTakenThreshold c\<rparr>"

definition gshare_state :: "Gshare \<Rightarrow> BiModeBP" where
  "gshare_state s = \<lparr>bm_cfg = gshare_cfg (gs_cfg s), choiceCounters = gs_choiceCounters s,
     takenCounters = gs_takenCounters s, notTakenCounters = gs_notTakenCounters s,
     globalHistoryReg = gs_globalHistoryReg s\<rparr>"

definition gshare_hist :: "GshareHistory \<Rightarrow> BMHistory" where
  "gshare_hist h = \<lparr>bh_globalHistoryReg = gh_globalHistoryReg h, bh_takenUsed = gh_takenUsed h,
     bh_takenPred = gh_takenPred h, bh_notTakenPred = gh_notTakenPred h, bh_finalPred = gh_finalPred h\<rparr>"

definition gshare_params :: "GshareParams \<Rightarrow> BiModeParams" where
  "gshare_params p = \<lparr>bmp_numThreads = gsp_numThreads p, bmp_instShiftAmt = gsp_instShiftAmt p,
     bmp_choicePredictorSize = gsp_choicePredictorSize p, bmp_choiceCtrBits = gsp_choiceCtrBits p,
     bmp_globalPredictorSize = gsp_globalPredictorSize p, bmp_globalCtrBits = gsp_globalCtrBits p\<rparr>"

lemma gshare_cfg_simps [simp]:
  "bm_instShiftAmt (gshare_cfg c) = gs_instShiftAmt c" "bm_historyRegisterMask (gshare_cfg c) = gs_historyRegisterMask c"
  "bm_choicePredictorSize (gshare_cfg c) = gs_choicePredictorSize c" "bm_choiceHistoryMask (gshare_cfg c) = gs_choiceHistoryMask c"
  "bm_globalPredictorSize (gshare_cfg c) = gs_globalPredictorSize c" "bm_globalHistoryMask (gshare_cfg c) = gs_globalHistoryMask c"
  "bm_choiceThreshold (gshare_cfg c) = gs_choiceThreshold c" "bm_takenThreshold (gshare_cfg c) = gs_takenThreshold c"
  "bm_notTakenThreshold (gshare_cfg c) = gs_notTakenThreshold c"
  by (simp_all add: gshare_cfg_def)

lemma gshare_state_simps [simp]:
  "bm_cfg (gshare_state s) = gshare_cfg (gs_cfg s)" "choiceCounters (gshare_state s) = gs_choiceCounters s"
  "takenCounters (gshare_state s) = gs_takenCounters s" "notTakenCounters (gshare_state s) = gs_notTakenCounters s"
  "globalHistoryReg (gshare_state s) = gs_globalHistoryReg s"
  "(gshare_state s)\<lparr>choiceCounters := xs\<rparr> = gshare_state (s\<lparr>gs_choiceCounters := xs\<rparr>)"
  "(gshare_state s)\<lparr>takenCounters := xs\<rparr> = gshare_state (s\<lparr>gs_takenCounters := xs\<rparr>)"
  "(gshare_state s)\<lparr>notTakenCounters := xs\<rparr> = gshare_state (s\<lparr>gs_notTakenCounters := xs\<rparr>)"
  "(gshare_state s)\<lparr>globalHistoryReg := hs\<rparr> = gshare_state (s\<lparr>gs_globalHistoryReg := hs\<rparr>)"
  by (simp_all add: gshare_state_def)

lemma gshare_hist_simps [simp]:
  "bh_globalHistoryReg (gshare_hist h) = gh_globalHistoryReg h" "bh_takenUsed (gshare_hist h) = gh_takenUsed h"
  "bh_finalPred (gshare_hist h) = gh_finalPred h"
  by (simp_all add: gshare_hist_def)

lemma gshare_updateGHR: "bm_updateGlobalHistReg (gshare_state s) t b = map_option gshare_state (gs_updateGlobalHistReg s t b)"
  by (simp add: bm_updateGlobalHistReg_def gs_updateGlobalHistReg_def copy_simps)

lemma gshare_new_copy: "map_sum id gshare_state (Gshare_new junk p) = BiModeBP_new junk (gshare_params p)"
  by (simp add: Gshare_new_def BiModeBP_new_def gshare_params_def map_sum_ebind) (simp add: gshare_state_def gshare_cfg_def)

interpretation gshare: predictor_copy_contract BiModeDir bimode_ok bm_cfg bimode_threads bimode_hist_ok globalHistoryReg bimode_undo
  GshareDir gshare_state gshare_hist
proof unfold_locales
  fix s t a b q and h :: "GshareHistory option"
  show "dp_lookup BiModeDir (gshare_state s) t a = map_option (\<lambda>(b, h, s). (b, map_option gshare_hist h, gshare_state s)) (dp_lookup GshareDir s t a)"
    by (simp add: bm_lookup_def gs_lookup_def gshare_updateGHR copy_simps cong: if_cong) (simp add: gshare_hist_def)
  show "dp_uncondBranch BiModeDir (gshare_state s) t a = map_option (\<lambda>(h, s). (map_option gshare_hist h, gshare_state s)) (dp_uncondBranch GshareDir s t a)"
    by (simp add: bm_uncondBranch_def gs_uncondBranch_def gshare_updateGHR copy_simps) (simp add: gshare_hist_def)
  show "dp_btbUpdate BiModeDir (gshare_state s) t a (map_option gshare_hist h) = map_option gshare_state (dp_btbUpdate GshareDir s t a h)"
    by (simp add: bm_btbUpdate_def gs_btbUpdate_def copy_simps)
  show "dp_update BiModeDir (gshare_state s) t a b (map_option gshare_hist h) q = map_option gshare_state (dp_update GshareDir s t a b h q)"
  proof (cases h)
    case (Some x)
    then show ?thesis
      by (cases "gh_takenUsed x"; cases "gh_finalPred x"; cases b; cases q)
        (simp_all add: bm_update_def gs_update_def copy_simps)
  qed (simp add: bm_update_def gs_update_def)
  show "dp_squash BiModeDir (gshare_state s) t (map_option gshare_hist h) = map_option gshare_state (dp_squash GshareDir s t h)"
    by (simp add: bm_squash_def gs_squash_def copy_simps)
  show "dp_getGHR BiModeDir (gshare_state s) t (map_option gshare_hist h) = dp_getGHR GshareDir s t h"
    by (simp add: bm_getGHR_def gs_getGHR_def option.map_comp comp_def)
qed

subsection \<open>Properties\<close>

lemma gshare_unit_never_faults:
  assumes "Gshare_new junk p = Inr s" and "unat (gsp_instShiftAmt p) < 64"
    and "BPredUnit_new isa junk' q s = Inr u0" and "params_ok q" and "p_numThreads q = gsp_numThreads p"
    and "bp_reach GshareDir isa u0 u" and "tid_index t < unat (bp_numThreads u)" and "call_ok t u c"
  shows "\<exists>u'. bp_step GshareDir isa t u c = Some u'"
proof -
  have "BiModeBP_new junk (gshare_params p) = Inr (gshare_state s)" using gshare_new_copy [of junk p] assms(1) by simp
  from BiModeBP_new_ok [OF this] assms(2) have new: "bimode_ok (gshare_state s)" "bm_numThreads (bm_cfg (gshare_state s)) = gsp_numThreads p"
    by (simp_all add: gshare_params_def)
  then have "unit_ok (\<lambda>s. bimode_ok (gshare_state s)) (\<lambda>s. bm_cfg (gshare_state s)) bimode_threads
      (\<lambda>c h. bimode_hist_ok c (map_option gshare_hist h)) u0"
    using gshare.copy.BPredUnit_new_ok [OF assms(3,4) new(1)] assms(5) by (simp add: bimode_threads_def)
  then show ?thesis using gshare.copy.reach_no_fault assms(6-8) by blast
qed

text \<open>
  \<^bold>\<open>C29.\<close> The class \<open>Gshare\<close> is the bi-mode predictor: its constructor gives the same tables, and a unit
  built on it makes, call for call, the same predictions, updates and squashes as the unit built
  on \<open>BiModeBP\<close>, whatever the state.
\<close>

theorem gshare_is_bimode:
  "map_sum id gshare_state (Gshare_new junk p) = BiModeBP_new junk (gshare_params p) \<and>
   predict BiModeDir isa (map_unit gshare_state gshare_hist u) inst sn pc t =
     map_option (\<lambda>(b, tg, u). (b, tg, map_unit gshare_state gshare_hist u)) (predict GshareDir isa u inst sn pc t) \<and>
   bp_step BiModeDir isa t (map_unit gshare_state gshare_hist u) c =
     map_option (map_unit gshare_state gshare_hist) (bp_step GshareDir isa t u c)"
  by (intro conjI gshare_new_copy gshare.predict_copy gshare.bp_step_copy)

end
