(* ===== verification/Yags_Pred.thy ===== *)
theory Yags_Pred
  imports Bi_Mode Pred_Copy
begin

text \<open>
  \<open>cpu/pred/yags.hh\<close> and \<open>yags.cc\<close>. The class named \<open>Yags\<close> is marked "COPIED FROM BI-MODE" in its
  source: it has no tagged caches of exceptions. It is translated here from its own text and
  related to \<open>BiModeBP\<close>.
\<close>

record YagsCfg =
  ya_numThreads :: unsigned
  ya_instShiftAmt :: unsigned
  ya_globalHistoryBits :: unsigned
  ya_historyRegisterMask :: unsigned
  ya_choicePredictorSize :: unsigned
  ya_choiceCtrBits :: unsigned
  ya_choiceHistoryMask :: unsigned
  ya_globalPredictorSize :: unsigned
  ya_globalCtrBits :: unsigned
  ya_globalHistoryMask :: unsigned
  ya_choiceThreshold :: unsigned
  ya_takenThreshold :: unsigned
  ya_notTakenThreshold :: unsigned

record Yags =
  ya_cfg :: YagsCfg
  ya_choiceCounters :: "SatCounter list"
  ya_takenCounters :: "SatCounter list"
  ya_notTakenCounters :: "SatCounter list"
  ya_globalHistoryReg :: "unsigned list"

record YagsHistory =
  yh_globalHistoryReg :: unsigned
  yh_takenUsed :: bool
  yh_takenPred :: bool
  yh_notTakenPred :: bool
  yh_finalPred :: bool

record YagsParams =
  yap_numThreads :: unsigned
  yap_instShiftAmt :: unsigned
  yap_choicePredictorSize :: unsigned
  yap_choiceCtrBits :: unsigned
  yap_globalPredictorSize :: unsigned
  yap_globalCtrBits :: unsigned

definition Yags_new :: "uint8 \<Rightarrow> YagsParams \<Rightarrow> bp_error + Yags" where
  "Yags_new junk p =
     ebind (no_fault (ceilLog2 (yap_globalPredictorSize p))) (\<lambda>bits.
     ebind (error_if (\<not> isPowerOf2 (yap_choicePredictorSize p)) (Fatal ''Invalid choice predictor size.'')) (\<lambda>_.
     ebind (error_if (\<not> isPowerOf2 (yap_globalPredictorSize p)) (Fatal ''Invalid global history predictor size.'')) (\<lambda>_.
     ebind (no_fault (fresh_counters junk (yap_choicePredictorSize p) (yap_choiceCtrBits p))) (\<lambda>choice.
     ebind (no_fault (fresh_counters junk (yap_globalPredictorSize p) (yap_globalCtrBits p))) (\<lambda>takens.
     ebind (no_fault (fresh_counters junk (yap_globalPredictorSize p) (yap_globalCtrBits p))) (\<lambda>notTakens.
     ebind (no_fault (threshold_of_bits (yap_choiceCtrBits p))) (\<lambda>threshold.
       Inr \<lparr>ya_cfg =
              \<lparr>ya_numThreads = yap_numThreads p, ya_instShiftAmt = yap_instShiftAmt p,
               ya_globalHistoryBits = of_nat bits,
               ya_historyRegisterMask = ucast (mask64 bits),
               ya_choicePredictorSize = yap_choicePredictorSize p,
               ya_choiceCtrBits = yap_choiceCtrBits p,
               ya_choiceHistoryMask = yap_choicePredictorSize p - 1,
               ya_globalPredictorSize = yap_globalPredictorSize p,
               ya_globalCtrBits = yap_globalCtrBits p,
               ya_globalHistoryMask = yap_globalPredictorSize p - 1,
               ya_choiceThreshold = threshold,
               ya_takenThreshold = threshold,
               ya_notTakenThreshold = threshold\<rparr>,
            ya_choiceCounters = choice,
            ya_takenCounters = takens,
            ya_notTakenCounters = notTakens,
            ya_globalHistoryReg = replicate (unat (yap_numThreads p)) 0\<rparr>)))))))"

definition ya_updateGlobalHistReg :: "Yags \<Rightarrow> ThreadID \<Rightarrow> bool \<Rightarrow> Yags option" where
  "ya_updateGlobalHistReg s tid taken = do {
     g \<leftarrow> vec_mod (\<lambda>h. (if taken then push_bit 1 h OR 1 else push_bit 1 h) AND ya_historyRegisterMask (ya_cfg s))
            (ya_globalHistoryReg s) (tid_index tid);
     Some (s\<lparr>ya_globalHistoryReg := g\<rparr>) }"

definition ya_uncondBranch :: "Yags \<Rightarrow> ThreadID \<Rightarrow> Addr \<Rightarrow> (YagsHistory option \<times> Yags) option" where
  "ya_uncondBranch s tid pc = do {
     g \<leftarrow> vec_at (ya_globalHistoryReg s) (tid_index tid);
     let history = \<lparr>yh_globalHistoryReg = g, yh_takenUsed = True, yh_takenPred = True, yh_notTakenPred = True,
       yh_finalPred = True\<rparr>;
     s \<leftarrow> ya_updateGlobalHistReg s tid True;
     Some (Some history, s) }"

definition ya_squash :: "Yags \<Rightarrow> ThreadID \<Rightarrow> YagsHistory option \<Rightarrow> Yags option" where
  "ya_squash s tid bp_history = do {
     history \<leftarrow> bp_history;
     g \<leftarrow> vec_put (ya_globalHistoryReg s) (tid_index tid) (yh_globalHistoryReg history);
     Some (s\<lparr>ya_globalHistoryReg := g\<rparr>) }"

definition ya_lookup :: "Yags \<Rightarrow> ThreadID \<Rightarrow> Addr \<Rightarrow> (bool \<times> YagsHistory option \<times> Yags) option" where
  "ya_lookup s tid branchAddr = do {
     let c = ya_cfg s;
     choiceHistoryIdx \<leftarrow> pc_idx (ya_instShiftAmt c) (ya_choiceHistoryMask c) branchAddr;
     g \<leftarrow> vec_at (ya_globalHistoryReg s) (tid_index tid);
     globalHistoryIdx \<leftarrow> hash_idx (ya_instShiftAmt c) (ya_globalHistoryMask c) branchAddr g;
     assert_that (choiceHistoryIdx < ya_choicePredictorSize c);
     assert_that (globalHistoryIdx < ya_globalPredictorSize c);
     cc \<leftarrow> vec_at (ya_choiceCounters s) (unat choiceHistoryIdx);
     let choicePrediction = above (ya_choiceThreshold c) cc;
     tc \<leftarrow> vec_at (ya_takenCounters s) (unat globalHistoryIdx);
     let takenGHBPrediction = above (ya_takenThreshold c) tc;
     nc \<leftarrow> vec_at (ya_notTakenCounters s) (unat globalHistoryIdx);
     let notTakenGHBPrediction = above (ya_notTakenThreshold c) nc;
     let finalPrediction = (if choicePrediction then takenGHBPrediction else notTakenGHBPrediction);
     let history = \<lparr>yh_globalHistoryReg = g, yh_takenUsed = choicePrediction, yh_takenPred = takenGHBPrediction,
       yh_notTakenPred = notTakenGHBPrediction, yh_finalPred = finalPrediction\<rparr>;
     s \<leftarrow> ya_updateGlobalHistReg s tid finalPrediction;
     Some (finalPrediction, Some history, s) }"

definition ya_btbUpdate :: "Yags \<Rightarrow> ThreadID \<Rightarrow> Addr \<Rightarrow> YagsHistory option \<Rightarrow> Yags option" where
  "ya_btbUpdate s tid branchAddr bp_history = do {
     g \<leftarrow> vec_mod (clear_lsb (ya_historyRegisterMask (ya_cfg s))) (ya_globalHistoryReg s) (tid_index tid);
     Some (s\<lparr>ya_globalHistoryReg := g\<rparr>) }"

definition ya_update ::
    "Yags \<Rightarrow> ThreadID \<Rightarrow> Addr \<Rightarrow> bool \<Rightarrow> YagsHistory option \<Rightarrow> bool \<Rightarrow> Yags option" where
  "ya_update s tid branchAddr taken bp_history squashed = do {
     history \<leftarrow> bp_history;
     let c = ya_cfg s;
     if squashed then do {
       g \<leftarrow> vec_put (ya_globalHistoryReg s) (tid_index tid) (shift_in (yh_globalHistoryReg history) taken);
       Some (s\<lparr>ya_globalHistoryReg := g\<rparr>) }
     else do {
       choiceHistoryIdx \<leftarrow> pc_idx (ya_instShiftAmt c) (ya_choiceHistoryMask c) branchAddr;
       globalHistoryIdx \<leftarrow> hash_idx (ya_instShiftAmt c) (ya_globalHistoryMask c) branchAddr (yh_globalHistoryReg history);
       assert_that (choiceHistoryIdx < ya_choicePredictorSize c);
       assert_that (globalHistoryIdx < ya_globalPredictorSize c);
       s \<leftarrow> (if yh_takenUsed history then do {
               tc \<leftarrow> vec_mod (train taken) (ya_takenCounters s) (unat globalHistoryIdx);
               Some (s\<lparr>ya_takenCounters := tc\<rparr>) }
             else do {
               nc \<leftarrow> vec_mod (train taken) (ya_notTakenCounters s) (unat globalHistoryIdx);
               Some (s\<lparr>ya_notTakenCounters := nc\<rparr>) });
       if yh_finalPred history = taken then
         if yh_finalPred history = yh_takenUsed history then do {
           cc \<leftarrow> vec_mod (train taken) (ya_choiceCounters s) (unat choiceHistoryIdx);
           Some (s\<lparr>ya_choiceCounters := cc\<rparr>) }
         else Some s
       else do {
         cc \<leftarrow> vec_mod (train taken) (ya_choiceCounters s) (unat choiceHistoryIdx);
         Some (s\<lparr>ya_choiceCounters := cc\<rparr>) } } }"

definition ya_getGHR :: "Yags \<Rightarrow> ThreadID \<Rightarrow> YagsHistory option \<Rightarrow> unsigned option" where
  "ya_getGHR s tid bp_history = map_option yh_globalHistoryReg bp_history"

definition YagsDir :: "(Yags, YagsHistory) DirPred" where
  "YagsDir = \<lparr>dp_lookup = ya_lookup, dp_uncondBranch = ya_uncondBranch, dp_btbUpdate = ya_btbUpdate,
     dp_update = ya_update, dp_squash = ya_squash, dp_getGHR = ya_getGHR\<rparr>"

lemma YagsDir_simps [simp]:
  "dp_lookup YagsDir = ya_lookup" "dp_uncondBranch YagsDir = ya_uncondBranch"
  "dp_btbUpdate YagsDir = ya_btbUpdate" "dp_update YagsDir = ya_update"
  "dp_squash YagsDir = ya_squash" "dp_getGHR YagsDir = ya_getGHR"
  by (simp_all add: YagsDir_def)

subsection \<open>Translation to the bi-mode predictor\<close>

definition yags_cfg :: "YagsCfg \<Rightarrow> BiModeCfg" where
  "yags_cfg c = \<lparr>bm_numThreads = ya_numThreads c, bm_instShiftAmt = ya_instShiftAmt c,
     bm_globalHistoryBits = ya_globalHistoryBits c, bm_historyRegisterMask = ya_historyRegisterMask c,
     bm_choicePredictorSize = ya_choicePredictorSize c, bm_choiceCtrBits = ya_choiceCtrBits c,
     bm_choiceHistoryMask = ya_choiceHistoryMask c, bm_globalPredictorSize = ya_globalPredictorSize c,
     bm_globalCtrBits = ya_globalCtrBits c, bm_globalHistoryMask = ya_globalHistoryMask c,
     bm_choiceThreshold = ya_choiceThreshold c, bm_takenThreshold = ya_takenThreshold c,
     bm_notTakenThreshold = ya_notTakenThreshold c\<rparr>"

definition yags_state :: "Yags \<Rightarrow> BiModeBP" where
  "yags_state s = \<lparr>bm_cfg = yags_cfg (ya_cfg s), choiceCounters = ya_choiceCounters s,
     takenCounters = ya_takenCounters s, notTakenCounters = ya_notTakenCounters s,
     globalHistoryReg = ya_globalHistoryReg s\<rparr>"

definition yags_hist :: "YagsHistory \<Rightarrow> BMHistory" where
  "yags_hist h = \<lparr>bh_globalHistoryReg = yh_globalHistoryReg h, bh_takenUsed = yh_takenUsed h,
     bh_takenPred = yh_takenPred h, bh_notTakenPred = yh_notTakenPred h, bh_finalPred = yh_finalPred h\<rparr>"

definition yags_params :: "YagsParams \<Rightarrow> BiModeParams" where
  "yags_params p = \<lparr>bmp_numThreads = yap_numThreads p, bmp_instShiftAmt = yap_instShiftAmt p,
     bmp_choicePredictorSize = yap_choicePredictorSize p, bmp_choiceCtrBits = yap_choiceCtrBits p,
     bmp_globalPredictorSize = yap_globalPredictorSize p, bmp_globalCtrBits = yap_globalCtrBits p\<rparr>"

lemma yags_cfg_simps [simp]:
  "bm_instShiftAmt (yags_cfg c) = ya_instShiftAmt c" "bm_historyRegisterMask (yags_cfg c) = ya_historyRegisterMask c"
  "bm_choicePredictorSize (yags_cfg c) = ya_choicePredictorSize c" "bm_choiceHistoryMask (yags_cfg c) = ya_choiceHistoryMask c"
  "bm_globalPredictorSize (yags_cfg c) = ya_globalPredictorSize c" "bm_globalHistoryMask (yags_cfg c) = ya_globalHistoryMask c"
  "bm_choiceThreshold (yags_cfg c) = ya_choiceThreshold c" "bm_takenThreshold (yags_cfg c) = ya_takenThreshold c"
  "bm_notTakenThreshold (yags_cfg c) = ya_notTakenThreshold c"
  by (simp_all add: yags_cfg_def)

lemma yags_state_simps [simp]:
  "bm_cfg (yags_state s) = yags_cfg (ya_cfg s)" "choiceCounters (yags_state s) = ya_choiceCounters s"
  "takenCounters (yags_state s) = ya_takenCounters s" "notTakenCounters (yags_state s) = ya_notTakenCounters s"
  "globalHistoryReg (yags_state s) = ya_globalHistoryReg s"
  "(yags_state s)\<lparr>choiceCounters := xs\<rparr> = yags_state (s\<lparr>ya_choiceCounters := xs\<rparr>)"
  "(yags_state s)\<lparr>takenCounters := xs\<rparr> = yags_state (s\<lparr>ya_takenCounters := xs\<rparr>)"
  "(yags_state s)\<lparr>notTakenCounters := xs\<rparr> = yags_state (s\<lparr>ya_notTakenCounters := xs\<rparr>)"
  "(yags_state s)\<lparr>globalHistoryReg := hs\<rparr> = yags_state (s\<lparr>ya_globalHistoryReg := hs\<rparr>)"
  by (simp_all add: yags_state_def)

lemma yags_hist_simps [simp]:
  "bh_globalHistoryReg (yags_hist h) = yh_globalHistoryReg h" "bh_takenUsed (yags_hist h) = yh_takenUsed h"
  "bh_finalPred (yags_hist h) = yh_finalPred h"
  by (simp_all add: yags_hist_def)

lemma yags_updateGHR: "bm_updateGlobalHistReg (yags_state s) t b = map_option yags_state (ya_updateGlobalHistReg s t b)"
  by (simp add: bm_updateGlobalHistReg_def ya_updateGlobalHistReg_def copy_simps)

lemma yags_new_copy: "map_sum id yags_state (Yags_new junk p) = BiModeBP_new junk (yags_params p)"
  by (simp add: Yags_new_def BiModeBP_new_def yags_params_def map_sum_ebind) (simp add: yags_state_def yags_cfg_def)

interpretation yags: predictor_copy_contract BiModeDir bimode_ok bm_cfg bimode_threads bimode_hist_ok globalHistoryReg bimode_undo
  YagsDir yags_state yags_hist
proof unfold_locales
  fix s t a b q and h :: "YagsHistory option"
  show "dp_lookup BiModeDir (yags_state s) t a = map_option (\<lambda>(b, h, s). (b, map_option yags_hist h, yags_state s)) (dp_lookup YagsDir s t a)"
    by (simp add: bm_lookup_def ya_lookup_def yags_updateGHR copy_simps cong: if_cong) (simp add: yags_hist_def)
  show "dp_uncondBranch BiModeDir (yags_state s) t a = map_option (\<lambda>(h, s). (map_option yags_hist h, yags_state s)) (dp_uncondBranch YagsDir s t a)"
    by (simp add: bm_uncondBranch_def ya_uncondBranch_def yags_updateGHR copy_simps) (simp add: yags_hist_def)
  show "dp_btbUpdate BiModeDir (yags_state s) t a (map_option yags_hist h) = map_option yags_state (dp_btbUpdate YagsDir s t a h)"
    by (simp add: bm_btbUpdate_def ya_btbUpdate_def copy_simps)
  show "dp_update BiModeDir (yags_state s) t a b (map_option yags_hist h) q = map_option yags_state (dp_update YagsDir s t a b h q)"
  proof (cases h)
    case (Some x)
    then show ?thesis
      by (cases "yh_takenUsed x"; cases "yh_finalPred x"; cases b; cases q)
        (simp_all add: bm_update_def ya_update_def copy_simps)
  qed (simp add: bm_update_def ya_update_def)
  show "dp_squash BiModeDir (yags_state s) t (map_option yags_hist h) = map_option yags_state (dp_squash YagsDir s t h)"
    by (simp add: bm_squash_def ya_squash_def copy_simps)
  show "dp_getGHR BiModeDir (yags_state s) t (map_option yags_hist h) = dp_getGHR YagsDir s t h"
    by (simp add: bm_getGHR_def ya_getGHR_def option.map_comp comp_def)
qed

subsection \<open>Properties\<close>

lemma yags_unit_never_faults:
  assumes "Yags_new junk p = Inr s" and "unat (yap_instShiftAmt p) < 64"
    and "BPredUnit_new isa junk' q s = Inr u0" and "params_ok q" and "p_numThreads q = yap_numThreads p"
    and "bp_reach YagsDir isa u0 u" and "tid_index t < unat (bp_numThreads u)" and "call_ok t u c"
  shows "\<exists>u'. bp_step YagsDir isa t u c = Some u'"
proof -
  have "BiModeBP_new junk (yags_params p) = Inr (yags_state s)" using yags_new_copy [of junk p] assms(1) by simp
  from BiModeBP_new_ok [OF this] assms(2) have new: "bimode_ok (yags_state s)" "bm_numThreads (bm_cfg (yags_state s)) = yap_numThreads p"
    by (simp_all add: yags_params_def)
  then have "unit_ok (\<lambda>s. bimode_ok (yags_state s)) (\<lambda>s. bm_cfg (yags_state s)) bimode_threads
      (\<lambda>c h. bimode_hist_ok c (map_option yags_hist h)) u0"
    using yags.copy.BPredUnit_new_ok [OF assms(3,4) new(1)] assms(5) by (simp add: bimode_threads_def)
  then show ?thesis using yags.copy.reach_no_fault assms(6-8) by blast
qed

text \<open>
  \<^bold>\<open>C30.\<close> The class \<open>Yags\<close> is the bi-mode predictor: its constructor gives the same tables, and a unit
  built on it makes, call for call, the same predictions, updates and squashes as the unit built
  on \<open>BiModeBP\<close>, whatever the state.
\<close>

theorem yags_is_bimode:
  "map_sum id yags_state (Yags_new junk p) = BiModeBP_new junk (yags_params p) \<and>
   predict BiModeDir isa (map_unit yags_state yags_hist u) inst sn pc t =
     map_option (\<lambda>(b, tg, u). (b, tg, map_unit yags_state yags_hist u)) (predict YagsDir isa u inst sn pc t) \<and>
   bp_step BiModeDir isa t (map_unit yags_state yags_hist u) c =
     map_option (map_unit yags_state yags_hist) (bp_step YagsDir isa t u c)"
  by (intro conjI yags_new_copy yags.predict_copy yags.bp_step_copy)

end
