(* ===== verification/Local_BP.thy ===== *)
theory Local_BP
  imports Sample_Config
begin

text \<open>
  \<open>cpu/pred/2bit_local.hh\<close> and \<open>2bit_local.cc\<close>: a table of counters indexed by the address. The
  predictor has no history, so the history pointer is null throughout: history objects have the
  type \<open>unit\<close> and the only value in use is \<open>None\<close>.
\<close>

record LocalCfg =
  l_numThreads :: unsigned
  l_instShiftAmt :: unsigned
  l_localPredictorSize :: unsigned
  l_localPredictorSets :: unsigned
  l_localCtrBits :: unsigned
  l_indexMask :: unsigned

record LocalBP =
  l_cfg :: LocalCfg
  l_localCtrs :: "SatCounter list"

record LocalParams =
  lp_numThreads :: unsigned
  lp_instShiftAmt :: unsigned
  lp_localPredictorSize :: unsigned
  lp_localCtrBits :: unsigned

text \<open>The division by \<open>localCtrBits\<close> faults when it is 0.\<close>

definition LocalBP_new :: "uint8 \<Rightarrow> LocalParams \<Rightarrow> bp_error + LocalBP" where
  "LocalBP_new junk p =
     ebind (error_if (\<not> isPowerOf2 (lp_localPredictorSize p)) (Fatal ''Invalid local predictor size!'')) (\<lambda>_.
     ebind (error_if (lp_localCtrBits p = 0) Fault) (\<lambda>_.
     let sets = lp_localPredictorSize p div lp_localCtrBits p in
     ebind (error_if (\<not> isPowerOf2 sets) (Fatal ''Invalid number of local predictor sets! Check localCtrBits.'')) (\<lambda>_.
     ebind (no_fault (fresh_counters junk sets (lp_localCtrBits p))) (\<lambda>ctrs.
       Inr \<lparr>l_cfg = \<lparr>l_numThreads = lp_numThreads p, l_instShiftAmt = lp_instShiftAmt p,
                     l_localPredictorSize = lp_localPredictorSize p, l_localPredictorSets = sets,
                     l_localCtrBits = lp_localCtrBits p, l_indexMask = sets - 1\<rparr>,
            l_localCtrs = ctrs\<rparr>))))"

definition l_reset :: "LocalBP \<Rightarrow> LocalBP" where
  "l_reset s = s\<lparr>l_localCtrs := map sat_reset (l_localCtrs s)\<rparr>"

definition l_btbUpdate :: "LocalBP \<Rightarrow> ThreadID \<Rightarrow> Addr \<Rightarrow> unit option \<Rightarrow> LocalBP option" where
  "l_btbUpdate s tid branch_addr bp_history = Some s"

text \<open>\<open>count >> (localCtrBits - 1)\<close> on the promoted \<open>int\<close>, converted to \<open>bool\<close>.\<close>

definition l_getPrediction :: "LocalCfg \<Rightarrow> uint8 \<Rightarrow> bool option" where
  "l_getPrediction c count =
     (if unat (l_localCtrBits c - 1) < 32
      then Some (drop_bit (unat (l_localCtrBits c - 1)) (ucast count :: unsigned) \<noteq> 0) else None)"

definition l_getLocalIndex :: "LocalCfg \<Rightarrow> Addr \<Rightarrow> unsigned option" where
  "l_getLocalIndex c branch_addr = pc_idx (l_instShiftAmt c) (l_indexMask c) branch_addr"

definition l_lookup :: "LocalBP \<Rightarrow> ThreadID \<Rightarrow> Addr \<Rightarrow> (bool \<times> unit option \<times> LocalBP) option" where
  "l_lookup s tid branch_addr = do {
     local_predictor_idx \<leftarrow> l_getLocalIndex (l_cfg s) branch_addr;
     c \<leftarrow> vec_at (l_localCtrs s) (unat local_predictor_idx);
     taken \<leftarrow> l_getPrediction (l_cfg s) (sat_read c);
     Some (taken, None, s) }"

definition l_update :: "LocalBP \<Rightarrow> ThreadID \<Rightarrow> Addr \<Rightarrow> bool \<Rightarrow> unit option \<Rightarrow> bool \<Rightarrow> LocalBP option" where
  "l_update s tid branch_addr taken bp_history squashed = do {
     assert_that (bp_history = None);
     if squashed then Some s
     else do {
       local_predictor_idx \<leftarrow> l_getLocalIndex (l_cfg s) branch_addr;
       cs \<leftarrow> vec_mod (if taken then increment else decrement) (l_localCtrs s) (unat local_predictor_idx);
       Some (s\<lparr>l_localCtrs := cs\<rparr>) } }"

definition l_squash :: "LocalBP \<Rightarrow> ThreadID \<Rightarrow> unit option \<Rightarrow> LocalBP option" where
  "l_squash s tid bp_history = do { assert_that (bp_history = None); Some s }"

definition l_uncondBranch :: "LocalBP \<Rightarrow> ThreadID \<Rightarrow> Addr \<Rightarrow> (unit option \<times> LocalBP) option" where
  "l_uncondBranch s tid pc = Some (None, s)"

text \<open>\<open>getGHR\<close> is inherited from \<open>BPredUnit\<close>.\<close>

definition BPredUnit_getGHR :: "'s \<Rightarrow> ThreadID \<Rightarrow> 'h option \<Rightarrow> unsigned option" where
  "BPredUnit_getGHR s tid bp_history = Some 0"

definition LocalDir :: "(LocalBP, unit) DirPred" where
  "LocalDir = \<lparr>dp_lookup = l_lookup, dp_uncondBranch = l_uncondBranch, dp_btbUpdate = l_btbUpdate,
     dp_update = l_update, dp_squash = l_squash, dp_getGHR = BPredUnit_getGHR\<rparr>"

lemma LocalDir_simps [simp]:
  "dp_lookup LocalDir = l_lookup" "dp_uncondBranch LocalDir = l_uncondBranch" "dp_btbUpdate LocalDir = l_btbUpdate"
  "dp_update LocalDir = l_update" "dp_squash LocalDir = l_squash" "dp_getGHR LocalDir = BPredUnit_getGHR"
  by (simp_all add: LocalDir_def)

subsection \<open>Invariant\<close>

definition local_cfg_ok :: "LocalCfg \<Rightarrow> bool" where
  "local_cfg_ok c \<longleftrightarrow> unat (l_instShiftAmt c) < 64 \<and> 1 \<le> unat (l_localCtrBits c) \<and> unat (l_localCtrBits c) < 31 \<and>
     l_localPredictorSets c \<noteq> 0 \<and> l_indexMask c = l_localPredictorSets c - 1"

definition local_ok :: "LocalBP \<Rightarrow> bool" where
  "local_ok s \<longleftrightarrow> local_cfg_ok (l_cfg s) \<and> ctrs_ok (l_localPredictorSets (l_cfg s)) (l_localCtrBits (l_cfg s)) (l_localCtrs s)"

definition local_hist_ok :: "LocalCfg \<Rightarrow> unit option \<Rightarrow> bool" where
  "local_hist_ok c h \<longleftrightarrow> h = None"

definition local_threads :: "LocalCfg \<Rightarrow> nat" where
  "local_threads c = unat (l_numThreads c)"

definition l_idx :: "LocalBP \<Rightarrow> Addr \<Rightarrow> nat" where
  "l_idx s a = unat (pci (l_instShiftAmt (l_cfg s)) (l_indexMask (l_cfg s)) a)"

definition l_verdict :: "LocalBP \<Rightarrow> Addr \<Rightarrow> bool" where
  "l_verdict s a \<longleftrightarrow> 2 ^ (unat (l_localCtrBits (l_cfg s)) - 1) \<le> unat (counter (l_localCtrs s ! l_idx s a))"

lemma local_range: "local_ok s \<Longrightarrow> l_idx s a < length (l_localCtrs s)"
  by (auto simp: local_ok_def local_cfg_ok_def l_idx_def pci_less ctrs_ok_def)

lemma l_index_eq: "local_ok s \<Longrightarrow> \<exists>i. l_getLocalIndex (l_cfg s) a = Some i \<and> unat i = l_idx s a"
  by (simp add: local_ok_def local_cfg_ok_def l_getLocalIndex_def pc_idx_eq l_idx_def)

text \<open>The most significant bit test is the comparison with half of the range.\<close>

lemma l_getPrediction_eq:
  assumes "local_cfg_ok c"
  shows "l_getPrediction c x = Some (2 ^ (unat (l_localCtrBits c) - 1) \<le> unat x)"
proof -
  have "l_localCtrBits c \<noteq> 0" using assms by (auto simp: local_cfg_ok_def)
  then have n: "unat (l_localCtrBits c - 1) = unat (l_localCtrBits c) - 1" by (rule unat_minus_one)
  have "unat (drop_bit k (ucast x :: unsigned)) = unat x div 2 ^ k" for k
    by (simp add: unat_drop_bit_eq drop_bit_eq_div [of k "unat x"] del: drop_bit_eq_div)
  then have "drop_bit k (ucast x :: unsigned) \<noteq> 0 \<longleftrightarrow> 2 ^ k \<le> unat x" for k
    by (metis div_eq_0_iff linorder_not_less power_not_zero unat_eq_zero zero_neq_numeral)
  moreover have "unat (l_localCtrBits c) - 1 < 32" using assms by (auto simp: local_cfg_ok_def)
  ultimately show ?thesis by (simp add: l_getPrediction_def n)
qed

lemma l_lookup_eq: "local_ok s \<Longrightarrow> l_lookup s t a = Some (l_verdict s a, None, s)"
  using l_index_eq [of s a] local_range [of s a]
  by (auto simp: l_lookup_def vec_at_Some l_getPrediction_eq local_ok_def l_verdict_def sat_read_def)

lemma l_update_eq:
  "local_ok s \<Longrightarrow> l_update s t a b None False = Some (s\<lparr>l_localCtrs := (l_localCtrs s)[l_idx s a := train b (l_localCtrs s ! l_idx s a)]\<rparr>)"
  using l_index_eq [of s a] local_range [of s a] by (auto simp: l_update_def fault_simps train_def)

lemma local_update_ok: "local_ok s \<Longrightarrow> local_ok (s\<lparr>l_localCtrs := (l_localCtrs s)[i := train b (l_localCtrs s ! i)]\<rparr>)"
  by (simp add: local_ok_def ctrs_ok_train_at)

text \<open>The predictor has no speculative state: its view is a single point.\<close>

interpretation loc: speculative_predictor LocalDir local_ok l_cfg local_threads local_hist_ok "\<lambda>_. ()" "\<lambda>_ _ v. v"
proof unfold_locales
  fix s :: LocalBP and t a b q and h :: "unit option"
  assume ok: "local_ok s"
  show "\<exists>b h s'. dp_lookup LocalDir s t a = Some (b, h, s') \<and> local_ok s' \<and> l_cfg s' = l_cfg s \<and> local_hist_ok (l_cfg s) h"
    using ok by (simp add: l_lookup_eq local_hist_ok_def)
  show "\<exists>h s'. dp_uncondBranch LocalDir s t a = Some (h, s') \<and> local_ok s' \<and> l_cfg s' = l_cfg s \<and> local_hist_ok (l_cfg s) h"
    using ok by (simp add: l_uncondBranch_def local_hist_ok_def)
  show "\<exists>g. dp_getGHR LocalDir s t h = Some g" by (simp add: BPredUnit_getGHR_def)
  show "\<exists>s'. dp_btbUpdate LocalDir s t a h = Some s' \<and> local_ok s' \<and> l_cfg s' = l_cfg s"
    using ok by (simp add: l_btbUpdate_def)
  assume h: "local_hist_ok (l_cfg s) h"
  show "\<exists>s'. dp_update LocalDir s t a b h q = Some s' \<and> local_ok s' \<and> l_cfg s' = l_cfg s"
    using ok h local_update_ok [OF ok]
    by (cases q) (simp_all add: local_hist_ok_def l_update_eq, simp add: l_update_def assert_that_def)
  show "\<exists>s'. dp_squash LocalDir s t h = Some s' \<and> local_ok s' \<and> l_cfg s' = l_cfg s"
    using ok h by (simp add: local_hist_ok_def l_squash_def assert_that_def)
qed simp_all

lemma LocalBP_new_ok:
  assumes "LocalBP_new junk p = Inr s" and "unat (lp_instShiftAmt p) < 64"
  shows "local_ok s" and "l_numThreads (l_cfg s) = lp_numThreads p"
proof -
  define n where "n = lp_localPredictorSize p div lp_localCtrBits p"
  obtain cs where c: "lp_localCtrBits p \<noteq> 0" "isPowerOf2 n" "fresh_counters junk n (lp_localCtrBits p) = Some cs"
    and s: "s = \<lparr>l_cfg = \<lparr>l_numThreads = lp_numThreads p, l_instShiftAmt = lp_instShiftAmt p,
          l_localPredictorSize = lp_localPredictorSize p, l_localPredictorSets = n,
          l_localCtrBits = lp_localCtrBits p, l_indexMask = n - 1\<rparr>, l_localCtrs = cs\<rparr>"
    using assms(1) by (auto simp: LocalBP_new_def ebind_eq_Inr Let_def n_def)
  have nz: "n \<noteq> 0" using c(2) by (auto simp: isPowerOf2_def)
  have "unat (lp_localCtrBits p) < 31"
    using fresh_counters_None [OF _ nz, of "lp_localCtrBits p" junk] c(3)
    by (cases "unat (lp_localCtrBits p) < 31") (simp_all add: maxVal_of_bits_def)
  moreover have "1 \<le> unat (lp_localCtrBits p)" using c(1) by (simp add: Suc_leI unat_gt_0)
  ultimately show "local_ok s" using assms(2) nz ctrs_ok_fresh [OF c(3) nz] by (simp add: s local_ok_def local_cfg_ok_def)
  show "l_numThreads (l_cfg s) = lp_numThreads p" by (simp add: s)
qed

definition sample_local_params :: LocalParams where
  "sample_local_params = \<lparr>lp_numThreads = 1, lp_instShiftAmt = 2, lp_localPredictorSize = 8, lp_localCtrBits = 2\<rparr>"

definition sample_local :: LocalBP where
  "sample_local = projr (LocalBP_new 0 sample_local_params)"

definition sample_local_unit :: "(LocalBP, unit, Addr) BPredUnit" where
  "sample_local_unit = projr (BPredUnit_new sample_isa 0 sample_bp sample_local)"

lemma sample_local_new: "LocalBP_new 0 sample_local_params = Inr sample_local"
  by code_simp

lemma sample_local_unit_new: "BPredUnit_new sample_isa 0 sample_bp sample_local = Inr sample_local_unit"
  by code_simp

lemma sample_local_ok: "local_ok sample_local"
  by (rule LocalBP_new_ok [OF sample_local_new]) code_simp

subsection \<open>Properties\<close>

text \<open>
  A branch prediction unit built on a constructed local predictor never faults, on any
  sequence of calls that respects the pipeline's rules.
\<close>

theorem local_unit_never_faults:
  assumes "LocalBP_new junk p = Inr s" and "unat (lp_instShiftAmt p) < 64"
    and "BPredUnit_new isa junk' q s = Inr u0" and "params_ok q" and "p_numThreads q = lp_numThreads p"
    and "bp_reach LocalDir isa u0 u" and "tid_index t < unat (bp_numThreads u)" and "call_ok t u c"
  shows "\<exists>u'. bp_step LocalDir isa t u c = Some u'"
proof -
  note new = LocalBP_new_ok [OF assms(1,2)]
  have "unit_ok local_ok l_cfg local_threads local_hist_ok u0"
    using loc.BPredUnit_new_ok [OF assms(3,4) new(1)] new(2) assms(5) by (simp add: local_threads_def)
  then show ?thesis using loc.reach_no_fault assms(6-8) by blast
qed

theorem local_unit_never_faults_witness:
  "\<exists>u'. bp_step LocalDir sample_isa 0 sample_local_unit (Predict cond_branch 1 0x40) = Some u'"
  by (rule local_unit_never_faults [OF sample_local_new _ sample_local_unit_new sample_bp_ok _ reach_init])
    code_simp+

text \<open>A sequence of commits: thread, address and outcome of each branch.\<close>

fun l_commits :: "LocalBP \<Rightarrow> (ThreadID \<times> Addr \<times> bool) list \<Rightarrow> LocalBP option" where
  "l_commits s [] = Some s"
| "l_commits s ((t, a, b) # xs) = do { s \<leftarrow> l_update s t a b None False; l_commits s xs }"

lemma l_commits_eq:
  assumes "local_ok s" and "\<forall>(t, x, y) \<in> set xs. l_idx s x = l_idx s a \<longrightarrow> y = b"
  shows "\<exists>s'. l_commits s xs = Some s' \<and> local_ok s' \<and> l_cfg s' = l_cfg s \<and>
    l_localCtrs s' ! l_idx s a = (train b ^^ length (filter (\<lambda>(t, x, y). l_idx s x = l_idx s a) xs)) (l_localCtrs s ! l_idx s a)"
  using assms
proof (induction xs arbitrary: s)
  case Nil
  then show ?case by simp
next
  case (Cons e xs)
  obtain t x y where e: "e = (t, x, y)" by (cases e)
  let ?s = "s\<lparr>l_localCtrs := (l_localCtrs s)[l_idx s x := train y (l_localCtrs s ! l_idx s x)]\<rparr>"
  have idx: "l_idx ?s z = l_idx s z" for z by (simp add: l_idx_def)
  have ok: "local_ok ?s" by (rule local_update_ok [OF Cons.prems(1)])
  have "\<forall>(t, x, y) \<in> set xs. l_idx ?s x = l_idx ?s a \<longrightarrow> y = b" using Cons.prems(2) by (auto simp: idx)
  from Cons.IH [OF ok this] obtain s' where s': "l_commits ?s xs = Some s'" "local_ok s'" "l_cfg s' = l_cfg s"
    "l_localCtrs s' ! l_idx s a = (train b ^^ length (filter (\<lambda>(t, x, y). l_idx s x = l_idx s a) xs)) (l_localCtrs ?s ! l_idx s a)"
    by (auto simp: idx)
  have "y = b" if "l_idx s x = l_idx s a" using Cons.prems(2) that by (auto simp: e)
  then show ?case
    using s' Cons.prems(1) local_range [OF Cons.prems(1), of a]
    by (auto simp: e l_update_eq funpow_swap1)
qed

text \<open>
  \<^bold>\<open>C31.\<close> The local predictor, with counters of at most 8 bits, learns a constant outcome: if all
  commits that are mapped to the table entry of the address \<open>a\<close> have the same outcome, and these are
  at least \<open>2\<close> to the \<open>localCtrBits - 1\<close>, it predicts this outcome for \<open>a\<close>, whatever the table held
  before and whatever the commits mapped to other entries did in between.
\<close>

theorem local_learns:
  assumes "local_ok s" and "unat (l_localCtrBits (l_cfg s)) \<le> 8"
    and "\<forall>(t, x, y) \<in> set xs. l_idx s x = l_idx s a \<longrightarrow> y = b"
    and "2 ^ (unat (l_localCtrBits (l_cfg s)) - 1) \<le> length (filter (\<lambda>(t, x, y). l_idx s x = l_idx s a) xs)"
  shows "\<exists>s'. l_commits s xs = Some s' \<and> (\<forall>t. l_lookup s' t a = Some (b, None, s'))"
proof -
  obtain s' where s': "l_commits s xs = Some s'" "local_ok s'" "l_cfg s' = l_cfg s"
    "l_localCtrs s' ! l_idx s a = (train b ^^ length (filter (\<lambda>(t, x, y). l_idx s x = l_idx s a) xs)) (l_localCtrs s ! l_idx s a)"
    using l_commits_eq [OF assms(1,3)] by blast
  have one: "1 \<le> unat (l_localCtrBits (l_cfg s))" and c: "ctr_ok (l_localCtrBits (l_cfg s)) (l_localCtrs s ! l_idx s a)"
    using assms(1) local_range [OF assms(1), of a] by (auto simp: local_ok_def local_cfg_ok_def ctrs_ok_def list_all_length)
  have "l_idx s' a = l_idx s a" by (simp add: l_idx_def s'(3))
  then have "l_verdict s' a = b"
    using train_n_half [OF one assms(2) c assms(4)] by (cases b) (simp_all add: l_verdict_def s'(3,4) train_def)
  then show ?thesis using s'(1,2) by (auto simp: l_lookup_eq)
qed

theorem local_learns_witness:
  "\<exists>s'. l_commits sample_local [(0, 0x40, True), (0, 0x44, False), (0, 0x40, True)] = Some s' \<and>
    (\<forall>t. l_lookup s' t 0x40 = Some (True, None, s'))"
proof (rule local_learns [OF sample_local_ok])
  show "unat (l_localCtrBits (l_cfg sample_local)) \<le> 8" by code_simp
  show "\<forall>(t, x, y) \<in> set [(0, 0x40, True), (0, 0x44, False), (0, 0x40, True)].
      l_idx sample_local x = l_idx sample_local 0x40 \<longrightarrow> y = True" by code_simp
  show "2 ^ (unat (l_localCtrBits (l_cfg sample_local)) - 1) \<le>
      length (filter (\<lambda>(t, x, y). l_idx sample_local x = l_idx sample_local 0x40) [(0, 0x40, True), (0, 0x44, False), (0, 0x40, True)])"
    by code_simp
qed

end
