(* ===== verification/Pred_Simulation.thy ===== *)
theory Pred_Simulation
  imports BPred_Undo
begin

text \<open>
  Two derived classes of \<open>BPredUnit\<close> that agree on related states. The locale
  \<open>predictor_simulation\<close> asks for a relation \<open>R\<close> between the states and \<open>H\<close> between the history
  objects that the virtual functions keep, for the thread ids below \<open>n\<close>. The unit on top of the
  two classes then makes the same predictions, call for call, for any sequence of calls.
\<close>

definition rel_entry ::
    "('k option \<Rightarrow> 'h option \<Rightarrow> bool) \<Rightarrow> ('k, 'pc) PredictorHistory \<Rightarrow> ('h, 'pc) PredictorHistory \<Rightarrow> bool" where
  "rel_entry H e e' \<longleftrightarrow> H (bpHistory e) (bpHistory e') \<and> seqNum e' = seqNum e \<and> ph_pc e' = ph_pc e \<and>
     RASTarget e' = RASTarget e \<and> RASIndex e' = RASIndex e \<and> ph_tid e' = ph_tid e \<and> predTaken e' = predTaken e \<and>
     usedRAS e' = usedRAS e \<and> pushedRAS e' = pushedRAS e \<and> wasCall e' = wasCall e \<and> wasReturn e' = wasReturn e \<and>
     wasIndirect e' = wasIndirect e"

definition rel_unit ::
    "('r \<Rightarrow> 's \<Rightarrow> bool) \<Rightarrow> ('k option \<Rightarrow> 'h option \<Rightarrow> bool) \<Rightarrow> ('r, 'k, 'pc) BPredUnit \<Rightarrow> ('s, 'h, 'pc) BPredUnit \<Rightarrow> bool" where
  "rel_unit R H u u' \<longleftrightarrow> R (dir u) (dir u') \<and> bp_numThreads u' = bp_numThreads u \<and>
     list_all2 (list_all2 (rel_entry H)) (predHist u) (predHist u') \<and> bp_BTB u' = bp_BTB u \<and> bp_RAS u' = bp_RAS u \<and>
     useIndirect u' = useIndirect u \<and> iPred u' = iPred u \<and> stats u' = stats u"

abbreviation rel_pred where
  "rel_pred R H \<equiv> rel_prod (=) (rel_prod (=) (rel_prod (rel_entry H) (rel_unit R H)))"

text \<open>The calls of a run, with the thread that makes each, and the predictions it gives.\<close>

fun bp_run ::
    "('s, 'h) DirPred \<Rightarrow> 'pc isa_ops \<Rightarrow> ('s, 'h, 'pc) BPredUnit \<Rightarrow> (ThreadID \<times> 'pc bp_call) list \<Rightarrow>
     ((bool \<times> 'pc) list \<times> ('s, 'h, 'pc) BPredUnit) option" where
  "bp_run P isa u [] = Some ([], u)"
| "bp_run P isa u ((t, Predict inst sn pc) # cs) = do {
     (b, tg, u) \<leftarrow> predict P isa u inst sn pc t;
     (ps, u) \<leftarrow> bp_run P isa u cs;
     Some ((b, tg) # ps, u) }"
| "bp_run P isa u ((t, c) # cs) = do { u \<leftarrow> bp_step P isa t u c; bp_run P isa u cs }"

lemma rel_bind:
  "rel_option A m m' \<Longrightarrow> (\<And>x y. A x y \<Longrightarrow> rel_option B (k x) (k' y)) \<Longrightarrow> rel_option B (m \<bind> k) (m' \<bind> k')"
  by (cases m; cases m') auto

lemma rel_bind_same: "(\<And>x. rel_option B (k x) (k' x)) \<Longrightarrow> rel_option B (m \<bind> k) (m \<bind> k')"
  by (cases m) auto

lemma rel_bind_eq: "m = m' \<Longrightarrow> (\<And>x. rel_option B (k x) (k' x)) \<Longrightarrow> rel_option B (m \<bind> k) (m' \<bind> k')"
  by (simp add: rel_bind_same)

lemma rel_list_case:
  "list_all2 A xs ys \<Longrightarrow> rel_option B m m' \<Longrightarrow>
   (\<And>x y xs ys. A x y \<Longrightarrow> list_all2 A xs ys \<Longrightarrow> rel_option B (k x xs) (k' y ys)) \<Longrightarrow>
   rel_option B (case xs of [] \<Rightarrow> m | x # xs \<Rightarrow> k x xs) (case ys of [] \<Rightarrow> m' | y # ys \<Rightarrow> k' y ys)"
  by (cases xs; cases ys) auto

text \<open>The parts of the unit that do not call the derived class.\<close>

lemmas rel_unit_defs = rel_unit_def rel_entry_def

lemma rel_entry_update:
  "rel_entry H e e' \<Longrightarrow> rel_entry H (e\<lparr>predTaken := b\<rparr>) (e'\<lparr>predTaken := b\<rparr>)"
  "rel_entry H e e' \<Longrightarrow> rel_entry H (e\<lparr>usedRAS := b\<rparr>) (e'\<lparr>usedRAS := b\<rparr>)"
  "rel_entry H e e' \<Longrightarrow> rel_entry H (e\<lparr>pushedRAS := b\<rparr>) (e'\<lparr>pushedRAS := b\<rparr>)"
  "rel_entry H e e' \<Longrightarrow> rel_entry H (e\<lparr>wasIndirect := b\<rparr>) (e'\<lparr>wasIndirect := b\<rparr>)"
  "rel_entry H e e' \<Longrightarrow> rel_entry H (e\<lparr>wasReturn := b\<rparr>) (e'\<lparr>wasReturn := b\<rparr>)"
  by (simp_all add: rel_entry_def)

lemma rel_unit_update:
  "rel_unit R H u u' \<Longrightarrow> R s s' \<Longrightarrow> rel_unit R H (u\<lparr>dir := s\<rparr>) (u'\<lparr>dir := s'\<rparr>)"
  "rel_unit R H u u' \<Longrightarrow> rel_unit R H (u\<lparr>stats := st\<rparr>) (u'\<lparr>stats := st\<rparr>)"
  "rel_unit R H u u' \<Longrightarrow> rel_unit R H (u\<lparr>bp_RAS := r\<rparr>) (u'\<lparr>bp_RAS := r\<rparr>)"
  "rel_unit R H u u' \<Longrightarrow> rel_unit R H (u\<lparr>iPred := ip\<rparr>) (u'\<lparr>iPred := ip\<rparr>)"
  "rel_unit R H u u' \<Longrightarrow> rel_unit R H (u\<lparr>bp_BTB := b\<rparr>) (u'\<lparr>bp_BTB := b\<rparr>)"
  by (simp_all add: rel_unit_def)

lemma rel_unit_fields:
  assumes "rel_unit R H u u'"
  shows "R (dir u) (dir u')" and "bp_numThreads u' = bp_numThreads u" and "bp_BTB u' = bp_BTB u" and "bp_RAS u' = bp_RAS u"
    and "useIndirect u' = useIndirect u" and "iPred u' = iPred u" and "stats u' = stats u"
  using assms by (simp_all add: rel_unit_def)

lemma rel_entry_fields:
  assumes "rel_entry H e e'"
  shows "H (bpHistory e) (bpHistory e')" and "seqNum e' = seqNum e" and "ph_pc e' = ph_pc e" and "predTaken e' = predTaken e"
    and "RASTarget e' = RASTarget e" and "RASIndex e' = RASIndex e" and "usedRAS e' = usedRAS e" and "pushedRAS e' = pushedRAS e"
    and "wasCall e' = wasCall e" and "wasReturn e' = wasReturn e" and "wasIndirect e' = wasIndirect e"
  using assms by (simp_all add: rel_entry_def)

lemmas rel_step = rel_bind_same rel_entry_update rel_unit_update

lemma predict_return_rel:
  assumes "rel_unit R H u u'" and "rel_entry H e e'"
  shows "rel_option (rel_pred R H) (predict_return isa u e pc t) (predict_return isa u' e' pc t)"
  using assms unfolding predict_return_def
  by (auto simp: rel_unit_fields [OF assms(1)] Let_def intro!: rel_step) (simp add: rel_entry_def)

lemma push_call_rel:
  assumes "rel_unit R H u u'" and "rel_entry H e e'"
  shows "rel_option (rel_prod (rel_entry H) (rel_unit R H)) (push_call u e inst pc t) (push_call u' e' inst pc t)"
  using assms unfolding push_call_def
  by (auto simp: rel_unit_fields [OF assms(1)] intro!: rel_step) (simp add: rel_entry_def)

lemma pop_call_rel:
  assumes "rel_unit R H u u'" and "rel_entry H e e'"
  shows "rel_option (rel_prod (rel_entry H) (rel_unit R H)) (pop_call u e t) (pop_call u' e' t)"
  using assms unfolding pop_call_def by (auto simp: rel_unit_fields [OF assms(1)] intro!: rel_step)

lemma fixup_not_taken_rel:
  assumes "rel_unit R H u u'" and "rel_entry H e e'"
  shows "rel_option (rel_prod (rel_entry H) (rel_unit R H)) (fixup_not_taken u e t) (fixup_not_taken u' e' t)"
  using assms unfolding fixup_not_taken_def
  by (auto simp: rel_unit_fields [OF assms(1)] rel_entry_fields [OF assms(2)] intro!: rel_step)

lemma fixup_taken_rel:
  assumes "rel_unit R H u u'" and "rel_entry H e e'"
  shows "rel_option (rel_prod (rel_entry H) (rel_unit R H)) (fixup_taken isa rnd u e ghr tg t) (fixup_taken isa rnd u' e' ghr tg t)"
  unfolding fixup_taken_def
proof (rule rel_bind)
  show "rel_option (rel_prod (rel_entry H) (rel_unit R H))
     (if wasReturn e \<and> \<not> usedRAS e then do {
        rs \<leftarrow> vec_mod RAS_pop (bp_RAS u) (tid_index t); Some (e\<lparr>usedRAS := True\<rparr>, u\<lparr>bp_RAS := rs\<rparr>) } else Some (e, u))
     (if wasReturn e' \<and> \<not> usedRAS e' then do {
        rs \<leftarrow> vec_mod RAS_pop (bp_RAS u') (tid_index t); Some (e'\<lparr>usedRAS := True\<rparr>, u'\<lparr>bp_RAS := rs\<rparr>) } else Some (e', u'))"
    using assms by (auto simp: rel_unit_fields [OF assms(1)] rel_entry_fields [OF assms(2)] intro!: rel_step)
qed (auto simp: rel_unit_fields rel_entry_fields intro!: rel_step)

lemma fixup_rel:
  assumes "rel_unit R H u u'" and "rel_entry H e e'"
  shows "rel_option (rel_prod (rel_entry H) (rel_unit R H))
    (if b then fixup_taken isa rnd u e ghr tg t else fixup_not_taken u e t)
    (if b then fixup_taken isa rnd u' e' ghr tg t else fixup_not_taken u' e' t)"
  by (simp add: fixup_taken_rel [OF assms] fixup_not_taken_rel [OF assms])

lemma ras_incorrect_rel:
  "rel_unit R H u u' \<Longrightarrow> rel_entry H e e' \<Longrightarrow>
   rel_unit R H (if usedRAS e then u\<lparr>stats := (stats u)\<lparr>st_RASIncorrect := st_RASIncorrect (stats u) + 1\<rparr>\<rparr> else u)
     (if usedRAS e' then u'\<lparr>stats := (stats u')\<lparr>st_RASIncorrect := st_RASIncorrect (stats u') + 1\<rparr>\<rparr> else u')"
  by (simp add: rel_entry_fields rel_unit_def)

lemma repair_RAS_rel: "rel_entry H e e' \<Longrightarrow> repair_RAS r e' = repair_RAS r e"
  by (simp add: repair_RAS_def rel_entry_fields)

subsection \<open>The unit over two related classes\<close>

locale predictor_simulation =
  fixes P :: "('s, 'h) DirPred" and Q :: "('r, 'k) DirPred" and n :: nat
    and R :: "'r \<Rightarrow> 's \<Rightarrow> bool" and H :: "'k option \<Rightarrow> 'h option \<Rightarrow> bool"
  assumes sim_lookup: "tid_index t < n \<Longrightarrow> R s s' \<Longrightarrow>
      rel_option (rel_prod (=) (rel_prod H R)) (dp_lookup Q s t a) (dp_lookup P s' t a)"
    and sim_uncond: "tid_index t < n \<Longrightarrow> R s s' \<Longrightarrow>
      rel_option (rel_prod H R) (dp_uncondBranch Q s t a) (dp_uncondBranch P s' t a)"
    and sim_btb: "tid_index t < n \<Longrightarrow> R s s' \<Longrightarrow> H h h' \<Longrightarrow>
      rel_option R (dp_btbUpdate Q s t a h) (dp_btbUpdate P s' t a h')"
    and sim_update: "tid_index t < n \<Longrightarrow> R s s' \<Longrightarrow> H h h' \<Longrightarrow>
      rel_option R (dp_update Q s t a b h q) (dp_update P s' t a b h' q)"
    and sim_squash: "tid_index t < n \<Longrightarrow> R s s' \<Longrightarrow> H h h' \<Longrightarrow>
      rel_option R (dp_squash Q s t h) (dp_squash P s' t h')"
    and sim_getGHR: "tid_index t < n \<Longrightarrow> R s s' \<Longrightarrow> H h h' \<Longrightarrow> dp_getGHR Q s t h = dp_getGHR P s' t h'"
begin

lemma predict_direction_rel:
  assumes "tid_index t < n" and u: "rel_unit R H u u'"
  shows "rel_option (rel_prod (=) (rel_prod H (rel_unit R H))) (predict_direction Q u inst a t) (predict_direction P u' inst a t)"
proof (cases "isUncondCtrl inst")
  case True
  then show ?thesis unfolding predict_direction_def
    by (auto intro!: rel_bind [OF sim_uncond [OF assms(1) rel_unit_fields(1) [OF u]]] rel_unit_update [OF u])
next
  case False
  then show ?thesis unfolding predict_direction_def
    by (auto simp: rel_unit_fields [OF u] intro!: rel_bind [OF sim_lookup [OF assms(1) rel_unit_fields(1) [OF u]]] rel_unit_update u)
qed

lemma predict_btb_rel:
  assumes t: "tid_index t < n" and u: "rel_unit R H u u'" and e: "rel_entry H e e'"
  shows "rel_option (rel_pred R H) (predict_btb Q isa u e inst pc t) (predict_btb P isa u' e' inst pc t)"
proof -
  note b = rel_bind [OF sim_btb [OF t rel_unit_fields(1) [OF u] rel_entry_fields(1) [OF e]]] rel_bind [OF pop_call_rel [OF u e]]
  show ?thesis unfolding predict_btb_def rel_unit_fields [OF u]
    by (rule rel_bind_same) (auto simp: Let_def rel_unit_fields [OF u] intro!: b rel_bind_same rel_unit_update u e)
qed

lemma predict_indirect_rel:
  assumes t: "tid_index t < n" and u: "rel_unit R H u u'" and e: "rel_entry H e e'"
  shows "rel_option (rel_pred R H) (predict_indirect Q isa u e inst sn pc t) (predict_indirect P isa u' e' inst sn pc t)"
proof -
  note b = rel_bind [OF pop_call_rel [of R H]]
  have g: "dp_getGHR P (dir u') t (bpHistory e') = dp_getGHR Q (dir u) t (bpHistory e)"
    by (rule sim_getGHR [OF t rel_unit_fields(1) [OF u] rel_entry_fields(1) [OF e], symmetric])
  show ?thesis unfolding predict_indirect_def Let_def
    by (auto simp: rel_unit_fields [OF u] g rel_unit_fields intro!: rel_step b u e split: option.splits)
qed

lemma predict_target_rel:
  assumes t: "tid_index t < n" and u: "rel_unit R H u u'" and e: "rel_entry H e e'"
  shows "rel_option (rel_pred R H) (predict_target Q isa u b e inst sn pc t) (predict_target P isa u' b e' inst sn pc t)"
  unfolding predict_target_def Let_def
  by (auto simp: rel_unit_fields [OF u] rel_unit_fields(5) predict_return_rel [OF u e] e u
      intro!: rel_bind [OF push_call_rel [of R H]] predict_btb_rel predict_indirect_rel rel_entry_update rel_unit_update t)

lemma predict_rel:
  assumes t: "tid_index t < n" and u: "rel_unit R H u u'"
  shows "rel_option (rel_prod (=) (rel_prod (=) (rel_unit R H))) (predict Q isa u inst sn pc t) (predict P isa u' inst sn pc t)"
proof -
  have new: "rel_entry H (PredictorHistory_new z sn a b h t) (PredictorHistory_new z sn a b h' t)" if "H h h'" for z a b h h'
    using that by (simp add: PredictorHistory_new_def rel_entry_def)
  have push: "rel_option (list_all2 (list_all2 (rel_entry H))) (vec_mod (Cons e) (predHist v) (tid_index t))
      (vec_mod (Cons e') (predHist v') (tid_index t))" if "rel_unit R H v v'" "rel_entry H e e'" for v v' e e'
    using that by (auto simp: vec_mod_def rel_unit_def list_all2_lengthD list_all2_nthD intro!: list_all2_update_cong)
  show ?thesis unfolding predict_def Let_def
    by (auto simp: rel_unit_fields [OF u] intro!: rel_bind [OF predict_direction_rel] rel_bind [OF predict_target_rel]
        rel_bind [OF push] new rel_unit_update t u) (simp add: rel_unit_def)
qed

lemma commit_loop_rel:
  assumes "tid_index t < n" and "R s s'" and "list_all2 (rel_entry H) es es'"
  shows "rel_option (rel_prod R (list_all2 (rel_entry H))) (commit_loop Q sn t s es) (commit_loop P sn t s' es')"
  using assms(3,2)
proof (induction es es' arbitrary: s s' rule: list_all2_induct)
  case (Cons e es e' es')
  then show ?case
    by (auto simp: rel_entry_fields intro!: rel_bind [OF sim_update [OF assms(1)]])
qed simp

lemma squash_loop_rel:
  assumes "tid_index t < n" and "R s s'" and "list_all2 (rel_entry H) es es'"
  shows "rel_option (rel_prod R (rel_prod (=) (list_all2 (rel_entry H)))) (squash_loop Q sn t s r es) (squash_loop P sn t s' r es')"
  using assms(3,2)
proof (induction es es' arbitrary: s s' r rule: list_all2_induct)
  case (Cons e es e' es')
  then show ?case
    by (auto simp: rel_entry_fields repair_RAS_rel intro!: rel_bind_same rel_bind [OF sim_squash [OF assms(1)]])
qed simp

lemma predHist_rel:
  "rel_unit R H u u' \<Longrightarrow> rel_option (list_all2 (rel_entry H)) (vec_at (predHist u) i) (vec_at (predHist u') i)"
  by (auto simp: vec_at_def rel_unit_def list_all2_lengthD list_all2_nthD)

lemma predHist_update_rel:
  "rel_unit R H u u' \<Longrightarrow> list_all2 (rel_entry H) es es' \<Longrightarrow>
   rel_unit R H (u\<lparr>predHist := (predHist u)[i := es]\<rparr>) (u'\<lparr>predHist := (predHist u')[i := es']\<rparr>)"
  by (simp add: rel_unit_def list_all2_update_cong)

lemma bp_update_rel:
  assumes t: "tid_index t < n" and u: "rel_unit R H u u'"
  shows "rel_option (rel_unit R H) (bp_update Q u sn t) (bp_update P u' sn t)"
  unfolding bp_update_def rel_unit_fields(6) [OF u]
  by (intro rel_bind_same rel_bind [OF predHist_rel [OF u]] rel_bind [OF commit_loop_rel [OF t rel_unit_fields(1) [OF u]]])
    (use u in \<open>auto simp: rel_unit_def list_all2_update_cong\<close>)

lemma bp_squash_rel:
  assumes t: "tid_index t < n" and u: "rel_unit R H u u'"
  shows "rel_option (rel_unit R H) (bp_squash Q u sn t) (bp_squash P u' sn t)"
  unfolding bp_squash_def rel_unit_fields [OF u]
  by (intro rel_bind_same rel_bind [OF predHist_rel [OF u]] rel_bind [OF squash_loop_rel [OF t rel_unit_fields(1) [OF u]]])
    (use u in \<open>auto simp: rel_unit_def list_all2_update_cong\<close>)

lemma repair_direction_rel:
  "tid_index t < n \<Longrightarrow> rel_unit R H u u' \<Longrightarrow> rel_entry H e e' \<Longrightarrow>
   rel_option R (dp_update Q (dir u) t (ph_pc (e\<lparr>predTaken := b\<rparr>)) b (bpHistory (e\<lparr>predTaken := b\<rparr>)) True)
     (dp_update P (dir u') t (ph_pc (e'\<lparr>predTaken := b\<rparr>)) b (bpHistory (e'\<lparr>predTaken := b\<rparr>)) True)"
  using sim_update [of t "dir u" "dir u'" "bpHistory e" "bpHistory e'"] by (simp add: rel_entry_def rel_unit_def)

lemma bp_mispredict_rel:
  assumes t: "tid_index t < n" and u: "rel_unit R H u u'"
  shows "rel_option (rel_unit R H) (bp_mispredict Q isa rnd u sn tg taken t) (bp_mispredict P isa rnd u' sn tg taken t)"
  unfolding bp_mispredict_def Let_def
  apply (rule rel_bind [OF bp_squash_rel [OF t]])
   apply (use u in \<open>simp add: rel_unit_def\<close>)
  apply (rule rel_bind [OF predHist_rel], assumption)
  apply (rule rel_list_case, assumption)
   apply simp
  apply (rule rel_bind_eq, simp add: rel_entry_fields)
  apply (rule rel_bind_eq, rule sim_getGHR [OF t rel_unit_fields(1) [OF ras_incorrect_rel]], assumption+)
   apply (erule rel_entry_fields(1))
  apply (rule rel_bind [OF repair_direction_rel [OF t ras_incorrect_rel]], assumption+)
  apply (rule rel_bind [OF fixup_rel])
    apply (rule rel_unit_update(1) [OF ras_incorrect_rel], assumption+)
   apply (erule rel_entry_update(1))
  apply (auto intro: predHist_update_rel)
  done

lemma bp_step_rel:
  assumes "tid_index t < n" and "rel_unit R H u u'"
  shows "rel_option (rel_unit R H) (bp_step Q isa t u c) (bp_step P isa t u' c)"
proof (cases c)
  case (Predict inst sn pc)
  from predict_rel [OF assms] show ?thesis unfolding Predict bp_step.simps option.rel_map
    by (rule option.rel_mono_strong) auto
qed (simp_all add: bp_update_rel [OF assms] bp_squash_rel [OF assms] bp_mispredict_rel [OF assms])

text \<open>The same predictions, for any sequence of calls.\<close>

lemma bp_run_rel:
  assumes "rel_unit R H u u'" and "list_all (\<lambda>(t, c). tid_index t < n) cs"
  shows "rel_option (rel_prod (=) (rel_unit R H)) (bp_run Q isa u cs) (bp_run P isa u' cs)"
  using assms
proof (induction cs arbitrary: u u')
  case (Cons tc cs)
  obtain t c where tc: "tc = (t, c)" by (cases tc)
  have t: "tid_index t < n" using Cons.prems(2) by (simp add: tc)
  have IH: "rel_option (rel_prod (=) (rel_unit R H)) (bp_run Q isa v cs) (bp_run P isa v' cs)" if "rel_unit R H v v'" for v v'
    using Cons.IH [OF that] Cons.prems(2) by simp
  show ?case
    by (cases c) (auto simp only: tc bp_run.simps intro!: rel_bind [OF predict_rel [OF t Cons.prems(1)]]
      rel_bind [OF bp_step_rel [OF t Cons.prems(1)]] rel_bind [OF IH] IH, auto)
qed simp

lemma BPredUnit_new_rel:
  assumes "R s s'" and "BPredUnit_new isa junk q s = Inr u" and "BPredUnit_new isa junk q s' = Inr u'"
  shows "rel_unit R H u u'"
  using assms by (auto simp: BPredUnit_new_def ebind_eq_Inr rel_unit_def list_all2_conv_all_nth)

lemma same_predictions:
  assumes "R s s'" and "BPredUnit_new isa junk q s = Inr u" and "BPredUnit_new isa junk q s' = Inr u'"
    and "list_all (\<lambda>(t, c). tid_index t < n) cs"
  shows "map_option fst (bp_run Q isa u cs) = map_option fst (bp_run P isa u' cs)"
proof -
  have "rel_option (rel_prod (=) (rel_unit R H)) (bp_run Q isa u cs) (bp_run P isa u' cs)"
    by (rule bp_run_rel [OF BPredUnit_new_rel [OF assms(1-3)] assms(4)])
  then show ?thesis by (cases "bp_run Q isa u cs"; cases "bp_run P isa u' cs") auto
qed

end

end
