(* ===== verification/Tri_Tournament.thy ===== *)
theory Tri_Tournament
  imports Tournament Pred_Simulation
begin

text \<open>
  \<open>cpu/pred/tritournament.hh\<close> and \<open>tritournament.cc\<close>: the tournament predictor with a second
  local predictor and a second choice predictor that can select it. The last part interprets the
  contracts of the base class and the simulation with the tournament predictor.
\<close>

record TriTournamentCfg =
  tt_numThreads :: unsigned
  tt_instShiftAmt :: unsigned
  tt_localPredictorSize :: unsigned
  tt_localPredictorMask :: unsigned
  tt_localCtrBits :: unsigned
  tt_localHistoryTableSize :: unsigned
  tt_localHistoryBits :: unsigned
  tt_localPredictorSize2 :: unsigned
  tt_localPredictorMask2 :: unsigned
  tt_localCtrBits2 :: unsigned
  tt_localHistoryTableSize2 :: unsigned
  tt_localHistoryBits2 :: unsigned
  tt_globalPredictorSize :: unsigned
  tt_globalCtrBits :: unsigned
  tt_globalHistoryBits :: unsigned
  tt_globalHistoryMask :: unsigned
  tt_choiceHistoryMask :: unsigned
  tt_historyRegisterMask :: unsigned
  tt_choicePredictorSize :: unsigned
  tt_choiceCtrBits :: unsigned
  tt_choiceHistoryMask2 :: unsigned
  tt_choicePredictorSize2 :: unsigned
  tt_choiceCtrBits2 :: unsigned
  tt_localThreshold :: unsigned
  tt_localThreshold2 :: unsigned
  tt_globalThreshold :: unsigned
  tt_choiceThreshold :: unsigned
  tt_choiceThreshold2 :: unsigned

record TriTournamentBP =
  tt_cfg :: TriTournamentCfg
  tt_localCtrs :: "SatCounter list"
  tt_localHistoryTable :: "unsigned list"
  tt_localCtrs2 :: "SatCounter list"
  tt_localHistoryTable2 :: "unsigned list"
  tt_globalCtrs :: "SatCounter list"
  tt_globalHistory :: "unsigned list"
  tt_choiceCtrs :: "SatCounter list"
  tt_choiceCtrs2 :: "SatCounter list"
  tt_stats :: ExpertStats

record TTBPHistory =
  tth_globalHistory :: unsigned
  tth_localHistoryIdx :: unsigned
  tth_localHistory :: unsigned
  tth_localHistoryIdx2 :: unsigned
  tth_localHistory2 :: unsigned
  tth_localPredTaken :: bool
  tth_localPredTaken2 :: bool
  tth_globalPredTaken :: bool
  tth_globalUsed :: bool
  tth_local2Used :: bool

record TriTournamentParams =
  ttp_numThreads :: unsigned
  ttp_instShiftAmt :: unsigned
  ttp_localPredictorSize :: unsigned
  ttp_localCtrBits :: unsigned
  ttp_localHistoryTableSize :: unsigned
  ttp_localPredictorSize2 :: unsigned
  ttp_localCtrBits2 :: unsigned
  ttp_localHistoryTableSize2 :: unsigned
  ttp_globalPredictorSize :: unsigned
  ttp_globalCtrBits :: unsigned
  ttp_choicePredictorSize :: unsigned
  ttp_choiceCtrBits :: unsigned
  ttp_choicePredictorSize2 :: unsigned
  ttp_choiceCtrBits2 :: unsigned

text \<open>The constructor; \<open>junk\<close> is the uninitialised \<open>maxVal\<close> of the counters before \<open>setBits\<close>.\<close>

definition TriTournamentBP_new :: "uint8 \<Rightarrow> TriTournamentParams \<Rightarrow> bp_error + TriTournamentBP" where
  "TriTournamentBP_new junk p =
     ebind (no_fault (ceilLog2 (ttp_localPredictorSize p))) (\<lambda>local_bits.
     ebind (no_fault (ceilLog2 (ttp_localPredictorSize2 p))) (\<lambda>local_bits2.
     ebind (no_fault (ceilLog2 (ttp_globalPredictorSize p))) (\<lambda>log2_global.
     ebind (no_fault (ceilLog2 (ttp_choicePredictorSize p))) (\<lambda>log2_choice.
     let global_bits = (if log2_global > log2_choice then log2_global else log2_choice) in
     ebind (error_if (\<not> isPowerOf2 (ttp_localPredictorSize p)) (Fatal ''Invalid local predictor size!'')) (\<lambda>_.
     ebind (error_if (\<not> isPowerOf2 (ttp_localPredictorSize2 p)) (Fatal ''Invalid local predictor size!'')) (\<lambda>_.
     ebind (error_if (\<not> isPowerOf2 (ttp_globalPredictorSize p)) (Fatal ''Invalid global predictor size!'')) (\<lambda>_.
     ebind (no_fault (fresh_counters junk (ttp_localPredictorSize p) (ttp_localCtrBits p))) (\<lambda>local_ctrs.
     ebind (error_if (\<not> isPowerOf2 (ttp_localHistoryTableSize p)) (Fatal ''Invalid local history table size!'')) (\<lambda>_.
     ebind (no_fault (fresh_counters junk (ttp_localPredictorSize2 p) (ttp_localCtrBits2 p))) (\<lambda>local_ctrs2.
     ebind (error_if (\<not> isPowerOf2 (ttp_localHistoryTableSize2 p))
       (Fatal ''Invalid second local history table size!'')) (\<lambda>_.
     ebind (no_fault (fresh_counters junk (ttp_globalPredictorSize p) (ttp_globalCtrBits p))) (\<lambda>global_ctrs.
     let global_mask = ttp_globalPredictorSize p - 1 in
     ebind (error_if (\<not> isPowerOf2 (ttp_choicePredictorSize p)) (Fatal ''Invalid choice predictor size!'')) (\<lambda>_.
     let choice_mask = ttp_choicePredictorSize p - 1 in
     ebind (no_fault (fresh_counters junk (ttp_choicePredictorSize p) (ttp_choiceCtrBits p))) (\<lambda>choice_ctrs.
     let register_mask = ucast (mask64 global_bits);
         choice_mask2 = ttp_choicePredictorSize2 p - 1 in
     ebind (no_fault (fresh_counters junk (ttp_choicePredictorSize2 p) (ttp_choiceCtrBits2 p))) (\<lambda>choice_ctrs2.
     ebind (error_if (global_mask > register_mask)
       (Fatal ''Global predictor too large for global history bits!'')) (\<lambda>_.
     ebind (error_if (choice_mask > register_mask)
       (Fatal ''Choice predictor too large for global history bits!'')) (\<lambda>_.
     ebind (error_if (choice_mask2 > register_mask)
       (Fatal ''Choice predictor too large for global history bits!'')) (\<lambda>_.
     ebind (no_fault (threshold_of_bits (ttp_localCtrBits p))) (\<lambda>local_threshold.
     ebind (no_fault (threshold_of_bits (ttp_localCtrBits2 p))) (\<lambda>local_threshold2.
     ebind (no_fault (threshold_of_bits (ttp_globalCtrBits p))) (\<lambda>global_threshold.
     ebind (no_fault (threshold_of_bits (ttp_choiceCtrBits p))) (\<lambda>choice_threshold.
     ebind (no_fault (threshold2_of_bits (ttp_choiceCtrBits p))) (\<lambda>choice_threshold2.
       Inr \<lparr>tt_cfg =
              \<lparr>tt_numThreads = ttp_numThreads p, tt_instShiftAmt = ttp_instShiftAmt p,
               tt_localPredictorSize = ttp_localPredictorSize p,
               tt_localPredictorMask = ucast (mask64 local_bits),
               tt_localCtrBits = ttp_localCtrBits p,
               tt_localHistoryTableSize = ttp_localHistoryTableSize p,
               tt_localHistoryBits = of_nat local_bits,
               tt_localPredictorSize2 = ttp_localPredictorSize2 p,
               tt_localPredictorMask2 = ucast (mask64 local_bits2),
               tt_localCtrBits2 = ttp_localCtrBits2 p,
               tt_localHistoryTableSize2 = ttp_localHistoryTableSize2 p,
               tt_localHistoryBits2 = of_nat local_bits2,
               tt_globalPredictorSize = ttp_globalPredictorSize p,
               tt_globalCtrBits = ttp_globalCtrBits p,
               tt_globalHistoryBits = of_nat global_bits,
               tt_globalHistoryMask = global_mask,
               tt_choiceHistoryMask = choice_mask,
               tt_historyRegisterMask = register_mask,
               tt_choicePredictorSize = ttp_choicePredictorSize p,
               tt_choiceCtrBits = ttp_choiceCtrBits p,
               tt_choiceHistoryMask2 = choice_mask2,
               tt_choicePredictorSize2 = ttp_choicePredictorSize2 p,
               tt_choiceCtrBits2 = ttp_choiceCtrBits2 p,
               tt_localThreshold = local_threshold,
               tt_localThreshold2 = local_threshold2,
               tt_globalThreshold = global_threshold,
               tt_choiceThreshold = choice_threshold,
               tt_choiceThreshold2 = choice_threshold2\<rparr>,
            tt_localCtrs = local_ctrs,
            tt_localHistoryTable = replicate (unat (ttp_localHistoryTableSize p)) 0,
            tt_localCtrs2 = local_ctrs2,
            tt_localHistoryTable2 = replicate (unat (ttp_localHistoryTableSize2 p)) 0,
            tt_globalCtrs = global_ctrs,
            tt_globalHistory = replicate (unat (ttp_numThreads p)) 0,
            tt_choiceCtrs = choice_ctrs,
            tt_choiceCtrs2 = choice_ctrs2,
            tt_stats = zero_stats\<rparr>)))))))))))))))))))))))"

definition tt_calcLocHistIdx :: "TriTournamentCfg \<Rightarrow> Addr \<Rightarrow> unsigned option" where
  "tt_calcLocHistIdx c branch_addr = loc_hist_idx (tt_instShiftAmt c) (tt_localHistoryTableSize c) branch_addr"

definition tt_calcLocHistIdx2 :: "TriTournamentCfg \<Rightarrow> Addr \<Rightarrow> unsigned option" where
  "tt_calcLocHistIdx2 c branch_addr = loc_hist_idx (tt_instShiftAmt c) (tt_localHistoryTableSize2 c) branch_addr"

definition tt_updateGlobalHistTaken :: "TriTournamentBP \<Rightarrow> ThreadID \<Rightarrow> TriTournamentBP option" where
  "tt_updateGlobalHistTaken s tid = do {
     gh \<leftarrow> vec_mod (\<lambda>h. (push_bit 1 h OR 1) AND tt_historyRegisterMask (tt_cfg s)) (tt_globalHistory s) (tid_index tid);
     Some (s\<lparr>tt_globalHistory := gh\<rparr>) }"

definition tt_updateGlobalHistNotTaken :: "TriTournamentBP \<Rightarrow> ThreadID \<Rightarrow> TriTournamentBP option" where
  "tt_updateGlobalHistNotTaken s tid = do {
     gh \<leftarrow> vec_mod (\<lambda>h. push_bit 1 h AND tt_historyRegisterMask (tt_cfg s)) (tt_globalHistory s) (tid_index tid);
     Some (s\<lparr>tt_globalHistory := gh\<rparr>) }"

definition tt_updateLocalHistTaken :: "TriTournamentBP \<Rightarrow> unsigned \<Rightarrow> TriTournamentBP option" where
  "tt_updateLocalHistTaken s local_history_idx = do {
     lh \<leftarrow> vec_mod (\<lambda>h. push_bit 1 h OR 1) (tt_localHistoryTable s) (unat local_history_idx);
     Some (s\<lparr>tt_localHistoryTable := lh\<rparr>) }"

definition tt_updateLocalHistNotTaken :: "TriTournamentBP \<Rightarrow> unsigned \<Rightarrow> TriTournamentBP option" where
  "tt_updateLocalHistNotTaken s local_history_idx = do {
     lh \<leftarrow> vec_mod (\<lambda>h. push_bit 1 h) (tt_localHistoryTable s) (unat local_history_idx);
     Some (s\<lparr>tt_localHistoryTable := lh\<rparr>) }"

definition tt_updateLocalHistTaken2 :: "TriTournamentBP \<Rightarrow> unsigned \<Rightarrow> TriTournamentBP option" where
  "tt_updateLocalHistTaken2 s local_history_idx = do {
     lh \<leftarrow> vec_mod (\<lambda>h. push_bit 1 h OR 1) (tt_localHistoryTable2 s) (unat local_history_idx);
     Some (s\<lparr>tt_localHistoryTable2 := lh\<rparr>) }"

definition tt_updateLocalHistNotTaken2 :: "TriTournamentBP \<Rightarrow> unsigned \<Rightarrow> TriTournamentBP option" where
  "tt_updateLocalHistNotTaken2 s local_history_idx = do {
     lh \<leftarrow> vec_mod (\<lambda>h. push_bit 1 h) (tt_localHistoryTable2 s) (unat local_history_idx);
     Some (s\<lparr>tt_localHistoryTable2 := lh\<rparr>) }"

definition tt_btbUpdate :: "TriTournamentBP \<Rightarrow> ThreadID \<Rightarrow> Addr \<Rightarrow> TTBPHistory option \<Rightarrow> TriTournamentBP option" where
  "tt_btbUpdate s tid branch_addr bp_history = do {
     local_history_idx \<leftarrow> tt_calcLocHistIdx (tt_cfg s) branch_addr;
     local_history_idx2 \<leftarrow> tt_calcLocHistIdx2 (tt_cfg s) branch_addr;
     gh \<leftarrow> vec_mod (clear_lsb (tt_historyRegisterMask (tt_cfg s))) (tt_globalHistory s) (tid_index tid);
     lh \<leftarrow> vec_mod (clear_lsb (tt_localPredictorMask (tt_cfg s))) (tt_localHistoryTable s) (unat local_history_idx);
     lh2 \<leftarrow> vec_mod (clear_lsb (tt_localPredictorMask2 (tt_cfg s))) (tt_localHistoryTable2 s) (unat local_history_idx2);
     Some (s\<lparr>tt_globalHistory := gh, tt_localHistoryTable := lh, tt_localHistoryTable2 := lh2\<rparr>) }"

definition tt_lookup :: "TriTournamentBP \<Rightarrow> ThreadID \<Rightarrow> Addr \<Rightarrow> (bool \<times> TTBPHistory option \<times> TriTournamentBP) option" where
  "tt_lookup s tid branch_addr = do {
     let c = tt_cfg s;
     local_history_idx \<leftarrow> tt_calcLocHistIdx c branch_addr;
     lh \<leftarrow> vec_at (tt_localHistoryTable s) (unat local_history_idx);
     let local_predictor_idx = lh AND tt_localPredictorMask c;
     lc \<leftarrow> vec_at (tt_localCtrs s) (unat local_predictor_idx);
     let local_prediction = above (tt_localThreshold c) lc;
     local_history_idx2 \<leftarrow> tt_calcLocHistIdx2 c branch_addr;
     lh2 \<leftarrow> vec_at (tt_localHistoryTable2 s) (unat local_history_idx2);
     let local_predictor_idx2 = lh2 AND tt_localPredictorMask2 c;
     lc2 \<leftarrow> vec_at (tt_localCtrs2 s) (unat local_predictor_idx2);
     let local_prediction2 = above (tt_localThreshold2 c) lc2;
     gh \<leftarrow> vec_at (tt_globalHistory s) (tid_index tid);
     gc \<leftarrow> vec_at (tt_globalCtrs s) (unat (gh AND tt_globalHistoryMask c));
     let global_prediction = above (tt_globalThreshold c) gc;
     cc \<leftarrow> vec_at (tt_choiceCtrs s) (unat (gh AND tt_choiceHistoryMask c));
     let choice_prediction = above (tt_choiceThreshold c) cc;
     cc2 \<leftarrow> vec_at (tt_choiceCtrs2 s) (unat (gh AND tt_choiceHistoryMask2 c));
     let choice_prediction2 = above (tt_choiceThreshold2 c) cc2;
     let history = \<lparr>tth_globalHistory = gh, tth_localHistoryIdx = local_history_idx, tth_localHistory = local_predictor_idx,
       tth_localHistoryIdx2 = local_history_idx2, tth_localHistory2 = local_predictor_idx2,
       tth_localPredTaken = local_prediction, tth_localPredTaken2 = local_prediction2,
       tth_globalPredTaken = global_prediction, tth_globalUsed = choice_prediction, tth_local2Used = choice_prediction2\<rparr>;
     assert_that (local_history_idx < tt_localHistoryTableSize c);
     if choice_prediction2 then
       if local_prediction2 then do {
         s \<leftarrow> tt_updateGlobalHistTaken s tid;
         s \<leftarrow> tt_updateLocalHistTaken s local_history_idx;
         s \<leftarrow> tt_updateLocalHistTaken2 s local_history_idx2;
         Some (True, Some history, s) }
       else do {
         s \<leftarrow> tt_updateGlobalHistNotTaken s tid;
         s \<leftarrow> tt_updateLocalHistNotTaken s local_history_idx;
         s \<leftarrow> tt_updateLocalHistNotTaken2 s local_history_idx2;
         Some (False, Some history, s) }
     else
       if choice_prediction then
         if global_prediction then do {
           s \<leftarrow> tt_updateGlobalHistTaken s tid;
           s \<leftarrow> tt_updateLocalHistTaken s local_history_idx;
           s \<leftarrow> tt_updateLocalHistTaken2 s local_history_idx2;
           Some (True, Some history, s) }
         else do {
           s \<leftarrow> tt_updateGlobalHistNotTaken s tid;
           s \<leftarrow> tt_updateLocalHistNotTaken s local_history_idx;
           s \<leftarrow> tt_updateLocalHistNotTaken2 s local_history_idx2;
           Some (False, Some history, s) }
       else
         if local_prediction then do {
           s \<leftarrow> tt_updateGlobalHistTaken s tid;
           s \<leftarrow> tt_updateLocalHistTaken s local_history_idx;
           s \<leftarrow> tt_updateLocalHistTaken2 s local_history_idx2;
           Some (True, Some history, s) }
         else do {
           s \<leftarrow> tt_updateGlobalHistNotTaken s tid;
           s \<leftarrow> tt_updateLocalHistNotTaken s local_history_idx;
           s \<leftarrow> tt_updateLocalHistNotTaken2 s local_history_idx2;
           Some (False, Some history, s) } }"

definition tt_uncondBranch :: "TriTournamentBP \<Rightarrow> ThreadID \<Rightarrow> Addr \<Rightarrow> (TTBPHistory option \<times> TriTournamentBP) option" where
  "tt_uncondBranch s tid pc = do {
     gh \<leftarrow> vec_at (tt_globalHistory s) (tid_index tid);
     let history = \<lparr>tth_globalHistory = gh, tth_localHistoryIdx = invalidPredictorIndex, tth_localHistory = invalidPredictorIndex,
       tth_localHistoryIdx2 = invalidPredictorIndex, tth_localHistory2 = invalidPredictorIndex,
       tth_localPredTaken = True, tth_localPredTaken2 = True, tth_globalPredTaken = True,
       tth_globalUsed = True, tth_local2Used = False\<rparr>;
     s \<leftarrow> tt_updateGlobalHistTaken s tid;
     Some (Some history, s) }"

definition tt_updateAdditionalStats :: "TriTournamentBP \<Rightarrow> bool \<Rightarrow> TTBPHistory \<Rightarrow> TriTournamentBP" where
  "tt_updateAdditionalStats s taken history =
     (let prediction = (if tth_globalUsed history then tth_globalPredTaken history else tth_localPredTaken history);
          prediction = (if tth_local2Used history then tth_localPredTaken2 history else prediction);
          mispredict = (taken \<noteq> prediction)
      in if mispredict \<and>
            (\<not> tth_local2Used history \<and>
               (tth_globalUsed history \<and> tth_localPredTaken history = taken \<or>
                \<not> tth_globalUsed history \<and> tth_globalPredTaken history = taken) \<or>
             tth_local2Used history \<and> tth_localPredTaken2 history = taken)
         then s\<lparr>tt_stats := (tt_stats s)\<lparr>atLeastOneCorrectExpertOnMispredict :=
                atLeastOneCorrectExpertOnMispredict (tt_stats s) + 1\<rparr>\<rparr>
         else s)"

definition tt_update ::
    "TriTournamentBP \<Rightarrow> ThreadID \<Rightarrow> Addr \<Rightarrow> bool \<Rightarrow> TTBPHistory option \<Rightarrow> bool \<Rightarrow> TriTournamentBP option" where
  "tt_update s tid branch_addr taken bp_history squashed = do {
     history \<leftarrow> bp_history;
     let c = tt_cfg s;
     local_history_idx \<leftarrow> tt_calcLocHistIdx c branch_addr;
     assert_that (local_history_idx < tt_localHistoryTableSize c);
     local_history_idx2 \<leftarrow> tt_calcLocHistIdx2 c branch_addr;
     assert_that (local_history_idx2 < tt_localHistoryTableSize2 c);
     let old_local_pred_valid = (tth_localHistory history \<noteq> invalidPredictorIndex);
     let old_local_pred_valid2 = (tth_localHistory2 history \<noteq> invalidPredictorIndex);
     let s = tt_updateAdditionalStats s taken history;
     if squashed then do {
       gh \<leftarrow> vec_put (tt_globalHistory s) (tid_index tid)
              (shift_in (tth_globalHistory history) taken AND tt_historyRegisterMask c);
       lh \<leftarrow> (if old_local_pred_valid
              then vec_put (tt_localHistoryTable s) (unat local_history_idx) (shift_in (tth_localHistory history) taken)
              else Some (tt_localHistoryTable s));
       lh2 \<leftarrow> (if old_local_pred_valid2
               then vec_put (tt_localHistoryTable2 s) (unat local_history_idx2) (shift_in (tth_localHistory2 history) taken)
               else Some (tt_localHistoryTable2 s));
       Some (s\<lparr>tt_globalHistory := gh, tt_localHistoryTable := lh, tt_localHistoryTable2 := lh2\<rparr>) }
     else do {
       let old_local_pred_index = tth_localHistory history AND tt_localPredictorMask c;
       assert_that (old_local_pred_index < tt_localPredictorSize c);
       let old_local_pred_index2 = tth_localHistory2 history AND tt_localPredictorMask2 c;
       assert_that (old_local_pred_index2 < tt_localPredictorSize2 c);
       cc \<leftarrow> (if tth_localPredTaken history \<noteq> tth_globalPredTaken history \<and> old_local_pred_valid then
                let choice_predictor_idx = tth_globalHistory history AND tt_choiceHistoryMask c in
                if tth_localPredTaken history = taken then vec_mod decrement (tt_choiceCtrs s) (unat choice_predictor_idx)
                else if tth_globalPredTaken history = taken then vec_mod increment (tt_choiceCtrs s) (unat choice_predictor_idx)
                else Some (tt_choiceCtrs s)
              else Some (tt_choiceCtrs s));
       cc2 \<leftarrow> (if (tth_globalUsed history \<and> tth_localPredTaken2 history \<noteq> tth_globalPredTaken history \<or>
                  \<not> tth_globalUsed history \<and> tth_localPredTaken2 history \<noteq> tth_localPredTaken history) \<and>
                 old_local_pred_valid2 then
                let choice_predictor_idx2 = tth_globalHistory history AND tt_choiceHistoryMask c in
                if tth_localPredTaken2 history = taken then vec_mod increment (tt_choiceCtrs2 s) (unat choice_predictor_idx2)
                else if tth_globalPredTaken history = taken \<or> tth_localPredTaken history = taken
                  then vec_mod decrement (tt_choiceCtrs2 s) (unat choice_predictor_idx2)
                else Some (tt_choiceCtrs2 s)
              else Some (tt_choiceCtrs2 s));
       let global_predictor_idx = tth_globalHistory history AND tt_globalHistoryMask c;
       gc \<leftarrow> vec_mod (train taken) (tt_globalCtrs s) (unat global_predictor_idx);
       lc \<leftarrow> (if old_local_pred_valid then vec_mod (train taken) (tt_localCtrs s) (unat old_local_pred_index)
              else Some (tt_localCtrs s));
       lc2 \<leftarrow> (if old_local_pred_valid2 then vec_mod (train taken) (tt_localCtrs2 s) (unat old_local_pred_index2)
               else Some (tt_localCtrs2 s));
       Some (s\<lparr>tt_choiceCtrs := cc, tt_choiceCtrs2 := cc2, tt_globalCtrs := gc, tt_localCtrs := lc, tt_localCtrs2 := lc2\<rparr>) } }"

definition tt_squash :: "TriTournamentBP \<Rightarrow> ThreadID \<Rightarrow> TTBPHistory option \<Rightarrow> TriTournamentBP option" where
  "tt_squash s tid bp_history = do {
     history \<leftarrow> bp_history;
     gh \<leftarrow> vec_put (tt_globalHistory s) (tid_index tid) (tth_globalHistory history);
     lh \<leftarrow> (if tth_localHistoryIdx history \<noteq> invalidPredictorIndex
            then vec_put (tt_localHistoryTable s) (unat (tth_localHistoryIdx history)) (tth_localHistory history)
            else Some (tt_localHistoryTable s));
     lh2 \<leftarrow> (if tth_localHistoryIdx2 history \<noteq> invalidPredictorIndex
             then vec_put (tt_localHistoryTable2 s) (unat (tth_localHistoryIdx2 history)) (tth_localHistory2 history)
             else Some (tt_localHistoryTable2 s));
     Some (s\<lparr>tt_globalHistory := gh, tt_localHistoryTable := lh, tt_localHistoryTable2 := lh2\<rparr>) }"

definition tt_getGHR :: "TriTournamentBP \<Rightarrow> ThreadID \<Rightarrow> TTBPHistory option \<Rightarrow> unsigned option" where
  "tt_getGHR s tid bp_history = map_option tth_globalHistory bp_history"

definition TriTournamentDir :: "(TriTournamentBP, TTBPHistory) DirPred" where
  "TriTournamentDir = \<lparr>dp_lookup = tt_lookup, dp_uncondBranch = tt_uncondBranch, dp_btbUpdate = tt_btbUpdate,
     dp_update = tt_update, dp_squash = tt_squash, dp_getGHR = tt_getGHR\<rparr>"

subsection \<open>Invariant\<close>

text \<open>
  The second choice counters are read with \<open>choiceHistoryMask2\<close> and trained with
  \<open>choiceHistoryMask\<close>: the second table has to be at least as large as the first.
\<close>

definition tri_cfg_ok :: "TriTournamentCfg \<Rightarrow> bool" where
  "tri_cfg_ok c \<longleftrightarrow> unat (tt_instShiftAmt c) < 64 \<and>
     tt_localPredictorSize c \<noteq> 0 \<and> tt_localPredictorMask c = tt_localPredictorSize c - 1 \<and>
     tt_localHistoryTableSize c \<noteq> 0 \<and>
     tt_localPredictorSize2 c \<noteq> 0 \<and> tt_localPredictorMask2 c = tt_localPredictorSize2 c - 1 \<and>
     tt_localHistoryTableSize2 c \<noteq> 0 \<and>
     tt_globalPredictorSize c \<noteq> 0 \<and> tt_globalHistoryMask c = tt_globalPredictorSize c - 1 \<and>
     tt_choicePredictorSize c \<noteq> 0 \<and> tt_choiceHistoryMask c = tt_choicePredictorSize c - 1 \<and>
     tt_choicePredictorSize c \<le> tt_choicePredictorSize2 c \<and> tt_choiceHistoryMask2 c = tt_choicePredictorSize2 c - 1 \<and>
     (\<exists>k<32. tt_historyRegisterMask c = mask k)"

definition tri_ok :: "TriTournamentBP \<Rightarrow> bool" where
  "tri_ok s \<longleftrightarrow> tri_cfg_ok (tt_cfg s) \<and>
     ctrs_ok (tt_localPredictorSize (tt_cfg s)) (tt_localCtrBits (tt_cfg s)) (tt_localCtrs s) \<and>
     ctrs_ok (tt_localPredictorSize2 (tt_cfg s)) (tt_localCtrBits2 (tt_cfg s)) (tt_localCtrs2 s) \<and>
     ctrs_ok (tt_globalPredictorSize (tt_cfg s)) (tt_globalCtrBits (tt_cfg s)) (tt_globalCtrs s) \<and>
     ctrs_ok (tt_choicePredictorSize (tt_cfg s)) (tt_choiceCtrBits (tt_cfg s)) (tt_choiceCtrs s) \<and>
     ctrs_ok (tt_choicePredictorSize2 (tt_cfg s)) (tt_choiceCtrBits2 (tt_cfg s)) (tt_choiceCtrs2 s) \<and>
     length (tt_localHistoryTable s) = unat (tt_localHistoryTableSize (tt_cfg s)) \<and>
     length (tt_localHistoryTable2 s) = unat (tt_localHistoryTableSize2 (tt_cfg s)) \<and>
     length (tt_globalHistory s) = unat (tt_numThreads (tt_cfg s))"

definition tri_hist_ok :: "TriTournamentCfg \<Rightarrow> TTBPHistory option \<Rightarrow> bool" where
  "tri_hist_ok c ho \<longleftrightarrow> (case ho of None \<Rightarrow> False | Some h \<Rightarrow>
     (tth_localHistoryIdx h = invalidPredictorIndex \<or> tth_localHistoryIdx h < tt_localHistoryTableSize c) \<and>
     (tth_localHistoryIdx2 h = invalidPredictorIndex \<or> tth_localHistoryIdx2 h < tt_localHistoryTableSize2 c))"

definition tri_threads :: "TriTournamentCfg \<Rightarrow> nat" where
  "tri_threads c = unat (tt_numThreads c)"

text \<open>The accesses of the operations are in range.\<close>

lemma tri_choice2_range:
  assumes "tri_ok s"
  shows "unat (x AND tt_choiceHistoryMask (tt_cfg s)) < length (tt_choiceCtrs2 s)"
    and "unat (x AND tt_choiceHistoryMask2 (tt_cfg s)) < length (tt_choiceCtrs2 s)"
proof -
  let ?c = "tt_cfg s"
  have l: "length (tt_choiceCtrs2 s) = unat (tt_choicePredictorSize2 ?c)" "tt_choicePredictorSize ?c \<noteq> 0"
    "tt_choicePredictorSize ?c \<le> tt_choicePredictorSize2 ?c" "tt_choiceHistoryMask ?c = tt_choicePredictorSize ?c - 1"
    "tt_choiceHistoryMask2 ?c = tt_choicePredictorSize2 ?c - 1"
    using assms by (simp_all add: tri_ok_def tri_cfg_ok_def ctrs_ok_def)
  then have "unat (x AND tt_choiceHistoryMask ?c) < unat (tt_choicePredictorSize ?c)" by (simp add: unat_and_less)
  then show "unat (x AND tt_choiceHistoryMask ?c) < length (tt_choiceCtrs2 s)" using l(1,3) by (simp add: word_le_nat_alt)
  have "tt_choicePredictorSize2 ?c \<noteq> 0" using l(2,3) by auto
  then show "unat (x AND tt_choiceHistoryMask2 ?c) < length (tt_choiceCtrs2 s)" using l(1,5) by (simp add: unat_and_less)
qed

lemma tri_range:
  assumes "tri_ok s"
  shows "unat (tt_instShiftAmt (tt_cfg s)) < 64"
    and "unat (lhi sh (tt_localHistoryTableSize (tt_cfg s)) a) < length (tt_localHistoryTable s)"
    and "lhi sh (tt_localHistoryTableSize (tt_cfg s)) a < tt_localHistoryTableSize (tt_cfg s)"
    and "unat (lhi sh (tt_localHistoryTableSize2 (tt_cfg s)) a) < length (tt_localHistoryTable2 s)"
    and "lhi sh (tt_localHistoryTableSize2 (tt_cfg s)) a < tt_localHistoryTableSize2 (tt_cfg s)"
    and "unat (x AND tt_localPredictorMask (tt_cfg s)) < length (tt_localCtrs s)"
    and "x AND tt_localPredictorMask (tt_cfg s) < tt_localPredictorSize (tt_cfg s)"
    and "unat (x AND tt_localPredictorMask2 (tt_cfg s)) < length (tt_localCtrs2 s)"
    and "x AND tt_localPredictorMask2 (tt_cfg s) < tt_localPredictorSize2 (tt_cfg s)"
    and "unat (x AND tt_globalHistoryMask (tt_cfg s)) < length (tt_globalCtrs s)"
    and "unat (x AND tt_choiceHistoryMask (tt_cfg s)) < length (tt_choiceCtrs s)"
  using assms
  by (auto simp: tri_ok_def tri_cfg_ok_def lhi_less unat_and_less ctrs_ok_def word_less_nat_alt)

text \<open>The history object and the prediction as functions of the state.\<close>

definition tt_idx :: "TriTournamentBP \<Rightarrow> Addr \<Rightarrow> unsigned" where
  "tt_idx s a = lhi (tt_instShiftAmt (tt_cfg s)) (tt_localHistoryTableSize (tt_cfg s)) a"

definition tt_idx2 :: "TriTournamentBP \<Rightarrow> Addr \<Rightarrow> unsigned" where
  "tt_idx2 s a = lhi (tt_instShiftAmt (tt_cfg s)) (tt_localHistoryTableSize2 (tt_cfg s)) a"

definition tt_hist :: "TriTournamentBP \<Rightarrow> ThreadID \<Rightarrow> Addr \<Rightarrow> TTBPHistory" where
  "tt_hist s t a = (let c = tt_cfg s; gh = tt_globalHistory s ! tid_index t;
       lp = (tt_localHistoryTable s ! unat (tt_idx s a)) AND tt_localPredictorMask c;
       lp2 = (tt_localHistoryTable2 s ! unat (tt_idx2 s a)) AND tt_localPredictorMask2 c in
     \<lparr>tth_globalHistory = gh, tth_localHistoryIdx = tt_idx s a, tth_localHistory = lp,
      tth_localHistoryIdx2 = tt_idx2 s a, tth_localHistory2 = lp2,
      tth_localPredTaken = above (tt_localThreshold c) (tt_localCtrs s ! unat lp),
      tth_localPredTaken2 = above (tt_localThreshold2 c) (tt_localCtrs2 s ! unat lp2),
      tth_globalPredTaken = above (tt_globalThreshold c) (tt_globalCtrs s ! unat (gh AND tt_globalHistoryMask c)),
      tth_globalUsed = above (tt_choiceThreshold c) (tt_choiceCtrs s ! unat (gh AND tt_choiceHistoryMask c)),
      tth_local2Used = above (tt_choiceThreshold2 c) (tt_choiceCtrs2 s ! unat (gh AND tt_choiceHistoryMask2 c))\<rparr>)"

definition tt_verdict :: "TTBPHistory \<Rightarrow> bool" where
  "tt_verdict h = (if tth_local2Used h then tth_localPredTaken2 h
     else if tth_globalUsed h then tth_globalPredTaken h else tth_localPredTaken h)"

definition tt_spec :: "TriTournamentBP \<Rightarrow> ThreadID \<Rightarrow> Addr \<Rightarrow> bool \<Rightarrow> TriTournamentBP" where
  "tt_spec s t a b = s\<lparr>
     tt_globalHistory := (tt_globalHistory s)[tid_index t :=
       shift_in (tt_globalHistory s ! tid_index t) b AND tt_historyRegisterMask (tt_cfg s)],
     tt_localHistoryTable := (tt_localHistoryTable s)[unat (tt_idx s a) :=
       shift_in (tt_localHistoryTable s ! unat (tt_idx s a)) b],
     tt_localHistoryTable2 := (tt_localHistoryTable2 s)[unat (tt_idx2 s a) :=
       shift_in (tt_localHistoryTable2 s ! unat (tt_idx2 s a)) b]\<rparr>"

lemma tt_idx_less:
  assumes "tri_ok s"
  shows "unat (tt_idx s a) < length (tt_localHistoryTable s)" and "tt_idx s a < tt_localHistoryTableSize (tt_cfg s)"
    and "unat (tt_idx2 s a) < length (tt_localHistoryTable2 s)" and "tt_idx2 s a < tt_localHistoryTableSize2 (tt_cfg s)"
  using tri_range(2-5) [OF assms] by (simp_all add: tt_idx_def tt_idx2_def)

lemma tt_calc_eq:
  assumes "tri_ok s"
  shows "tt_calcLocHistIdx (tt_cfg s) a = Some (tt_idx s a)" and "tt_calcLocHistIdx2 (tt_cfg s) a = Some (tt_idx2 s a)"
  using tri_range(1) [OF assms]
  by (simp_all add: tt_calcLocHistIdx_def tt_calcLocHistIdx2_def tt_idx_def tt_idx2_def loc_hist_idx_eq)

lemmas tri_hist_updates = tt_updateGlobalHistTaken_def tt_updateGlobalHistNotTaken_def
  tt_updateLocalHistTaken_def tt_updateLocalHistNotTaken_def tt_updateLocalHistTaken2_def tt_updateLocalHistNotTaken2_def

lemma tt_speculate:
  assumes "tri_ok s" and "tid_index t < length (tt_globalHistory s)"
  shows "do { x \<leftarrow> tt_updateGlobalHistTaken s t; y \<leftarrow> tt_updateLocalHistTaken x (tt_idx s a);
      z \<leftarrow> tt_updateLocalHistTaken2 y (tt_idx2 s a); Some (True, h, z) } = Some (True, h, tt_spec s t a True)"
    and "do { x \<leftarrow> tt_updateGlobalHistNotTaken s t; y \<leftarrow> tt_updateLocalHistNotTaken x (tt_idx s a);
      z \<leftarrow> tt_updateLocalHistNotTaken2 y (tt_idx2 s a); Some (False, h, z) } = Some (False, h, tt_spec s t a False)"
  using assms(2) tt_idx_less [OF assms(1), of a]
  by (simp_all add: tri_hist_updates vec_mod_Some tt_spec_def tt_idx_def tt_idx2_def)

lemma tt_lookup_eq:
  assumes "tri_ok s" and "tid_index t < length (tt_globalHistory s)"
  shows "tt_lookup s t a =
    Some (tt_verdict (tt_hist s t a), Some (tt_hist s t a), tt_spec s t a (tt_verdict (tt_hist s t a)))"
proof -
  note r = assms(2) tri_range [OF assms(1)] tri_choice2_range [OF assms(1)] tt_idx_less [OF assms(1), of a]
  show ?thesis
    unfolding tt_lookup_def
    by (simp only: Let_def tt_calc_eq [OF assms(1)] Option.bind.simps vec_at_Some r assert_that_True)
      (simp add: tt_speculate [OF assms] tt_hist_def tt_verdict_def Let_def)
qed

definition tt_uncond_hist :: "TriTournamentBP \<Rightarrow> ThreadID \<Rightarrow> TTBPHistory" where
  "tt_uncond_hist s t = \<lparr>tth_globalHistory = tt_globalHistory s ! tid_index t,
     tth_localHistoryIdx = invalidPredictorIndex, tth_localHistory = invalidPredictorIndex,
     tth_localHistoryIdx2 = invalidPredictorIndex, tth_localHistory2 = invalidPredictorIndex,
     tth_localPredTaken = True, tth_localPredTaken2 = True, tth_globalPredTaken = True,
     tth_globalUsed = True, tth_local2Used = False\<rparr>"

lemma tt_uncond_eq:
  assumes "tri_ok s" and "tid_index t < length (tt_globalHistory s)"
  shows "tt_uncondBranch s t a = Some (Some (tt_uncond_hist s t),
    s\<lparr>tt_globalHistory := (tt_globalHistory s)[tid_index t :=
      shift_in (tt_globalHistory s ! tid_index t) True AND tt_historyRegisterMask (tt_cfg s)]\<rparr>)"
  using assms by (simp add: tt_uncondBranch_def tt_uncond_hist_def tt_updateGlobalHistTaken_def fault_simps)

lemma tt_btbUpdate_eq:
  assumes "tri_ok s" and "tid_index t < length (tt_globalHistory s)"
  shows "tt_btbUpdate s t a h = Some (s\<lparr>
    tt_globalHistory := (tt_globalHistory s)[tid_index t :=
      clear_lsb (tt_historyRegisterMask (tt_cfg s)) (tt_globalHistory s ! tid_index t)],
    tt_localHistoryTable := (tt_localHistoryTable s)[unat (tt_idx s a) :=
      clear_lsb (tt_localPredictorMask (tt_cfg s)) (tt_localHistoryTable s ! unat (tt_idx s a))],
    tt_localHistoryTable2 := (tt_localHistoryTable2 s)[unat (tt_idx2 s a) :=
      clear_lsb (tt_localPredictorMask2 (tt_cfg s)) (tt_localHistoryTable2 s ! unat (tt_idx2 s a))]\<rparr>)"
  using assms(2) tt_idx_less [OF assms(1), of a] by (simp add: tt_btbUpdate_def tt_calc_eq [OF assms(1)] fault_simps)

lemma tt_squash_eq:
  assumes "tri_ok s" and "tid_index t < length (tt_globalHistory s)" and "tri_hist_ok (tt_cfg s) (Some h)"
  shows "tt_squash s t (Some h) = Some (s\<lparr>
    tt_globalHistory := (tt_globalHistory s)[tid_index t := tth_globalHistory h],
    tt_localHistoryTable := (if tth_localHistoryIdx h = invalidPredictorIndex then tt_localHistoryTable s
      else (tt_localHistoryTable s)[unat (tth_localHistoryIdx h) := tth_localHistory h]),
    tt_localHistoryTable2 := (if tth_localHistoryIdx2 h = invalidPredictorIndex then tt_localHistoryTable2 s
      else (tt_localHistoryTable2 s)[unat (tth_localHistoryIdx2 h) := tth_localHistory2 h])\<rparr>)"
  using assms by (auto simp: tt_squash_def tri_hist_ok_def tri_ok_def fault_simps word_less_nat_alt)

lemma tt_stats_frame [simp]:
  "tt_cfg (tt_updateAdditionalStats s b h) = tt_cfg s"
  "tt_localCtrs (tt_updateAdditionalStats s b h) = tt_localCtrs s"
  "tt_localHistoryTable (tt_updateAdditionalStats s b h) = tt_localHistoryTable s"
  "tt_localCtrs2 (tt_updateAdditionalStats s b h) = tt_localCtrs2 s"
  "tt_localHistoryTable2 (tt_updateAdditionalStats s b h) = tt_localHistoryTable2 s"
  "tt_globalCtrs (tt_updateAdditionalStats s b h) = tt_globalCtrs s"
  "tt_globalHistory (tt_updateAdditionalStats s b h) = tt_globalHistory s"
  "tt_choiceCtrs (tt_updateAdditionalStats s b h) = tt_choiceCtrs s"
  "tt_choiceCtrs2 (tt_updateAdditionalStats s b h) = tt_choiceCtrs2 s"
  by (simp_all add: tt_updateAdditionalStats_def Let_def)

lemma tt_update_squashed_eq:
  assumes "tri_ok s" and "tid_index t < length (tt_globalHistory s)"
  shows "tt_update s t a taken (Some h) True = Some ((tt_updateAdditionalStats s taken h)\<lparr>
    tt_globalHistory := (tt_globalHistory s)[tid_index t := shift_in (tth_globalHistory h) taken AND tt_historyRegisterMask (tt_cfg s)],
    tt_localHistoryTable := (if tth_localHistory h = invalidPredictorIndex then tt_localHistoryTable s
      else (tt_localHistoryTable s)[unat (tt_idx s a) := shift_in (tth_localHistory h) taken]),
    tt_localHistoryTable2 := (if tth_localHistory2 h = invalidPredictorIndex then tt_localHistoryTable2 s
      else (tt_localHistoryTable2 s)[unat (tt_idx2 s a) := shift_in (tth_localHistory2 h) taken])\<rparr>)"
  using assms(2) tt_idx_less [OF assms(1), of a]
  by (simp add: tt_update_def tt_calc_eq [OF assms(1)] fault_simps Let_def)

text \<open>The choice counters a commit trains, and how.\<close>

definition tt_choice_step :: "bool \<Rightarrow> TTBPHistory \<Rightarrow> SatCounter \<Rightarrow> SatCounter" where
  "tt_choice_step taken h =
     (if tth_localPredTaken h \<noteq> tth_globalPredTaken h \<and> tth_localHistory h \<noteq> invalidPredictorIndex
      then train (tth_globalPredTaken h = taken) else id)"

definition tt_choice_step2 :: "bool \<Rightarrow> TTBPHistory \<Rightarrow> SatCounter \<Rightarrow> SatCounter" where
  "tt_choice_step2 taken h =
     (if tth_localPredTaken2 h \<noteq> (if tth_globalUsed h then tth_globalPredTaken h else tth_localPredTaken h) \<and>
         tth_localHistory2 h \<noteq> invalidPredictorIndex
      then train (tth_localPredTaken2 h = taken) else id)"

lemma tt_update_commit_eq:
  assumes "tri_ok s"
  shows "tt_update s t a taken (Some h) False = Some ((tt_updateAdditionalStats s taken h)\<lparr>
    tt_choiceCtrs := (let i = unat (tth_globalHistory h AND tt_choiceHistoryMask (tt_cfg s)) in
      (tt_choiceCtrs s)[i := tt_choice_step taken h (tt_choiceCtrs s ! i)]),
    tt_choiceCtrs2 := (let i = unat (tth_globalHistory h AND tt_choiceHistoryMask (tt_cfg s)) in
      (tt_choiceCtrs2 s)[i := tt_choice_step2 taken h (tt_choiceCtrs2 s ! i)]),
    tt_globalCtrs := (let i = unat (tth_globalHistory h AND tt_globalHistoryMask (tt_cfg s)) in
      (tt_globalCtrs s)[i := train taken (tt_globalCtrs s ! i)]),
    tt_localCtrs := (let i = unat (tth_localHistory h AND tt_localPredictorMask (tt_cfg s)) in
      (if tth_localHistory h = invalidPredictorIndex then tt_localCtrs s
       else (tt_localCtrs s)[i := train taken (tt_localCtrs s ! i)])),
    tt_localCtrs2 := (let i = unat (tth_localHistory2 h AND tt_localPredictorMask2 (tt_cfg s)) in
      (if tth_localHistory2 h = invalidPredictorIndex then tt_localCtrs2 s
       else (tt_localCtrs2 s)[i := train taken (tt_localCtrs2 s ! i)]))\<rparr>)"
proof -
  note r = tri_range [OF assms] tri_choice2_range [OF assms] tt_idx_less [OF assms, of a]
  let ?i = "unat (tth_globalHistory h AND tt_choiceHistoryMask (tt_cfg s))"
  have c: "(if tth_localPredTaken h \<noteq> tth_globalPredTaken h \<and> tth_localHistory h \<noteq> invalidPredictorIndex then
      if tth_localPredTaken h = taken then vec_mod decrement (tt_choiceCtrs s) ?i
      else if tth_globalPredTaken h = taken then vec_mod increment (tt_choiceCtrs s) ?i else Some (tt_choiceCtrs s)
    else Some (tt_choiceCtrs s)) = Some ((tt_choiceCtrs s)[?i := tt_choice_step taken h (tt_choiceCtrs s ! ?i)])"
    using r by (auto simp: tt_choice_step_def train_def fault_simps)
  have c2: "(if (tth_globalUsed h \<and> tth_localPredTaken2 h \<noteq> tth_globalPredTaken h \<or>
        \<not> tth_globalUsed h \<and> tth_localPredTaken2 h \<noteq> tth_localPredTaken h) \<and> tth_localHistory2 h \<noteq> invalidPredictorIndex then
      if tth_localPredTaken2 h = taken then vec_mod increment (tt_choiceCtrs2 s) ?i
      else if tth_globalPredTaken h = taken \<or> tth_localPredTaken h = taken then vec_mod decrement (tt_choiceCtrs2 s) ?i
      else Some (tt_choiceCtrs2 s)
    else Some (tt_choiceCtrs2 s)) = Some ((tt_choiceCtrs2 s)[?i := tt_choice_step2 taken h (tt_choiceCtrs2 s ! ?i)])"
    using r by (auto simp: tt_choice_step2_def train_def fault_simps)
  have l: "(if b then Some x else Some y) = Some (if \<not> b then y else x)" for b and x y :: "SatCounter list" by simp
  show ?thesis
    unfolding tt_update_def
    by (simp only: Let_def tt_calc_eq [OF assms] tt_stats_frame Option.bind.simps assert_that_True r c c2 if_False)
      (simp only: l vec_mod_Some r Option.bind.simps not_not)
qed

lemma tt_choice_steps_ok:
  assumes "ctrs_ok sz bits cs"
  shows "ctrs_ok sz bits (cs[i := tt_choice_step b h (cs ! i)])" and "ctrs_ok sz bits (cs[i := tt_choice_step2 b h (cs ! i)])"
  using assms by (simp_all add: tt_choice_step_def tt_choice_step2_def ctrs_ok_train_at)

subsection \<open>The contracts of the base class\<close>

definition tri_undo :: "ThreadID \<Rightarrow> TTBPHistory option \<Rightarrow> unsigned list \<Rightarrow> unsigned list" where
  "tri_undo t ho gh = (case ho of None \<Rightarrow> gh | Some h \<Rightarrow> gh[tid_index t := tth_globalHistory h])"

lemma TriTournamentDir_simps [simp]:
  "dp_lookup TriTournamentDir = tt_lookup" "dp_uncondBranch TriTournamentDir = tt_uncondBranch"
  "dp_btbUpdate TriTournamentDir = tt_btbUpdate" "dp_update TriTournamentDir = tt_update"
  "dp_squash TriTournamentDir = tt_squash" "dp_getGHR TriTournamentDir = tt_getGHR"
  by (simp_all add: TriTournamentDir_def)

lemma tri_threads_length: "tri_ok s \<Longrightarrow> tri_threads (tt_cfg s) = length (tt_globalHistory s)"
  by (simp add: tri_ok_def tri_threads_def)

lemma tri_ok_frame:
  "tri_ok s \<Longrightarrow> tt_cfg s' = tt_cfg s \<Longrightarrow> tt_localCtrs s' = tt_localCtrs s \<Longrightarrow> tt_localCtrs2 s' = tt_localCtrs2 s \<Longrightarrow>
   tt_globalCtrs s' = tt_globalCtrs s \<Longrightarrow> tt_choiceCtrs s' = tt_choiceCtrs s \<Longrightarrow> tt_choiceCtrs2 s' = tt_choiceCtrs2 s \<Longrightarrow>
   length (tt_localHistoryTable s') = length (tt_localHistoryTable s) \<Longrightarrow>
   length (tt_localHistoryTable2 s') = length (tt_localHistoryTable2 s) \<Longrightarrow>
   length (tt_globalHistory s') = length (tt_globalHistory s) \<Longrightarrow> tri_ok s'"
  by (simp add: tri_ok_def)

lemma tri_spec_ok: "tri_ok s \<Longrightarrow> tri_ok (tt_spec s t a b)"
  by (erule tri_ok_frame) (simp_all add: tt_spec_def)

lemma tri_hist_ok_lookup: "tri_ok s \<Longrightarrow> tri_hist_ok (tt_cfg s) (Some (tt_hist s t a))"
  using tt_idx_less(2,4) by (simp add: tri_hist_ok_def tt_hist_def Let_def)

lemma tri_commit_ok:
  assumes "tri_ok s" and "tt_update s t a taken (Some h) False = Some s'"
  shows "tri_ok s'"
  using assms by (auto simp: tt_update_commit_eq tri_ok_def ctrs_ok_train_at tt_choice_steps_ok Let_def)

interpretation tri: speculative_predictor TriTournamentDir tri_ok tt_cfg tri_threads tri_hist_ok tt_globalHistory tri_undo
proof unfold_locales
  fix s s' s'' :: TriTournamentBP and t :: ThreadID and a :: Addr and h :: "TTBPHistory option" and b q :: bool
  assume ok: "tri_ok s" and "tid_index t < tri_threads (tt_cfg s)"
  then have i: "tid_index t < length (tt_globalHistory s)" by (simp add: tri_threads_length)
  let ?l = "tt_spec s t a (tt_verdict (tt_hist s t a))"
  have okl: "tri_ok ?l" by (rule tri_spec_ok [OF ok])
  show "\<exists>b h s'. dp_lookup TriTournamentDir s t a = Some (b, h, s') \<and> tri_ok s' \<and> tt_cfg s' = tt_cfg s \<and> tri_hist_ok (tt_cfg s) h"
    using okl by (simp add: tt_lookup_eq [OF ok i] tri_hist_ok_lookup [OF ok]) (simp add: tt_spec_def)
  show "\<exists>h s'. dp_uncondBranch TriTournamentDir s t a = Some (h, s') \<and> tri_ok s' \<and> tt_cfg s' = tt_cfg s \<and> tri_hist_ok (tt_cfg s) h"
    by (simp add: tt_uncond_eq [OF ok i] tri_hist_ok_def tt_uncond_hist_def tri_ok_frame [OF ok])
  show "dp_lookup TriTournamentDir s t a = Some (b, h, s') \<Longrightarrow> tri_undo t h (tt_globalHistory s') = tt_globalHistory s"
    using i by (auto simp: tt_lookup_eq [OF ok i] tri_undo_def tt_spec_def tt_hist_def Let_def)
  show "dp_uncondBranch TriTournamentDir s t a = Some (h, s') \<Longrightarrow> tri_undo t h (tt_globalHistory s') = tt_globalHistory s"
    using i by (auto simp: tt_uncond_eq [OF ok i] tri_undo_def tt_uncond_hist_def)
  show "dp_lookup TriTournamentDir s t a = Some (b, h, s') \<Longrightarrow> dp_btbUpdate TriTournamentDir s' t a h = Some s'' \<Longrightarrow>
      tri_undo t h (tt_globalHistory s'') = tt_globalHistory s"
    using i okl
    by (auto simp: tt_lookup_eq [OF ok i] tt_btbUpdate_eq tri_undo_def tt_hist_def Let_def) (auto simp: tt_spec_def tt_btbUpdate_eq)
  show "dp_uncondBranch TriTournamentDir s t a = Some (h, s') \<Longrightarrow> dp_btbUpdate TriTournamentDir s' t a h = Some s'' \<Longrightarrow>
      tri_undo t h (tt_globalHistory s'') = tt_globalHistory s"
    using i by (auto simp: tt_uncond_eq [OF ok i] tt_btbUpdate_eq tri_ok_frame [OF ok] tri_undo_def tt_uncond_hist_def)
  assume "tri_hist_ok (tt_cfg s) h"
  then obtain x where h: "h = Some x" "tri_hist_ok (tt_cfg s) (Some x)" by (cases h) (auto simp: tri_hist_ok_def)
  show "\<exists>s'. dp_btbUpdate TriTournamentDir s t a h = Some s' \<and> tri_ok s' \<and> tt_cfg s' = tt_cfg s"
    by (simp add: tt_btbUpdate_eq [OF ok i] tri_ok_frame [OF ok])
  show "\<exists>s'. dp_update TriTournamentDir s t a b h q = Some s' \<and> tri_ok s' \<and> tt_cfg s' = tt_cfg s"
  proof (cases q)
    case True
    then show ?thesis by (simp add: h(1) tt_update_squashed_eq [OF ok i] tri_ok_frame [OF ok])
  next
    case False
    then show ?thesis using tri_commit_ok [OF ok, of t a b x] by (simp add: h(1) tt_update_commit_eq [OF ok])
  qed
  show "\<exists>s'. dp_squash TriTournamentDir s t h = Some s' \<and> tri_ok s' \<and> tt_cfg s' = tt_cfg s"
    by (simp add: h(1) tt_squash_eq [OF ok i h(2)] tri_ok_frame [OF ok])
  show "\<exists>g. dp_getGHR TriTournamentDir s t h = Some g" by (simp add: h(1) tt_getGHR_def)
  show "dp_squash TriTournamentDir s t h = Some s' \<Longrightarrow> tt_globalHistory s' = tri_undo t h (tt_globalHistory s)"
    by (auto simp: h(1) tt_squash_eq [OF ok i h(2)] tri_undo_def)
  show "dp_update TriTournamentDir s t a b h False = Some s' \<Longrightarrow> tt_globalHistory s' = tt_globalHistory s"
    by (auto simp: h(1) tt_update_commit_eq [OF ok])
qed

subsection \<open>The constructed predictor\<close>

lemma TriTournamentBP_new_ok:
  assumes "TriTournamentBP_new junk p = Inr s" and "unat (ttp_instShiftAmt p) < 64"
    and "ttp_choicePredictorSize p \<le> ttp_choicePredictorSize2 p"
  shows "tri_ok s" and "tt_numThreads (tt_cfg s) = ttp_numThreads p"
proof -
  obtain lb lb2 gb cb lc lc2 gc cc cc2 where
    d: "ceilLog2 (ttp_localPredictorSize p) = Some lb" "ceilLog2 (ttp_localPredictorSize2 p) = Some lb2"
      "ceilLog2 (ttp_globalPredictorSize p) = Some gb" "ceilLog2 (ttp_choicePredictorSize p) = Some cb"
    and w: "isPowerOf2 (ttp_localPredictorSize p)" "isPowerOf2 (ttp_localPredictorSize2 p)"
      "isPowerOf2 (ttp_globalPredictorSize p)" "isPowerOf2 (ttp_choicePredictorSize p)"
      "isPowerOf2 (ttp_localHistoryTableSize p)" "isPowerOf2 (ttp_localHistoryTableSize2 p)"
    and c: "fresh_counters junk (ttp_localPredictorSize p) (ttp_localCtrBits p) = Some lc"
      "fresh_counters junk (ttp_localPredictorSize2 p) (ttp_localCtrBits2 p) = Some lc2"
      "fresh_counters junk (ttp_globalPredictorSize p) (ttp_globalCtrBits p) = Some gc"
      "fresh_counters junk (ttp_choicePredictorSize p) (ttp_choiceCtrBits p) = Some cc"
      "fresh_counters junk (ttp_choicePredictorSize2 p) (ttp_choiceCtrBits2 p) = Some cc2"
    and t: "tt_localCtrs s = lc" "tt_localCtrs2 s = lc2" "tt_globalCtrs s = gc" "tt_choiceCtrs s = cc" "tt_choiceCtrs2 s = cc2"
      "tt_localHistoryTable s = replicate (unat (ttp_localHistoryTableSize p)) 0"
      "tt_localHistoryTable2 s = replicate (unat (ttp_localHistoryTableSize2 p)) 0"
      "tt_globalHistory s = replicate (unat (ttp_numThreads p)) 0"
    and f: "tt_numThreads (tt_cfg s) = ttp_numThreads p" "tt_instShiftAmt (tt_cfg s) = ttp_instShiftAmt p"
      "tt_localPredictorSize (tt_cfg s) = ttp_localPredictorSize p" "tt_localPredictorMask (tt_cfg s) = ucast (mask64 lb)"
      "tt_localCtrBits (tt_cfg s) = ttp_localCtrBits p" "tt_localHistoryTableSize (tt_cfg s) = ttp_localHistoryTableSize p"
      "tt_localPredictorSize2 (tt_cfg s) = ttp_localPredictorSize2 p" "tt_localPredictorMask2 (tt_cfg s) = ucast (mask64 lb2)"
      "tt_localCtrBits2 (tt_cfg s) = ttp_localCtrBits2 p" "tt_localHistoryTableSize2 (tt_cfg s) = ttp_localHistoryTableSize2 p"
      "tt_globalPredictorSize (tt_cfg s) = ttp_globalPredictorSize p" "tt_globalCtrBits (tt_cfg s) = ttp_globalCtrBits p"
      "tt_globalHistoryMask (tt_cfg s) = ttp_globalPredictorSize p - 1" "tt_choiceHistoryMask (tt_cfg s) = ttp_choicePredictorSize p - 1"
      "tt_choiceHistoryMask2 (tt_cfg s) = ttp_choicePredictorSize2 p - 1"
      "tt_historyRegisterMask (tt_cfg s) = ucast (mask64 (if gb > cb then gb else cb))"
      "tt_choicePredictorSize (tt_cfg s) = ttp_choicePredictorSize p" "tt_choiceCtrBits (tt_cfg s) = ttp_choiceCtrBits p"
      "tt_choicePredictorSize2 (tt_cfg s) = ttp_choicePredictorSize2 p" "tt_choiceCtrBits2 (tt_cfg s) = ttp_choiceCtrBits2 p"
    using assms(1) by (auto simp: TriTournamentBP_new_def ebind_eq_Inr Let_def)
  have nz: "ttp_localPredictorSize p \<noteq> 0" "ttp_localPredictorSize2 p \<noteq> 0" "ttp_globalPredictorSize p \<noteq> 0"
    "ttp_choicePredictorSize p \<noteq> 0" "ttp_localHistoryTableSize p \<noteq> 0" "ttp_localHistoryTableSize2 p \<noteq> 0"
    using w by (auto simp: isPowerOf2_def)
  then have nz2: "ttp_choicePredictorSize2 p \<noteq> 0" using assms(3) by auto
  have m: "ucast (mask64 lb) = ttp_localPredictorSize p - 1" "ucast (mask64 lb2) = ttp_localPredictorSize2 p - 1" "gb < 32" "cb < 32"
    using ceilLog2_mask [OF w(1)] ceilLog2_mask [OF w(2)] ceilLog2_mask [OF w(3)] ceilLog2_mask [OF w(4)] d by auto
  have k: "(ucast (mask64 k) :: unsigned) = mask k" if "k < 32" for k
    using ucast_mask64 [OF that] by (simp add: mask_eq_exp_minus_1)
  have "\<exists>k<32. tt_historyRegisterMask (tt_cfg s) = mask k"
    unfolding f using m(3,4) k by (intro exI [of _ "if gb > cb then gb else cb"]) simp
  then show "tri_ok s"
    using nz m(1,2) assms(2,3) ctrs_ok_fresh [OF c(1)] ctrs_ok_fresh [OF c(2)] ctrs_ok_fresh [OF c(3)] ctrs_ok_fresh [OF c(4)]
      ctrs_ok_fresh [OF c(5) nz2]
    by (simp add: tri_ok_def tri_cfg_ok_def t f del: if_cancel)
  show "tt_numThreads (tt_cfg s) = ttp_numThreads p" by (rule f(1))
qed

subsection \<open>The second local predictor is never selected\<close>

text \<open>The tournament predictor inside: its configuration, state, history object and parameters.\<close>

definition tri_tour_cfg :: "TriTournamentCfg \<Rightarrow> TournamentCfg" where
  "tri_tour_cfg c = \<lparr>t_numThreads = tt_numThreads c, t_instShiftAmt = tt_instShiftAmt c,
     t_localPredictorSize = tt_localPredictorSize c, t_localPredictorMask = tt_localPredictorMask c,
     t_localCtrBits = tt_localCtrBits c, t_localHistoryTableSize = tt_localHistoryTableSize c,
     t_localHistoryBits = tt_localHistoryBits c, t_globalPredictorSize = tt_globalPredictorSize c,
     t_globalCtrBits = tt_globalCtrBits c, t_globalHistoryBits = tt_globalHistoryBits c,
     t_globalHistoryMask = tt_globalHistoryMask c, t_choiceHistoryMask = tt_choiceHistoryMask c,
     t_historyRegisterMask = tt_historyRegisterMask c, t_choicePredictorSize = tt_choicePredictorSize c,
     t_choiceCtrBits = tt_choiceCtrBits c, t_localThreshold = tt_localThreshold c,
     t_globalThreshold = tt_globalThreshold c, t_choiceThreshold = tt_choiceThreshold c\<rparr>"

definition tri_tour :: "TriTournamentBP \<Rightarrow> TournamentBP" where
  "tri_tour s = \<lparr>t_cfg = tri_tour_cfg (tt_cfg s), t_localCtrs = tt_localCtrs s, t_localHistoryTable = tt_localHistoryTable s,
     t_globalCtrs = tt_globalCtrs s, t_globalHistory = tt_globalHistory s, t_choiceCtrs = tt_choiceCtrs s, t_stats = tt_stats s\<rparr>"

definition tri_tour_hist :: "TTBPHistory \<Rightarrow> TBPHistory" where
  "tri_tour_hist h = \<lparr>th_globalHistory = tth_globalHistory h, th_localHistoryIdx = tth_localHistoryIdx h,
     th_localHistory = tth_localHistory h, th_localPredTaken = tth_localPredTaken h,
     th_globalPredTaken = tth_globalPredTaken h, th_globalUsed = tth_globalUsed h\<rparr>"

definition tri_tour_params :: "TriTournamentParams \<Rightarrow> TournamentParams" where
  "tri_tour_params p = \<lparr>tp_numThreads = ttp_numThreads p, tp_instShiftAmt = ttp_instShiftAmt p,
     tp_localPredictorSize = ttp_localPredictorSize p, tp_localCtrBits = ttp_localCtrBits p,
     tp_localHistoryTableSize = ttp_localHistoryTableSize p, tp_globalPredictorSize = ttp_globalPredictorSize p,
     tp_globalCtrBits = ttp_globalCtrBits p, tp_choicePredictorSize = ttp_choicePredictorSize p,
     tp_choiceCtrBits = ttp_choiceCtrBits p\<rparr>"

lemmas tri_tour_simps = tri_tour_def tri_tour_cfg_def tri_tour_hist_def

definition tri_third_off :: "TriTournamentCfg \<Rightarrow> bool" where
  "tri_third_off c \<longleftrightarrow> 2 \<le> unat (tt_choiceCtrBits c) \<and> unat (tt_choiceCtrBits c) \<le> 8 \<and>
     unat (tt_choiceCtrBits2 c) \<le> unat (tt_choiceCtrBits c) \<and>
     threshold2_of_bits (tt_choiceCtrBits c) = Some (tt_choiceThreshold2 c)"

definition tri_rel :: "TriTournamentCfg \<Rightarrow> TriTournamentBP \<Rightarrow> TournamentBP \<Rightarrow> bool" where
  "tri_rel c s s' \<longleftrightarrow> tri_ok s \<and> tri_third_off c \<and> tt_cfg s = c \<and> s' = tri_tour s"

definition tri_hist_rel :: "TriTournamentCfg \<Rightarrow> TTBPHistory option \<Rightarrow> TBPHistory option \<Rightarrow> bool" where
  "tri_hist_rel c h h' \<longleftrightarrow> tri_hist_ok c h \<and> (\<exists>x. h = Some x \<and> \<not> tth_local2Used x \<and> h' = Some (tri_tour_hist x))"

lemma tri_tour_ok: "tri_ok s \<Longrightarrow> tour_ok (tri_tour s)"
  by (simp add: tri_ok_def tri_cfg_ok_def tour_ok_def tour_cfg_ok_def tri_tour_simps)

lemma tri_tour_hist_ok: "tri_hist_ok c (Some h) \<Longrightarrow> tour_hist_ok (tri_tour_cfg c) (Some (tri_tour_hist h))"
  by (simp add: tri_hist_ok_def tour_hist_ok_def tri_tour_simps)

lemma tri_tour_idx: "t_idx (tri_tour s) a = tt_idx s a"
  by (simp add: t_idx_def tt_idx_def tri_tour_simps)

lemma tri_never_local2:
  assumes "tri_ok s" and "tri_third_off (tt_cfg s)"
  shows "\<not> tth_local2Used (tt_hist s t a)"
proof -
  let ?x = "tt_globalHistory s ! tid_index t AND tt_choiceHistoryMask2 (tt_cfg s)"
  have "ctr_ok (tt_choiceCtrBits2 (tt_cfg s)) (tt_choiceCtrs2 s ! unat ?x)"
    using assms(1) tri_choice2_range(2) [OF assms(1)] by (auto simp: tri_ok_def ctrs_ok_def list_all_length)
  then show ?thesis using assms(2) never_above_threshold2 by (auto simp: tt_hist_def Let_def tri_third_off_def)
qed

lemma tri_tour_lookup:
  assumes "tri_ok s" and "tri_third_off (tt_cfg s)"
  shows "t_hist (tri_tour s) t a = tri_tour_hist (tt_hist s t a)"
    and "t_verdict (tri_tour_hist (tt_hist s t a)) = tt_verdict (tt_hist s t a)"
    and "t_spec (tri_tour s) t a b = tri_tour (tt_spec s t a b)"
  using tri_never_local2 [OF assms, of t a]
  by (simp_all add: t_hist_def tt_hist_def t_spec_def tt_spec_def t_verdict_def tt_verdict_def tri_tour_idx Let_def)
    (simp_all add: tri_tour_simps)

lemma tri_tour_stats:
  "\<not> tth_local2Used h \<Longrightarrow> t_updateAdditionalStats (tri_tour s) b (tri_tour_hist h) = tri_tour (tt_updateAdditionalStats s b h)"
  by (auto simp: t_updateAdditionalStats_def tt_updateAdditionalStats_def tri_tour_simps Let_def)

interpretation tri_sim: predictor_simulation TournamentDir TriTournamentDir "unat (tt_numThreads c)" "tri_rel c" "tri_hist_rel c" for c
proof unfold_locales
  fix s s' t a h h' b q
  assume "tid_index t < unat (tt_numThreads c)" and R: "tri_rel c s s'"
  then have ok: "tri_ok s" and off: "tri_third_off (tt_cfg s)" and c: "tt_cfg s = c" and s': "s' = tri_tour s"
    and i: "tid_index t < length (tt_globalHistory s)" by (auto simp: tri_rel_def tri_ok_def)
  have ok': "tour_ok (tri_tour s)" and i': "tid_index t < length (t_globalHistory (tri_tour s))"
    using tri_tour_ok [OF ok] i by (simp_all add: tri_tour_simps)
  have fr: "tri_rel c x (tri_tour x)" if "tri_ok x" "tt_cfg x = tt_cfg s" for x using that off c by (simp add: tri_rel_def)
  show "rel_option (rel_prod (=) (rel_prod (tri_hist_rel c) (tri_rel c))) (dp_lookup TriTournamentDir s t a) (dp_lookup TournamentDir s' t a)"
    using tri_never_local2 [OF ok off, of t a] tri_hist_ok_lookup [OF ok, of t a] fr [OF tri_spec_ok [OF ok], of t a]
    by (simp add: tt_lookup_eq [OF ok i] t_lookup_eq [OF ok' i'] s' tri_tour_lookup [OF ok off] tri_hist_rel_def c tt_spec_def)
  show "rel_option (rel_prod (tri_hist_rel c) (tri_rel c)) (dp_uncondBranch TriTournamentDir s t a) (dp_uncondBranch TournamentDir s' t a)"
    using off c by (simp add: tt_uncond_eq [OF ok i] t_uncond_eq [OF ok' i'] s' tri_hist_rel_def tri_rel_def tri_ok_frame [OF ok]
      tt_uncond_hist_def tri_hist_ok_def) (simp add: tri_tour_simps)
  assume H: "tri_hist_rel c h h'"
  then obtain x where h: "h = Some x" "h' = Some (tri_tour_hist x)" "tri_hist_ok (tt_cfg s) (Some x)" "\<not> tth_local2Used x"
    by (auto simp: tri_hist_rel_def c)
  have hok: "tour_hist_ok (t_cfg (tri_tour s)) (Some (tri_tour_hist x))"
    using tri_tour_hist_ok [OF h(3)] by (simp add: tri_tour_def)
  show "rel_option (tri_rel c) (dp_btbUpdate TriTournamentDir s t a h) (dp_btbUpdate TournamentDir s' t a h')"
    using off c by (simp add: tt_btbUpdate_eq [OF ok i] t_btbUpdate_eq [OF ok' i'] s' tri_rel_def tri_ok_frame [OF ok] tri_tour_idx)
      (simp add: tri_tour_simps)
  show "rel_option (tri_rel c) (dp_squash TriTournamentDir s t h) (dp_squash TournamentDir s' t h')"
    using off c by (simp add: h(1,2) tt_squash_eq [OF ok i h(3)] t_squash_eq [OF ok' i' hok] s' tri_rel_def tri_ok_frame [OF ok])
      (simp add: tri_tour_simps)
  show "dp_getGHR TriTournamentDir s t h = dp_getGHR TournamentDir s' t h'"
    by (simp add: h(1,2) tt_getGHR_def t_getGHR_def tri_tour_simps)
  show "rel_option (tri_rel c) (dp_update TriTournamentDir s t a b h q) (dp_update TournamentDir s' t a b h' q)"
  proof (cases q)
    case True
    then show ?thesis using off c
      by (simp add: h(1,2) tt_update_squashed_eq [OF ok i] t_update_squashed_eq [OF ok' i'] s' tri_rel_def tri_ok_frame [OF ok]
          tri_tour_idx tri_tour_stats [OF h(4)]) (simp add: tri_tour_simps)
  next
    case False
    from tri_commit_ok [OF ok tt_update_commit_eq [OF ok, of t a b x]] have "tri_rel c (the (tt_update s t a b (Some x) False))
        (tri_tour (the (tt_update s t a b (Some x) False)))"
      by (intro fr) (simp_all add: tt_update_commit_eq [OF ok])
    moreover have "t_update (tri_tour s) t a b (Some (tri_tour_hist x)) False =
        Some (tri_tour (the (tt_update s t a b (Some x) False)))"
      by (simp add: tt_update_commit_eq [OF ok] t_update_commit_eq [OF ok'] tri_tour_stats [OF h(4)] t_choice_step_def tt_choice_step_def Let_def)
        (simp add: tri_tour_simps)
    ultimately show ?thesis by (simp add: False h(1,2) s' tt_update_commit_eq [OF ok])
  qed
qed

lemma tri_tour_new:
  assumes "TriTournamentBP_new junk p = Inr s"
  shows "TournamentBP_new junk (tri_tour_params p) = Inr (tri_tour s)"
    and "threshold2_of_bits (ttp_choiceCtrBits p) = Some (tt_choiceThreshold2 (tt_cfg s))"
    and "tt_choiceCtrBits (tt_cfg s) = ttp_choiceCtrBits p" and "tt_choiceCtrBits2 (tt_cfg s) = ttp_choiceCtrBits2 p"
  using assms by (auto simp: TriTournamentBP_new_def ebind_eq_Inr Let_def)
    (simp_all add: TournamentBP_new_def tri_tour_params_def tri_tour_simps no_fault_def error_if_def Let_def)

text \<open>A small instance, and a unit built on it.\<close>

definition sample_tri_params :: TriTournamentParams where
  "sample_tri_params = \<lparr>ttp_numThreads = 1, ttp_instShiftAmt = 2, ttp_localPredictorSize = 2, ttp_localCtrBits = 2,
     ttp_localHistoryTableSize = 2, ttp_localPredictorSize2 = 2, ttp_localCtrBits2 = 1, ttp_localHistoryTableSize2 = 2,
     ttp_globalPredictorSize = 4, ttp_globalCtrBits = 2, ttp_choicePredictorSize = 4, ttp_choiceCtrBits = 2,
     ttp_choicePredictorSize2 = 4, ttp_choiceCtrBits2 = 2\<rparr>"

definition sample_tri :: TriTournamentBP where
  "sample_tri = projr (TriTournamentBP_new 0 sample_tri_params)"

definition sample_tri_unit :: "(TriTournamentBP, TTBPHistory, Addr) BPredUnit" where
  "sample_tri_unit = projr (BPredUnit_new sample_isa 0 sample_bp sample_tri)"

lemma sample_tri_new: "TriTournamentBP_new 0 sample_tri_params = Inr sample_tri"
  by code_simp

lemma sample_tri_unit_new: "BPredUnit_new sample_isa 0 sample_bp sample_tri = Inr sample_tri_unit"
  by code_simp

subsection \<open>Properties\<close>



text \<open>
  \<^bold>\<open>C35.\<close> The tri-tournament predictor is the tournament predictor: the threshold
  \<open>(1 << 2*(choiceCtrBits - 1)) - 1\<close> of the second choice counters is at least their maximum from
  two bits on, so the second local predictor is never selected. A unit built on it gives, for any
  sequence of calls, the predictions of the unit built on \<open>TournamentBP\<close> with the same
  parameters, or faults where that one does. The conditions: \<open>2 \<le> choiceCtrBits \<le> 8\<close>,
  \<open>choiceCtrBits2 \<le> choiceCtrBits\<close>, a second choice table at least as large as the first, and a
  shift below 64.
\<close>

theorem tritournament_is_tournament:
  assumes "TriTournamentBP_new junk p = Inr s" and "unat (ttp_instShiftAmt p) < 64"
    and "ttp_choicePredictorSize p \<le> ttp_choicePredictorSize2 p"
    and "2 \<le> unat (ttp_choiceCtrBits p)" and "unat (ttp_choiceCtrBits p) \<le> 8"
    and "unat (ttp_choiceCtrBits2 p) \<le> unat (ttp_choiceCtrBits p)"
    and "BPredUnit_new isa junk' q s = Inr u"
  shows "\<exists>s' u'. TournamentBP_new junk (tri_tour_params p) = Inr s' \<and> BPredUnit_new isa junk' q s' = Inr u' \<and>
    (\<forall>cs. list_all (\<lambda>(t, c). tid_index t < unat (ttp_numThreads p)) cs \<longrightarrow>
      map_option fst (bp_run TriTournamentDir isa u cs) = map_option fst (bp_run TournamentDir isa u' cs))"
proof -
  note new = TriTournamentBP_new_ok [OF assms(1-3)] and tour = tri_tour_new [OF assms(1)]
  obtain u' :: "(TournamentBP, TBPHistory, 'a) BPredUnit" where u': "BPredUnit_new isa junk' q (tri_tour s) = Inr u'"
    using assms(7) by (auto simp: BPredUnit_new_def ebind_eq_Inr)
  have "tri_rel (tt_cfg s) s (tri_tour s)"
    using new(1) tour assms(4-6) by (simp add: tri_rel_def tri_third_off_def)
  from tri_sim.same_predictions [OF this assms(7) u'] show ?thesis using tour(1) u' new(2) by auto
qed

theorem tritournament_is_tournament_witness:
  "\<exists>s' u'. TournamentBP_new 0 (tri_tour_params sample_tri_params) = Inr s' \<and> BPredUnit_new sample_isa 0 sample_bp s' = Inr u' \<and>
    map_option fst (bp_run TriTournamentDir sample_isa sample_tri_unit
      [(0, Predict cond_branch 1 0x40), (0, Mispredict 1 0x60 True 0), (0, Commit 1), (0, Predict cond_branch 2 0x40)]) =
    map_option fst (bp_run TournamentDir sample_isa u'
      [(0, Predict cond_branch 1 0x40), (0, Mispredict 1 0x60 True 0), (0, Commit 1), (0, Predict cond_branch 2 0x40)])"
proof -
  have h: "unat (ttp_instShiftAmt sample_tri_params) < 64"
    "ttp_choicePredictorSize sample_tri_params \<le> ttp_choicePredictorSize2 sample_tri_params"
    "2 \<le> unat (ttp_choiceCtrBits sample_tri_params)" "unat (ttp_choiceCtrBits sample_tri_params) \<le> 8"
    "unat (ttp_choiceCtrBits2 sample_tri_params) \<le> unat (ttp_choiceCtrBits sample_tri_params)" by code_simp+
  have "tid_index 0 < unat (ttp_numThreads sample_tri_params)" by code_simp
  then show ?thesis using tritournament_is_tournament [OF sample_tri_new h sample_tri_unit_new]
    by (auto simp del: bp_run.simps)
qed

text \<open>
  The constructor accepts a second choice table smaller than the first, since it does not check
  \<open>choicePredictorSize2\<close> against the index \<open>globalHistory & choiceHistoryMask\<close> of \<open>update\<close>: with such
  parameters a legal run of the unit ends in an access out of range.
\<close>

definition small_choice2_params :: TriTournamentParams where
  "small_choice2_params = sample_tri_params\<lparr>ttp_choicePredictorSize2 := 1\<rparr>"

theorem tritournament_small_choice2_faults:
  "let s = projr (TriTournamentBP_new 0 small_choice2_params); u = projr (BPredUnit_new sample_isa 0 sample_bp s);
       cs = [(0, Predict cond_branch 1 0x40), (0, Mispredict 1 0x60 True 0), (0, Commit 1),
             (0, Predict cond_branch 2 0x40), (0, Mispredict 2 0x60 True 0), (0, Commit 2), (0, Predict cond_branch 3 0x40)]
   in TriTournamentBP_new 0 small_choice2_params = Inr s \<and> BPredUnit_new sample_isa 0 sample_bp s = Inr u \<and>
      map_option fst (bp_run TriTournamentDir sample_isa u cs) = Some [(False, 0x44), (False, 0x44), (False, 0x44)] \<and>
      bp_run TriTournamentDir sample_isa u (cs @ [(0, Commit 3)]) = None"
  by code_simp

end
