(* ===== verification/GTri_Tournament.thy ===== *)
theory GTri_Tournament
  imports Tournament Pred_Simulation
begin

text \<open>
  \<open>cpu/pred/gtritournament.hh\<close> and \<open>gtritournament.cc\<close>: the tournament predictor with a gshare
  predictor, its own global history and a second choice predictor that can select it. The last
  part interprets the contracts of the base class and the simulation with the tournament
  predictor.
\<close>

record GTriTournamentCfg =
  gt_numThreads :: unsigned
  gt_instShiftAmt :: unsigned
  gt_localPredictorSize :: unsigned
  gt_localPredictorMask :: unsigned
  gt_localCtrBits :: unsigned
  gt_localHistoryTableSize :: unsigned
  gt_localHistoryBits :: unsigned
  gt_globalPredictorSize :: unsigned
  gt_globalPredictorSize2 :: unsigned
  gt_globalCtrBits :: unsigned
  gt_globalCtrBits2 :: unsigned
  gt_globalHistoryBits :: unsigned
  gt_globalHistoryBits2 :: unsigned
  gt_globalHistoryMask :: unsigned
  gt_globalHistoryMask2 :: unsigned
  gt_choiceHistoryMask :: unsigned
  gt_choiceHistoryMask2 :: unsigned
  gt_historyRegisterMask :: unsigned
  gt_historyRegisterMask2 :: unsigned
  gt_choicePredictorSize :: unsigned
  gt_choicePredictorSize2 :: unsigned
  gt_choiceCtrBits :: unsigned
  gt_choiceCtrBits2 :: unsigned
  gt_localThreshold :: unsigned
  gt_globalThreshold :: unsigned
  gt_globalThreshold2 :: unsigned
  gt_choiceThreshold :: unsigned
  gt_choiceThreshold2 :: unsigned

record GTriTournamentBP =
  gt_cfg :: GTriTournamentCfg
  gt_localCtrs :: "SatCounter list"
  gt_localHistoryTable :: "unsigned list"
  gt_globalCtrs :: "SatCounter list"
  gt_globalCtrs2 :: "SatCounter list"
  gt_globalHistory :: "unsigned list"
  gt_globalHistory2 :: "unsigned list"
  gt_choiceCtrs :: "SatCounter list"
  gt_choiceCtrs2 :: "SatCounter list"
  gt_stats :: ExpertStats

record GTBPHistory =
  gth_globalHistory :: unsigned
  gth_globalHistory2 :: unsigned
  gth_localHistoryIdx :: unsigned
  gth_localHistory :: unsigned
  gth_localPredTaken :: bool
  gth_globalPredTaken :: bool
  gth_globalUsed :: bool
  gth_globalPredTaken2 :: bool
  gth_globalUsed2 :: bool

record GTriTournamentParams =
  gtp_numThreads :: unsigned
  gtp_instShiftAmt :: unsigned
  gtp_localPredictorSize :: unsigned
  gtp_localCtrBits :: unsigned
  gtp_localHistoryTableSize :: unsigned
  gtp_globalPredictorSize :: unsigned
  gtp_globalPredictorSize2 :: unsigned
  gtp_globalCtrBits :: unsigned
  gtp_globalCtrBits2 :: unsigned
  gtp_choicePredictorSize :: unsigned
  gtp_choicePredictorSize2 :: unsigned
  gtp_choiceCtrBits :: unsigned
  gtp_choiceCtrBits2 :: unsigned

text \<open>
  The two nested conditional expressions that initialise \<open>globalHistoryBits\<close> and
  \<open>globalHistoryBits2\<close>, over the logarithms of the sizes.
\<close>

definition gt_history_bits :: "nat \<Rightarrow> nat \<Rightarrow> nat \<Rightarrow> nat" where
  "gt_history_bits log2_global log2_choice log2_choice2 =
     (if log2_global > log2_choice
      then (if log2_global > log2_choice2 then log2_global else log2_choice2)
      else (if log2_global > log2_choice2 then log2_global else log2_choice))"

text \<open>The constructor; \<open>junk\<close> is the uninitialised \<open>maxVal\<close> of the counters before \<open>setBits\<close>.\<close>

definition GTriTournamentBP_new :: "uint8 \<Rightarrow> GTriTournamentParams \<Rightarrow> bp_error + GTriTournamentBP" where
  "GTriTournamentBP_new junk p =
     ebind (no_fault (ceilLog2 (gtp_localPredictorSize p))) (\<lambda>local_bits.
     ebind (no_fault (ceilLog2 (gtp_globalPredictorSize p))) (\<lambda>log2_global.
     ebind (no_fault (ceilLog2 (gtp_choicePredictorSize p))) (\<lambda>log2_choice.
     ebind (no_fault (ceilLog2 (gtp_choicePredictorSize2 p))) (\<lambda>log2_choice2.
     ebind (no_fault (ceilLog2 (gtp_globalPredictorSize2 p))) (\<lambda>log2_global2.
     let global_bits = gt_history_bits log2_global log2_choice log2_choice2;
         global_bits2 = gt_history_bits log2_global2 log2_choice log2_choice2 in
     ebind (error_if (\<not> isPowerOf2 (gtp_localPredictorSize p)) (Fatal ''Invalid local predictor size!'')) (\<lambda>_.
     ebind (error_if (\<not> isPowerOf2 (gtp_globalPredictorSize p) \<or> \<not> isPowerOf2 (gtp_globalPredictorSize p))
       (Fatal ''Invalid global predictor size!'')) (\<lambda>_.
     ebind (no_fault (fresh_counters junk (gtp_localPredictorSize p) (gtp_localCtrBits p))) (\<lambda>local_ctrs.
     ebind (error_if (\<not> isPowerOf2 (gtp_localHistoryTableSize p)) (Fatal ''Invalid local history table size!'')) (\<lambda>_.
     ebind (no_fault (fresh_counters junk (gtp_globalPredictorSize p) (gtp_globalCtrBits p))) (\<lambda>global_ctrs.
     ebind (no_fault (fresh_counters junk (gtp_globalPredictorSize2 p) (gtp_globalCtrBits2 p))) (\<lambda>global_ctrs2.
     let global_mask = gtp_globalPredictorSize p - 1;
         global_mask2 = gtp_globalPredictorSize2 p - 1 in
     ebind (error_if (\<not> isPowerOf2 (gtp_choicePredictorSize p) \<or> \<not> isPowerOf2 (gtp_choicePredictorSize p))
       (Fatal ''Invalid choice predictor size!'')) (\<lambda>_.
     let choice_mask = gtp_choicePredictorSize p - 1;
         choice_mask2 = gtp_choicePredictorSize2 p - 1 in
     ebind (no_fault (fresh_counters junk (gtp_choicePredictorSize p) (gtp_choiceCtrBits p))) (\<lambda>choice_ctrs.
     ebind (no_fault (fresh_counters junk (gtp_choicePredictorSize2 p) (gtp_choiceCtrBits2 p))) (\<lambda>choice_ctrs2.
     let register_mask = ucast (mask64 global_bits);
         register_mask2 = ucast (mask64 global_bits2) in
     ebind (error_if (global_mask > register_mask)
       (Fatal ''Global predictor too large for global history bits!'')) (\<lambda>_.
     ebind (error_if (global_mask2 > register_mask2)
       (Fatal ''Global predictor too large for global history bits!'')) (\<lambda>_.
     ebind (error_if (choice_mask > register_mask)
       (Fatal ''Choice predictor too large for global history bits!'')) (\<lambda>_.
     ebind (error_if (choice_mask2 > register_mask)
       (Fatal ''Choice predictor too large for global history bits!'')) (\<lambda>_.
     ebind (error_if (choice_mask > register_mask2)
       (Fatal ''Choice predictor too large for global history bits!'')) (\<lambda>_.
     ebind (error_if (choice_mask2 > register_mask2)
       (Fatal ''Choice predictor too large for global history bits!'')) (\<lambda>_.
     ebind (no_fault (threshold_of_bits (gtp_localCtrBits p))) (\<lambda>local_threshold.
     ebind (no_fault (threshold_of_bits (gtp_globalCtrBits p))) (\<lambda>global_threshold.
     ebind (no_fault (threshold_of_bits (gtp_globalCtrBits2 p))) (\<lambda>global_threshold2.
     ebind (no_fault (threshold_of_bits (gtp_choiceCtrBits p))) (\<lambda>choice_threshold.
     ebind (no_fault (threshold2_of_bits (gtp_choiceCtrBits2 p))) (\<lambda>choice_threshold2.
       Inr \<lparr>gt_cfg =
              \<lparr>gt_numThreads = gtp_numThreads p, gt_instShiftAmt = gtp_instShiftAmt p,
               gt_localPredictorSize = gtp_localPredictorSize p,
               gt_localPredictorMask = ucast (mask64 local_bits),
               gt_localCtrBits = gtp_localCtrBits p,
               gt_localHistoryTableSize = gtp_localHistoryTableSize p,
               gt_localHistoryBits = of_nat local_bits,
               gt_globalPredictorSize = gtp_globalPredictorSize p,
               gt_globalPredictorSize2 = gtp_globalPredictorSize2 p,
               gt_globalCtrBits = gtp_globalCtrBits p,
               gt_globalCtrBits2 = gtp_globalCtrBits2 p,
               gt_globalHistoryBits = of_nat global_bits,
               gt_globalHistoryBits2 = of_nat global_bits2,
               gt_globalHistoryMask = global_mask,
               gt_globalHistoryMask2 = global_mask2,
               gt_choiceHistoryMask = choice_mask,
               gt_choiceHistoryMask2 = choice_mask2,
               gt_historyRegisterMask = register_mask,
               gt_historyRegisterMask2 = register_mask2,
               gt_choicePredictorSize = gtp_choicePredictorSize p,
               gt_choicePredictorSize2 = gtp_choicePredictorSize2 p,
               gt_choiceCtrBits = gtp_choiceCtrBits p,
               gt_choiceCtrBits2 = gtp_choiceCtrBits2 p,
               gt_localThreshold = local_threshold,
               gt_globalThreshold = global_threshold,
               gt_globalThreshold2 = global_threshold2,
               gt_choiceThreshold = choice_threshold,
               gt_choiceThreshold2 = choice_threshold2\<rparr>,
            gt_localCtrs = local_ctrs,
            gt_localHistoryTable = replicate (unat (gtp_localHistoryTableSize p)) 0,
            gt_globalCtrs = global_ctrs,
            gt_globalCtrs2 = global_ctrs2,
            gt_globalHistory = replicate (unat (gtp_numThreads p)) 0,
            gt_globalHistory2 = replicate (unat (gtp_numThreads p)) 0,
            gt_choiceCtrs = choice_ctrs,
            gt_choiceCtrs2 = choice_ctrs2,
            gt_stats = zero_stats\<rparr>)))))))))))))))))))))))))"

definition gt_calcLocHistIdx :: "GTriTournamentCfg \<Rightarrow> Addr \<Rightarrow> unsigned option" where
  "gt_calcLocHistIdx c branch_addr = loc_hist_idx (gt_instShiftAmt c) (gt_localHistoryTableSize c) branch_addr"

definition gt_updateGlobalHistTaken :: "GTriTournamentBP \<Rightarrow> ThreadID \<Rightarrow> GTriTournamentBP option" where
  "gt_updateGlobalHistTaken s tid = do {
     gh \<leftarrow> vec_mod (\<lambda>h. (push_bit 1 h OR 1) AND gt_historyRegisterMask (gt_cfg s)) (gt_globalHistory s) (tid_index tid);
     Some (s\<lparr>gt_globalHistory := gh\<rparr>) }"

definition gt_updateGlobalHistNotTaken :: "GTriTournamentBP \<Rightarrow> ThreadID \<Rightarrow> GTriTournamentBP option" where
  "gt_updateGlobalHistNotTaken s tid = do {
     gh \<leftarrow> vec_mod (\<lambda>h. push_bit 1 h AND gt_historyRegisterMask (gt_cfg s)) (gt_globalHistory s) (tid_index tid);
     Some (s\<lparr>gt_globalHistory := gh\<rparr>) }"

definition gt_updateGlobalHist2Taken :: "GTriTournamentBP \<Rightarrow> ThreadID \<Rightarrow> GTriTournamentBP option" where
  "gt_updateGlobalHist2Taken s tid = do {
     gh \<leftarrow> vec_mod (\<lambda>h. (push_bit 1 h OR 1) AND gt_historyRegisterMask2 (gt_cfg s)) (gt_globalHistory2 s) (tid_index tid);
     Some (s\<lparr>gt_globalHistory2 := gh\<rparr>) }"

definition gt_updateGlobalHist2NotTaken :: "GTriTournamentBP \<Rightarrow> ThreadID \<Rightarrow> GTriTournamentBP option" where
  "gt_updateGlobalHist2NotTaken s tid = do {
     gh \<leftarrow> vec_mod (\<lambda>h. push_bit 1 h AND gt_historyRegisterMask2 (gt_cfg s)) (gt_globalHistory2 s) (tid_index tid);
     Some (s\<lparr>gt_globalHistory2 := gh\<rparr>) }"

definition gt_updateLocalHistTaken :: "GTriTournamentBP \<Rightarrow> unsigned \<Rightarrow> GTriTournamentBP option" where
  "gt_updateLocalHistTaken s local_history_idx = do {
     lh \<leftarrow> vec_mod (\<lambda>h. push_bit 1 h OR 1) (gt_localHistoryTable s) (unat local_history_idx);
     Some (s\<lparr>gt_localHistoryTable := lh\<rparr>) }"

definition gt_updateLocalHistNotTaken :: "GTriTournamentBP \<Rightarrow> unsigned \<Rightarrow> GTriTournamentBP option" where
  "gt_updateLocalHistNotTaken s local_history_idx = do {
     lh \<leftarrow> vec_mod (\<lambda>h. push_bit 1 h) (gt_localHistoryTable s) (unat local_history_idx);
     Some (s\<lparr>gt_localHistoryTable := lh\<rparr>) }"

definition gt_btbUpdate :: "GTriTournamentBP \<Rightarrow> ThreadID \<Rightarrow> Addr \<Rightarrow> GTBPHistory option \<Rightarrow> GTriTournamentBP option" where
  "gt_btbUpdate s tid branch_addr bp_history = do {
     local_history_idx \<leftarrow> gt_calcLocHistIdx (gt_cfg s) branch_addr;
     gh \<leftarrow> vec_mod (clear_lsb (gt_historyRegisterMask (gt_cfg s))) (gt_globalHistory s) (tid_index tid);
     gh2 \<leftarrow> vec_mod (clear_lsb (gt_historyRegisterMask2 (gt_cfg s))) (gt_globalHistory2 s) (tid_index tid);
     lh \<leftarrow> vec_mod (clear_lsb (gt_localPredictorMask (gt_cfg s))) (gt_localHistoryTable s) (unat local_history_idx);
     Some (s\<lparr>gt_globalHistory := gh, gt_globalHistory2 := gh2, gt_localHistoryTable := lh\<rparr>) }"

definition gt_lookup :: "GTriTournamentBP \<Rightarrow> ThreadID \<Rightarrow> Addr \<Rightarrow> (bool \<times> GTBPHistory option \<times> GTriTournamentBP) option" where
  "gt_lookup s tid branch_addr = do {
     let c = gt_cfg s;
     local_history_idx \<leftarrow> gt_calcLocHistIdx c branch_addr;
     lh \<leftarrow> vec_at (gt_localHistoryTable s) (unat local_history_idx);
     let local_predictor_idx = lh AND gt_localPredictorMask c;
     lc \<leftarrow> vec_at (gt_localCtrs s) (unat local_predictor_idx);
     let local_prediction = above (gt_localThreshold c) lc;
     gh \<leftarrow> vec_at (gt_globalHistory s) (tid_index tid);
     gc \<leftarrow> vec_at (gt_globalCtrs s) (unat (gh AND gt_globalHistoryMask c));
     let global_prediction = above (gt_globalThreshold c) gc;
     gh2 \<leftarrow> vec_at (gt_globalHistory2 s) (tid_index tid);
     gshare_idx \<leftarrow> hash_idx (gt_instShiftAmt c) (gt_globalHistoryMask2 c) branch_addr gh2;
     gc2 \<leftarrow> vec_at (gt_globalCtrs2 s) (unat gshare_idx);
     let global_prediction2 = above (gt_globalThreshold2 c) gc2;
     cc \<leftarrow> vec_at (gt_choiceCtrs s) (unat (gh AND gt_choiceHistoryMask c));
     let choice_prediction = above (gt_choiceThreshold c) cc;
     cc2 \<leftarrow> vec_at (gt_choiceCtrs2 s) (unat (gh AND gt_choiceHistoryMask2 c));
     let choice_prediction2 = above (gt_choiceThreshold2 c) cc2;
     let history = \<lparr>gth_globalHistory = gh, gth_globalHistory2 = gh2, gth_localHistoryIdx = local_history_idx,
       gth_localHistory = local_predictor_idx, gth_localPredTaken = local_prediction, gth_globalPredTaken = global_prediction,
       gth_globalUsed = choice_prediction, gth_globalPredTaken2 = global_prediction2, gth_globalUsed2 = choice_prediction2\<rparr>;
     assert_that (local_history_idx < gt_localHistoryTableSize c);
     if \<not> choice_prediction2 then
       if choice_prediction then
         if global_prediction then do {
           s \<leftarrow> gt_updateGlobalHistTaken s tid;
           s \<leftarrow> gt_updateGlobalHist2Taken s tid;
           s \<leftarrow> gt_updateLocalHistTaken s local_history_idx;
           Some (True, Some history, s) }
         else do {
           s \<leftarrow> gt_updateGlobalHistNotTaken s tid;
           s \<leftarrow> gt_updateGlobalHist2NotTaken s tid;
           s \<leftarrow> gt_updateLocalHistNotTaken s local_history_idx;
           Some (False, Some history, s) }
       else
         if local_prediction then do {
           s \<leftarrow> gt_updateGlobalHistTaken s tid;
           s \<leftarrow> gt_updateGlobalHist2Taken s tid;
           s \<leftarrow> gt_updateLocalHistTaken s local_history_idx;
           Some (True, Some history, s) }
         else do {
           s \<leftarrow> gt_updateGlobalHistNotTaken s tid;
           s \<leftarrow> gt_updateGlobalHist2NotTaken s tid;
           s \<leftarrow> gt_updateLocalHistNotTaken s local_history_idx;
           Some (False, Some history, s) }
     else
       if global_prediction2 then do {
         s \<leftarrow> gt_updateGlobalHistTaken s tid;
         s \<leftarrow> gt_updateGlobalHist2Taken s tid;
         s \<leftarrow> gt_updateLocalHistTaken s local_history_idx;
         Some (True, Some history, s) }
       else do {
         s \<leftarrow> gt_updateGlobalHistNotTaken s tid;
         s \<leftarrow> gt_updateGlobalHist2NotTaken s tid;
         s \<leftarrow> gt_updateLocalHistNotTaken s local_history_idx;
         Some (False, Some history, s) } }"

definition gt_uncondBranch :: "GTriTournamentBP \<Rightarrow> ThreadID \<Rightarrow> Addr \<Rightarrow> (GTBPHistory option \<times> GTriTournamentBP) option" where
  "gt_uncondBranch s tid pc = do {
     gh \<leftarrow> vec_at (gt_globalHistory s) (tid_index tid);
     gh2 \<leftarrow> vec_at (gt_globalHistory2 s) (tid_index tid);
     let history = \<lparr>gth_globalHistory = gh, gth_globalHistory2 = gh2, gth_localHistoryIdx = invalidPredictorIndex,
       gth_localHistory = invalidPredictorIndex, gth_localPredTaken = True, gth_globalPredTaken = True,
       gth_globalUsed = True, gth_globalPredTaken2 = True, gth_globalUsed2 = True\<rparr>;
     s \<leftarrow> gt_updateGlobalHistTaken s tid;
     s \<leftarrow> gt_updateGlobalHist2Taken s tid;
     Some (Some history, s) }"

definition gt_updateAdditionalStats :: "GTriTournamentBP \<Rightarrow> bool \<Rightarrow> GTBPHistory \<Rightarrow> GTriTournamentBP" where
  "gt_updateAdditionalStats s taken history =
     (let prediction = (if gth_globalUsed history then gth_globalPredTaken history else gth_localPredTaken history);
          prediction = (if gth_globalUsed2 history then gth_globalPredTaken2 history else prediction);
          mispredict = (taken \<noteq> prediction)
      in if mispredict \<and>
            (gth_localPredTaken history = taken \<or> gth_globalPredTaken history = taken \<or> gth_globalPredTaken2 history = taken)
         then s\<lparr>gt_stats := (gt_stats s)\<lparr>atLeastOneCorrectExpertOnMispredict :=
                atLeastOneCorrectExpertOnMispredict (gt_stats s) + 1\<rparr>\<rparr>
         else s)"

definition gt_update ::
    "GTriTournamentBP \<Rightarrow> ThreadID \<Rightarrow> Addr \<Rightarrow> bool \<Rightarrow> GTBPHistory option \<Rightarrow> bool \<Rightarrow> GTriTournamentBP option" where
  "gt_update s tid branch_addr taken bp_history squashed = do {
     history \<leftarrow> bp_history;
     let c = gt_cfg s;
     local_history_idx \<leftarrow> gt_calcLocHistIdx c branch_addr;
     assert_that (local_history_idx < gt_localHistoryTableSize c);
     let old_local_pred_valid = (gth_localHistory history \<noteq> invalidPredictorIndex);
     let s = gt_updateAdditionalStats s taken history;
     if squashed then do {
       gh \<leftarrow> vec_put (gt_globalHistory s) (tid_index tid)
              (shift_in (gth_globalHistory history) taken AND gt_historyRegisterMask c);
       gh2 \<leftarrow> vec_put (gt_globalHistory2 s) (tid_index tid)
               (shift_in (gth_globalHistory2 history) taken AND gt_historyRegisterMask2 c);
       lh \<leftarrow> (if old_local_pred_valid
              then vec_put (gt_localHistoryTable s) (unat local_history_idx) (shift_in (gth_localHistory history) taken)
              else Some (gt_localHistoryTable s));
       Some (s\<lparr>gt_globalHistory := gh, gt_globalHistory2 := gh2, gt_localHistoryTable := lh\<rparr>) }
     else do {
       let old_local_pred_index = gth_localHistory history AND gt_localPredictorMask c;
       assert_that (old_local_pred_index < gt_localPredictorSize c);
       cc \<leftarrow> (if gth_localPredTaken history \<noteq> gth_globalPredTaken history \<and> old_local_pred_valid then
                let choice_predictor_idx = gth_globalHistory history AND gt_choiceHistoryMask c in
                if gth_localPredTaken history = taken then vec_mod decrement (gt_choiceCtrs s) (unat choice_predictor_idx)
                else if gth_globalPredTaken history = taken then vec_mod increment (gt_choiceCtrs s) (unat choice_predictor_idx)
                else Some (gt_choiceCtrs s)
              else Some (gt_choiceCtrs s));
       cc2 \<leftarrow> (if gth_globalUsed history \<and> \<not> gth_globalPredTaken2 history \<or>
                 \<not> gth_globalUsed history \<and> gth_localPredTaken history \<noteq> gth_globalPredTaken2 history then
                let choice_predictor_idx2 = gth_globalHistory2 history AND gt_choiceHistoryMask2 c in
                if gth_globalPredTaken2 history = taken then vec_mod increment (gt_choiceCtrs2 s) (unat choice_predictor_idx2)
                else if gth_globalPredTaken history = taken \<or> gth_localPredTaken history = taken
                  then vec_mod decrement (gt_choiceCtrs2 s) (unat choice_predictor_idx2)
                else Some (gt_choiceCtrs2 s)
              else Some (gt_choiceCtrs2 s));
       let global_predictor_idx = gth_globalHistory history AND gt_globalHistoryMask c;
       let global_predictor_idx2 = gth_globalHistory2 history AND gt_globalHistoryMask2 c;
       gc \<leftarrow> vec_mod (train taken) (gt_globalCtrs s) (unat global_predictor_idx);
       gc2 \<leftarrow> vec_mod (train taken) (gt_globalCtrs2 s) (unat global_predictor_idx2);
       lc \<leftarrow> (if old_local_pred_valid then vec_mod (train taken) (gt_localCtrs s) (unat old_local_pred_index)
              else Some (gt_localCtrs s));
       Some (s\<lparr>gt_choiceCtrs := cc, gt_choiceCtrs2 := cc2, gt_globalCtrs := gc, gt_globalCtrs2 := gc2, gt_localCtrs := lc\<rparr>) } }"

definition gt_squash :: "GTriTournamentBP \<Rightarrow> ThreadID \<Rightarrow> GTBPHistory option \<Rightarrow> GTriTournamentBP option" where
  "gt_squash s tid bp_history = do {
     history \<leftarrow> bp_history;
     gh \<leftarrow> vec_put (gt_globalHistory s) (tid_index tid) (gth_globalHistory history);
     gh2 \<leftarrow> vec_put (gt_globalHistory2 s) (tid_index tid) (gth_globalHistory2 history);
     lh \<leftarrow> (if gth_localHistoryIdx history \<noteq> invalidPredictorIndex
            then vec_put (gt_localHistoryTable s) (unat (gth_localHistoryIdx history)) (gth_localHistory history)
            else Some (gt_localHistoryTable s));
     Some (s\<lparr>gt_globalHistory := gh, gt_globalHistory2 := gh2, gt_localHistoryTable := lh\<rparr>) }"

text \<open>The second \<open>return\<close> statement of \<open>getGHR\<close> is never reached.\<close>

definition gt_getGHR :: "GTriTournamentBP \<Rightarrow> ThreadID \<Rightarrow> GTBPHistory option \<Rightarrow> unsigned option" where
  "gt_getGHR s tid bp_history = map_option gth_globalHistory bp_history"

definition GTriTournamentDir :: "(GTriTournamentBP, GTBPHistory) DirPred" where
  "GTriTournamentDir = \<lparr>dp_lookup = gt_lookup, dp_uncondBranch = gt_uncondBranch, dp_btbUpdate = gt_btbUpdate,
     dp_update = gt_update, dp_squash = gt_squash, dp_getGHR = gt_getGHR\<rparr>"

subsection \<open>Invariant\<close>

definition gtri_cfg_ok :: "GTriTournamentCfg \<Rightarrow> bool" where
  "gtri_cfg_ok c \<longleftrightarrow> unat (gt_instShiftAmt c) < 64 \<and>
     gt_localPredictorSize c \<noteq> 0 \<and> gt_localPredictorMask c = gt_localPredictorSize c - 1 \<and>
     gt_localHistoryTableSize c \<noteq> 0 \<and>
     gt_globalPredictorSize c \<noteq> 0 \<and> gt_globalHistoryMask c = gt_globalPredictorSize c - 1 \<and>
     gt_globalPredictorSize2 c \<noteq> 0 \<and> gt_globalHistoryMask2 c = gt_globalPredictorSize2 c - 1 \<and>
     gt_choicePredictorSize c \<noteq> 0 \<and> gt_choiceHistoryMask c = gt_choicePredictorSize c - 1 \<and>
     gt_choicePredictorSize2 c \<noteq> 0 \<and> gt_choiceHistoryMask2 c = gt_choicePredictorSize2 c - 1"

definition gtri_ok :: "GTriTournamentBP \<Rightarrow> bool" where
  "gtri_ok s \<longleftrightarrow> gtri_cfg_ok (gt_cfg s) \<and>
     ctrs_ok (gt_localPredictorSize (gt_cfg s)) (gt_localCtrBits (gt_cfg s)) (gt_localCtrs s) \<and>
     ctrs_ok (gt_globalPredictorSize (gt_cfg s)) (gt_globalCtrBits (gt_cfg s)) (gt_globalCtrs s) \<and>
     ctrs_ok (gt_globalPredictorSize2 (gt_cfg s)) (gt_globalCtrBits2 (gt_cfg s)) (gt_globalCtrs2 s) \<and>
     ctrs_ok (gt_choicePredictorSize (gt_cfg s)) (gt_choiceCtrBits (gt_cfg s)) (gt_choiceCtrs s) \<and>
     ctrs_ok (gt_choicePredictorSize2 (gt_cfg s)) (gt_choiceCtrBits2 (gt_cfg s)) (gt_choiceCtrs2 s) \<and>
     length (gt_localHistoryTable s) = unat (gt_localHistoryTableSize (gt_cfg s)) \<and>
     length (gt_globalHistory s) = unat (gt_numThreads (gt_cfg s)) \<and>
     length (gt_globalHistory2 s) = unat (gt_numThreads (gt_cfg s))"

definition gtri_hist_ok :: "GTriTournamentCfg \<Rightarrow> GTBPHistory option \<Rightarrow> bool" where
  "gtri_hist_ok c ho \<longleftrightarrow> (case ho of None \<Rightarrow> False | Some h \<Rightarrow>
     gth_localHistoryIdx h = invalidPredictorIndex \<or> gth_localHistoryIdx h < gt_localHistoryTableSize c)"

definition gtri_threads :: "GTriTournamentCfg \<Rightarrow> nat" where
  "gtri_threads c = unat (gt_numThreads c)"

text \<open>The accesses of the operations are in range.\<close>

lemma gtri_range:
  assumes "gtri_ok s"
  shows "unat (gt_instShiftAmt (gt_cfg s)) < 64"
    and "unat (x AND gt_localPredictorMask (gt_cfg s)) < length (gt_localCtrs s)"
    and "x AND gt_localPredictorMask (gt_cfg s) < gt_localPredictorSize (gt_cfg s)"
    and "unat (x AND gt_globalHistoryMask (gt_cfg s)) < length (gt_globalCtrs s)"
    and "unat (x AND gt_globalHistoryMask2 (gt_cfg s)) < length (gt_globalCtrs2 s)"
    and "unat (hashi sh (gt_globalHistoryMask2 (gt_cfg s)) a g) < length (gt_globalCtrs2 s)"
    and "unat (x AND gt_choiceHistoryMask (gt_cfg s)) < length (gt_choiceCtrs s)"
    and "unat (x AND gt_choiceHistoryMask2 (gt_cfg s)) < length (gt_choiceCtrs2 s)"
    and "length (gt_globalHistory2 s) = length (gt_globalHistory s)"
  using assms
  by (auto simp: gtri_ok_def gtri_cfg_ok_def hashi_less unat_and_less ctrs_ok_def word_less_nat_alt)

text \<open>The history object and the prediction as functions of the state.\<close>

definition gt_idx :: "GTriTournamentBP \<Rightarrow> Addr \<Rightarrow> unsigned" where
  "gt_idx s a = lhi (gt_instShiftAmt (gt_cfg s)) (gt_localHistoryTableSize (gt_cfg s)) a"

definition gt_hist :: "GTriTournamentBP \<Rightarrow> ThreadID \<Rightarrow> Addr \<Rightarrow> GTBPHistory" where
  "gt_hist s t a = (let c = gt_cfg s; gh = gt_globalHistory s ! tid_index t; gh2 = gt_globalHistory2 s ! tid_index t;
       lp = (gt_localHistoryTable s ! unat (gt_idx s a)) AND gt_localPredictorMask c in
     \<lparr>gth_globalHistory = gh, gth_globalHistory2 = gh2, gth_localHistoryIdx = gt_idx s a, gth_localHistory = lp,
      gth_localPredTaken = above (gt_localThreshold c) (gt_localCtrs s ! unat lp),
      gth_globalPredTaken = above (gt_globalThreshold c) (gt_globalCtrs s ! unat (gh AND gt_globalHistoryMask c)),
      gth_globalUsed = above (gt_choiceThreshold c) (gt_choiceCtrs s ! unat (gh AND gt_choiceHistoryMask c)),
      gth_globalPredTaken2 = above (gt_globalThreshold2 c)
        (gt_globalCtrs2 s ! unat (hashi (gt_instShiftAmt c) (gt_globalHistoryMask2 c) a gh2)),
      gth_globalUsed2 = above (gt_choiceThreshold2 c) (gt_choiceCtrs2 s ! unat (gh AND gt_choiceHistoryMask2 c))\<rparr>)"

definition gt_verdict :: "GTBPHistory \<Rightarrow> bool" where
  "gt_verdict h = (if gth_globalUsed2 h then gth_globalPredTaken2 h
     else if gth_globalUsed h then gth_globalPredTaken h else gth_localPredTaken h)"

definition gt_spec :: "GTriTournamentBP \<Rightarrow> ThreadID \<Rightarrow> Addr \<Rightarrow> bool \<Rightarrow> GTriTournamentBP" where
  "gt_spec s t a b = s\<lparr>
     gt_globalHistory := (gt_globalHistory s)[tid_index t :=
       shift_in (gt_globalHistory s ! tid_index t) b AND gt_historyRegisterMask (gt_cfg s)],
     gt_globalHistory2 := (gt_globalHistory2 s)[tid_index t :=
       shift_in (gt_globalHistory2 s ! tid_index t) b AND gt_historyRegisterMask2 (gt_cfg s)],
     gt_localHistoryTable := (gt_localHistoryTable s)[unat (gt_idx s a) :=
       shift_in (gt_localHistoryTable s ! unat (gt_idx s a)) b]\<rparr>"

lemma gt_idx_less:
  assumes "gtri_ok s"
  shows "unat (gt_idx s a) < length (gt_localHistoryTable s)" and "gt_idx s a < gt_localHistoryTableSize (gt_cfg s)"
  using assms by (auto simp: gt_idx_def gtri_ok_def gtri_cfg_ok_def lhi_less)

lemma gt_calc_eq:
  assumes "gtri_ok s"
  shows "gt_calcLocHistIdx (gt_cfg s) a = Some (gt_idx s a)"
    and "hash_idx (gt_instShiftAmt (gt_cfg s)) m a g = Some (hashi (gt_instShiftAmt (gt_cfg s)) m a g)"
  using gtri_range(1) [OF assms] by (simp_all add: gt_calcLocHistIdx_def gt_idx_def loc_hist_idx_eq hash_idx_eq)

lemmas gtri_hist_updates = gt_updateGlobalHistTaken_def gt_updateGlobalHistNotTaken_def gt_updateGlobalHist2Taken_def
  gt_updateGlobalHist2NotTaken_def gt_updateLocalHistTaken_def gt_updateLocalHistNotTaken_def

lemma gt_speculate:
  assumes "gtri_ok s" and "tid_index t < length (gt_globalHistory s)"
  shows "do { x \<leftarrow> gt_updateGlobalHistTaken s t; y \<leftarrow> gt_updateGlobalHist2Taken x t;
      z \<leftarrow> gt_updateLocalHistTaken y (gt_idx s a); Some (True, h, z) } = Some (True, h, gt_spec s t a True)"
    and "do { x \<leftarrow> gt_updateGlobalHistNotTaken s t; y \<leftarrow> gt_updateGlobalHist2NotTaken x t;
      z \<leftarrow> gt_updateLocalHistNotTaken y (gt_idx s a); Some (False, h, z) } = Some (False, h, gt_spec s t a False)"
  using assms(2) gt_idx_less [OF assms(1), of a] gtri_range(9) [OF assms(1)]
  by (simp_all add: gtri_hist_updates vec_mod_Some gt_spec_def gt_idx_def)

lemma gt_lookup_eq:
  assumes "gtri_ok s" and "tid_index t < length (gt_globalHistory s)"
  shows "gt_lookup s t a =
    Some (gt_verdict (gt_hist s t a), Some (gt_hist s t a), gt_spec s t a (gt_verdict (gt_hist s t a)))"
proof -
  note r = assms(2) gtri_range [OF assms(1)] gt_idx_less [OF assms(1), of a]
  show ?thesis
    unfolding gt_lookup_def
    by (simp only: Let_def gt_calc_eq [OF assms(1)] Option.bind.simps vec_at_Some r assert_that_True)
      (simp add: gt_speculate [OF assms] gt_hist_def gt_verdict_def Let_def)
qed

definition gt_uncond_hist :: "GTriTournamentBP \<Rightarrow> ThreadID \<Rightarrow> GTBPHistory" where
  "gt_uncond_hist s t = \<lparr>gth_globalHistory = gt_globalHistory s ! tid_index t, gth_globalHistory2 = gt_globalHistory2 s ! tid_index t,
     gth_localHistoryIdx = invalidPredictorIndex, gth_localHistory = invalidPredictorIndex, gth_localPredTaken = True,
     gth_globalPredTaken = True, gth_globalUsed = True, gth_globalPredTaken2 = True, gth_globalUsed2 = True\<rparr>"

lemma gt_uncond_eq:
  assumes "gtri_ok s" and "tid_index t < length (gt_globalHistory s)"
  shows "gt_uncondBranch s t a = Some (Some (gt_uncond_hist s t),
    s\<lparr>gt_globalHistory := (gt_globalHistory s)[tid_index t :=
        shift_in (gt_globalHistory s ! tid_index t) True AND gt_historyRegisterMask (gt_cfg s)],
      gt_globalHistory2 := (gt_globalHistory2 s)[tid_index t :=
        shift_in (gt_globalHistory2 s ! tid_index t) True AND gt_historyRegisterMask2 (gt_cfg s)]\<rparr>)"
  using assms gtri_range(9) [OF assms(1)]
  by (simp add: gt_uncondBranch_def gt_uncond_hist_def gtri_hist_updates fault_simps)

lemma gt_btbUpdate_eq:
  assumes "gtri_ok s" and "tid_index t < length (gt_globalHistory s)"
  shows "gt_btbUpdate s t a h = Some (s\<lparr>
    gt_globalHistory := (gt_globalHistory s)[tid_index t :=
      clear_lsb (gt_historyRegisterMask (gt_cfg s)) (gt_globalHistory s ! tid_index t)],
    gt_globalHistory2 := (gt_globalHistory2 s)[tid_index t :=
      clear_lsb (gt_historyRegisterMask2 (gt_cfg s)) (gt_globalHistory2 s ! tid_index t)],
    gt_localHistoryTable := (gt_localHistoryTable s)[unat (gt_idx s a) :=
      clear_lsb (gt_localPredictorMask (gt_cfg s)) (gt_localHistoryTable s ! unat (gt_idx s a))]\<rparr>)"
  using assms(2) gt_idx_less [OF assms(1), of a] gtri_range(9) [OF assms(1)]
  by (simp add: gt_btbUpdate_def gt_calc_eq [OF assms(1)] fault_simps)

lemma gt_squash_eq:
  assumes "gtri_ok s" and "tid_index t < length (gt_globalHistory s)" and "gtri_hist_ok (gt_cfg s) (Some h)"
  shows "gt_squash s t (Some h) = Some (s\<lparr>
    gt_globalHistory := (gt_globalHistory s)[tid_index t := gth_globalHistory h],
    gt_globalHistory2 := (gt_globalHistory2 s)[tid_index t := gth_globalHistory2 h],
    gt_localHistoryTable := (if gth_localHistoryIdx h = invalidPredictorIndex then gt_localHistoryTable s
      else (gt_localHistoryTable s)[unat (gth_localHistoryIdx h) := gth_localHistory h])\<rparr>)"
  using assms by (auto simp: gt_squash_def gtri_hist_ok_def gtri_ok_def fault_simps word_less_nat_alt)

lemma gt_stats_frame [simp]:
  "gt_cfg (gt_updateAdditionalStats s b h) = gt_cfg s"
  "gt_localCtrs (gt_updateAdditionalStats s b h) = gt_localCtrs s"
  "gt_localHistoryTable (gt_updateAdditionalStats s b h) = gt_localHistoryTable s"
  "gt_globalCtrs (gt_updateAdditionalStats s b h) = gt_globalCtrs s"
  "gt_globalCtrs2 (gt_updateAdditionalStats s b h) = gt_globalCtrs2 s"
  "gt_globalHistory (gt_updateAdditionalStats s b h) = gt_globalHistory s"
  "gt_globalHistory2 (gt_updateAdditionalStats s b h) = gt_globalHistory2 s"
  "gt_choiceCtrs (gt_updateAdditionalStats s b h) = gt_choiceCtrs s"
  "gt_choiceCtrs2 (gt_updateAdditionalStats s b h) = gt_choiceCtrs2 s"
  by (simp_all add: gt_updateAdditionalStats_def Let_def)

lemma gt_update_squashed_eq:
  assumes "gtri_ok s" and "tid_index t < length (gt_globalHistory s)"
  shows "gt_update s t a taken (Some h) True = Some ((gt_updateAdditionalStats s taken h)\<lparr>
    gt_globalHistory := (gt_globalHistory s)[tid_index t := shift_in (gth_globalHistory h) taken AND gt_historyRegisterMask (gt_cfg s)],
    gt_globalHistory2 := (gt_globalHistory2 s)[tid_index t := shift_in (gth_globalHistory2 h) taken AND gt_historyRegisterMask2 (gt_cfg s)],
    gt_localHistoryTable := (if gth_localHistory h = invalidPredictorIndex then gt_localHistoryTable s
      else (gt_localHistoryTable s)[unat (gt_idx s a) := shift_in (gth_localHistory h) taken])\<rparr>)"
  using assms(2) gt_idx_less [OF assms(1), of a] gtri_range(9) [OF assms(1)]
  by (simp add: gt_update_def gt_calc_eq [OF assms(1)] fault_simps Let_def)

text \<open>The choice counters a commit trains, and how.\<close>

definition gt_choice_step :: "bool \<Rightarrow> GTBPHistory \<Rightarrow> SatCounter \<Rightarrow> SatCounter" where
  "gt_choice_step taken h =
     (if gth_localPredTaken h \<noteq> gth_globalPredTaken h \<and> gth_localHistory h \<noteq> invalidPredictorIndex
      then train (gth_globalPredTaken h = taken) else id)"

definition gt_choice_step2 :: "bool \<Rightarrow> GTBPHistory \<Rightarrow> SatCounter \<Rightarrow> SatCounter" where
  "gt_choice_step2 taken h =
     (if gth_globalUsed h \<and> \<not> gth_globalPredTaken2 h \<or> \<not> gth_globalUsed h \<and> gth_localPredTaken h \<noteq> gth_globalPredTaken2 h then
        if gth_globalPredTaken2 h = taken then increment
        else if gth_globalPredTaken h = taken \<or> gth_localPredTaken h = taken then decrement else id
      else id)"

lemma gt_update_commit_eq:
  assumes "gtri_ok s"
  shows "gt_update s t a taken (Some h) False = Some ((gt_updateAdditionalStats s taken h)\<lparr>
    gt_choiceCtrs := (let i = unat (gth_globalHistory h AND gt_choiceHistoryMask (gt_cfg s)) in
      (gt_choiceCtrs s)[i := gt_choice_step taken h (gt_choiceCtrs s ! i)]),
    gt_choiceCtrs2 := (let i = unat (gth_globalHistory2 h AND gt_choiceHistoryMask2 (gt_cfg s)) in
      (gt_choiceCtrs2 s)[i := gt_choice_step2 taken h (gt_choiceCtrs2 s ! i)]),
    gt_globalCtrs := (let i = unat (gth_globalHistory h AND gt_globalHistoryMask (gt_cfg s)) in
      (gt_globalCtrs s)[i := train taken (gt_globalCtrs s ! i)]),
    gt_globalCtrs2 := (let i = unat (gth_globalHistory2 h AND gt_globalHistoryMask2 (gt_cfg s)) in
      (gt_globalCtrs2 s)[i := train taken (gt_globalCtrs2 s ! i)]),
    gt_localCtrs := (let i = unat (gth_localHistory h AND gt_localPredictorMask (gt_cfg s)) in
      (if gth_localHistory h = invalidPredictorIndex then gt_localCtrs s
       else (gt_localCtrs s)[i := train taken (gt_localCtrs s ! i)]))\<rparr>)"
proof -
  note r = gtri_range [OF assms] gt_idx_less [OF assms, of a]
  let ?i = "unat (gth_globalHistory h AND gt_choiceHistoryMask (gt_cfg s))"
  let ?j = "unat (gth_globalHistory2 h AND gt_choiceHistoryMask2 (gt_cfg s))"
  have c: "(if gth_localPredTaken h \<noteq> gth_globalPredTaken h \<and> gth_localHistory h \<noteq> invalidPredictorIndex then
      if gth_localPredTaken h = taken then vec_mod decrement (gt_choiceCtrs s) ?i
      else if gth_globalPredTaken h = taken then vec_mod increment (gt_choiceCtrs s) ?i else Some (gt_choiceCtrs s)
    else Some (gt_choiceCtrs s)) = Some ((gt_choiceCtrs s)[?i := gt_choice_step taken h (gt_choiceCtrs s ! ?i)])"
    using r by (auto simp: gt_choice_step_def train_def fault_simps)
  have c2: "(if gth_globalUsed h \<and> \<not> gth_globalPredTaken2 h \<or>
        \<not> gth_globalUsed h \<and> gth_localPredTaken h \<noteq> gth_globalPredTaken2 h then
      if gth_globalPredTaken2 h = taken then vec_mod increment (gt_choiceCtrs2 s) ?j
      else if gth_globalPredTaken h = taken \<or> gth_localPredTaken h = taken then vec_mod decrement (gt_choiceCtrs2 s) ?j
      else Some (gt_choiceCtrs2 s)
    else Some (gt_choiceCtrs2 s)) = Some ((gt_choiceCtrs2 s)[?j := gt_choice_step2 taken h (gt_choiceCtrs2 s ! ?j)])"
    using r by (auto simp: gt_choice_step2_def fault_simps)
  have l: "(if b then Some x else Some y) = Some (if \<not> b then y else x)" for b and x y :: "SatCounter list" by simp
  show ?thesis
    unfolding gt_update_def
    by (simp only: Let_def gt_calc_eq [OF assms] gt_stats_frame Option.bind.simps assert_that_True r c c2 if_False)
      (simp only: l vec_mod_Some r Option.bind.simps not_not)
qed

lemma gt_choice_steps_ok:
  assumes "ctrs_ok sz bits cs"
  shows "ctrs_ok sz bits (cs[i := gt_choice_step b h (cs ! i)])" and "ctrs_ok sz bits (cs[i := gt_choice_step2 b h (cs ! i)])"
  using assms ctrs_ok_train_at [OF assms, of i True] ctrs_ok_train_at [OF assms, of i False]
  by (simp_all add: gt_choice_step_def gt_choice_step2_def ctrs_ok_train_at train_def)

subsection \<open>The contracts of the base class\<close>

text \<open>Both global histories are speculative, so the view is the pair.\<close>

definition gtri_view :: "GTriTournamentBP \<Rightarrow> unsigned list \<times> unsigned list" where
  "gtri_view s = (gt_globalHistory s, gt_globalHistory2 s)"

definition gtri_undo ::
    "ThreadID \<Rightarrow> GTBPHistory option \<Rightarrow> unsigned list \<times> unsigned list \<Rightarrow> unsigned list \<times> unsigned list" where
  "gtri_undo t ho v = (case ho of None \<Rightarrow> v | Some h \<Rightarrow>
     ((fst v)[tid_index t := gth_globalHistory h], (snd v)[tid_index t := gth_globalHistory2 h]))"

lemma GTriTournamentDir_simps [simp]:
  "dp_lookup GTriTournamentDir = gt_lookup" "dp_uncondBranch GTriTournamentDir = gt_uncondBranch"
  "dp_btbUpdate GTriTournamentDir = gt_btbUpdate" "dp_update GTriTournamentDir = gt_update"
  "dp_squash GTriTournamentDir = gt_squash" "dp_getGHR GTriTournamentDir = gt_getGHR"
  by (simp_all add: GTriTournamentDir_def)

lemma gtri_threads_length: "gtri_ok s \<Longrightarrow> gtri_threads (gt_cfg s) = length (gt_globalHistory s)"
  by (simp add: gtri_ok_def gtri_threads_def)

lemma gtri_ok_frame:
  "gtri_ok s \<Longrightarrow> gt_cfg s' = gt_cfg s \<Longrightarrow> gt_localCtrs s' = gt_localCtrs s \<Longrightarrow> gt_globalCtrs s' = gt_globalCtrs s \<Longrightarrow>
   gt_globalCtrs2 s' = gt_globalCtrs2 s \<Longrightarrow> gt_choiceCtrs s' = gt_choiceCtrs s \<Longrightarrow> gt_choiceCtrs2 s' = gt_choiceCtrs2 s \<Longrightarrow>
   length (gt_localHistoryTable s') = length (gt_localHistoryTable s) \<Longrightarrow>
   length (gt_globalHistory s') = length (gt_globalHistory s) \<Longrightarrow>
   length (gt_globalHistory2 s') = length (gt_globalHistory2 s) \<Longrightarrow> gtri_ok s'"
  by (simp add: gtri_ok_def)

lemma gtri_spec_ok: "gtri_ok s \<Longrightarrow> gtri_ok (gt_spec s t a b)"
  by (erule gtri_ok_frame) (simp_all add: gt_spec_def)

lemma gtri_hist_ok_lookup: "gtri_ok s \<Longrightarrow> gtri_hist_ok (gt_cfg s) (Some (gt_hist s t a))"
  using gt_idx_less(2) by (simp add: gtri_hist_ok_def gt_hist_def Let_def)

lemma gtri_commit_ok:
  assumes "gtri_ok s" and "gt_update s t a taken (Some h) False = Some s'"
  shows "gtri_ok s'"
  using assms by (auto simp: gt_update_commit_eq gtri_ok_def ctrs_ok_train_at gt_choice_steps_ok Let_def)

interpretation gtri: speculative_predictor GTriTournamentDir gtri_ok gt_cfg gtri_threads gtri_hist_ok gtri_view gtri_undo
proof unfold_locales
  fix s s' s'' :: GTriTournamentBP and t :: ThreadID and a :: Addr and h :: "GTBPHistory option" and b q :: bool
  assume ok: "gtri_ok s" and "tid_index t < gtri_threads (gt_cfg s)"
  then have i: "tid_index t < length (gt_globalHistory s)" by (simp add: gtri_threads_length)
  have i2: "tid_index t < length (gt_globalHistory2 s)" using i gtri_range(9) [OF ok] by simp
  note v = gtri_view_def gtri_undo_def
  let ?l = "gt_spec s t a (gt_verdict (gt_hist s t a))"
  have okl: "gtri_ok ?l" by (rule gtri_spec_ok [OF ok])
  show "\<exists>b h s'. dp_lookup GTriTournamentDir s t a = Some (b, h, s') \<and> gtri_ok s' \<and> gt_cfg s' = gt_cfg s \<and> gtri_hist_ok (gt_cfg s) h"
    using okl by (simp add: gt_lookup_eq [OF ok i] gtri_hist_ok_lookup [OF ok]) (simp add: gt_spec_def)
  show "\<exists>h s'. dp_uncondBranch GTriTournamentDir s t a = Some (h, s') \<and> gtri_ok s' \<and> gt_cfg s' = gt_cfg s \<and> gtri_hist_ok (gt_cfg s) h"
    by (simp add: gt_uncond_eq [OF ok i] gtri_hist_ok_def gt_uncond_hist_def gtri_ok_frame [OF ok])
  show "dp_lookup GTriTournamentDir s t a = Some (b, h, s') \<Longrightarrow> gtri_undo t h (gtri_view s') = gtri_view s"
    using i i2 by (auto simp: gt_lookup_eq [OF ok i] v gt_spec_def gt_hist_def Let_def)
  show "dp_uncondBranch GTriTournamentDir s t a = Some (h, s') \<Longrightarrow> gtri_undo t h (gtri_view s') = gtri_view s"
    using i i2 by (auto simp: gt_uncond_eq [OF ok i] v gt_uncond_hist_def)
  show "dp_lookup GTriTournamentDir s t a = Some (b, h, s') \<Longrightarrow> dp_btbUpdate GTriTournamentDir s' t a h = Some s'' \<Longrightarrow>
      gtri_undo t h (gtri_view s'') = gtri_view s"
    using i i2 okl
    by (auto simp: gt_lookup_eq [OF ok i] gt_btbUpdate_eq v gt_hist_def Let_def) (auto simp: gt_spec_def gt_btbUpdate_eq)
  show "dp_uncondBranch GTriTournamentDir s t a = Some (h, s') \<Longrightarrow> dp_btbUpdate GTriTournamentDir s' t a h = Some s'' \<Longrightarrow>
      gtri_undo t h (gtri_view s'') = gtri_view s"
    using i i2 by (auto simp: gt_uncond_eq [OF ok i] gt_btbUpdate_eq gtri_ok_frame [OF ok] v gt_uncond_hist_def)
  assume "gtri_hist_ok (gt_cfg s) h"
  then obtain x where h: "h = Some x" "gtri_hist_ok (gt_cfg s) (Some x)" by (cases h) (auto simp: gtri_hist_ok_def)
  show "\<exists>s'. dp_btbUpdate GTriTournamentDir s t a h = Some s' \<and> gtri_ok s' \<and> gt_cfg s' = gt_cfg s"
    by (simp add: gt_btbUpdate_eq [OF ok i] gtri_ok_frame [OF ok])
  show "\<exists>s'. dp_update GTriTournamentDir s t a b h q = Some s' \<and> gtri_ok s' \<and> gt_cfg s' = gt_cfg s"
  proof (cases q)
    case True
    then show ?thesis by (simp add: h(1) gt_update_squashed_eq [OF ok i] gtri_ok_frame [OF ok])
  next
    case False
    then show ?thesis using gtri_commit_ok [OF ok, of t a b x] by (simp add: h(1) gt_update_commit_eq [OF ok])
  qed
  show "\<exists>s'. dp_squash GTriTournamentDir s t h = Some s' \<and> gtri_ok s' \<and> gt_cfg s' = gt_cfg s"
    by (simp add: h(1) gt_squash_eq [OF ok i h(2)] gtri_ok_frame [OF ok])
  show "\<exists>g. dp_getGHR GTriTournamentDir s t h = Some g" by (simp add: h(1) gt_getGHR_def)
  show "dp_squash GTriTournamentDir s t h = Some s' \<Longrightarrow> gtri_view s' = gtri_undo t h (gtri_view s)"
    by (auto simp: h(1) gt_squash_eq [OF ok i h(2)] v)
  show "dp_update GTriTournamentDir s t a b h False = Some s' \<Longrightarrow> gtri_view s' = gtri_view s"
    by (auto simp: h(1) gt_update_commit_eq [OF ok] v)
qed

subsection \<open>The constructed predictor\<close>

lemma GTriTournamentBP_new_ok:
  assumes "GTriTournamentBP_new junk p = Inr s" and "unat (gtp_instShiftAmt p) < 64"
    and "gtp_globalPredictorSize2 p \<noteq> 0" and "gtp_choicePredictorSize2 p \<noteq> 0"
  shows "gtri_ok s" and "gt_numThreads (gt_cfg s) = gtp_numThreads p"
proof -
  obtain lb lc gc gc2 cc cc2 where
    d: "ceilLog2 (gtp_localPredictorSize p) = Some lb"
    and w: "isPowerOf2 (gtp_localPredictorSize p)" "isPowerOf2 (gtp_globalPredictorSize p)" "isPowerOf2 (gtp_choicePredictorSize p)"
      "isPowerOf2 (gtp_localHistoryTableSize p)"
    and c: "fresh_counters junk (gtp_localPredictorSize p) (gtp_localCtrBits p) = Some lc"
      "fresh_counters junk (gtp_globalPredictorSize p) (gtp_globalCtrBits p) = Some gc"
      "fresh_counters junk (gtp_globalPredictorSize2 p) (gtp_globalCtrBits2 p) = Some gc2"
      "fresh_counters junk (gtp_choicePredictorSize p) (gtp_choiceCtrBits p) = Some cc"
      "fresh_counters junk (gtp_choicePredictorSize2 p) (gtp_choiceCtrBits2 p) = Some cc2"
    and t: "gt_localCtrs s = lc" "gt_globalCtrs s = gc" "gt_globalCtrs2 s = gc2" "gt_choiceCtrs s = cc" "gt_choiceCtrs2 s = cc2"
      "gt_localHistoryTable s = replicate (unat (gtp_localHistoryTableSize p)) 0"
      "gt_globalHistory s = replicate (unat (gtp_numThreads p)) 0" "gt_globalHistory2 s = replicate (unat (gtp_numThreads p)) 0"
    and f: "gt_numThreads (gt_cfg s) = gtp_numThreads p" "gt_instShiftAmt (gt_cfg s) = gtp_instShiftAmt p"
      "gt_localPredictorSize (gt_cfg s) = gtp_localPredictorSize p" "gt_localPredictorMask (gt_cfg s) = ucast (mask64 lb)"
      "gt_localCtrBits (gt_cfg s) = gtp_localCtrBits p" "gt_localHistoryTableSize (gt_cfg s) = gtp_localHistoryTableSize p"
      "gt_globalPredictorSize (gt_cfg s) = gtp_globalPredictorSize p" "gt_globalCtrBits (gt_cfg s) = gtp_globalCtrBits p"
      "gt_globalPredictorSize2 (gt_cfg s) = gtp_globalPredictorSize2 p" "gt_globalCtrBits2 (gt_cfg s) = gtp_globalCtrBits2 p"
      "gt_globalHistoryMask (gt_cfg s) = gtp_globalPredictorSize p - 1" "gt_globalHistoryMask2 (gt_cfg s) = gtp_globalPredictorSize2 p - 1"
      "gt_choiceHistoryMask (gt_cfg s) = gtp_choicePredictorSize p - 1" "gt_choiceHistoryMask2 (gt_cfg s) = gtp_choicePredictorSize2 p - 1"
      "gt_choicePredictorSize (gt_cfg s) = gtp_choicePredictorSize p" "gt_choiceCtrBits (gt_cfg s) = gtp_choiceCtrBits p"
      "gt_choicePredictorSize2 (gt_cfg s) = gtp_choicePredictorSize2 p" "gt_choiceCtrBits2 (gt_cfg s) = gtp_choiceCtrBits2 p"
    using assms(1) by (auto simp: GTriTournamentBP_new_def ebind_eq_Inr Let_def)
  have nz: "gtp_localPredictorSize p \<noteq> 0" "gtp_globalPredictorSize p \<noteq> 0" "gtp_choicePredictorSize p \<noteq> 0"
    "gtp_localHistoryTableSize p \<noteq> 0" using w by (auto simp: isPowerOf2_def)
  have m: "ucast (mask64 lb) = gtp_localPredictorSize p - 1" using ceilLog2_mask [OF w(1)] d by auto
  show "gtri_ok s"
    using nz m assms(2-4) ctrs_ok_fresh [OF c(1)] ctrs_ok_fresh [OF c(2)] ctrs_ok_fresh [OF c(3)] ctrs_ok_fresh [OF c(4)]
      ctrs_ok_fresh [OF c(5)]
    by (simp add: gtri_ok_def gtri_cfg_ok_def t f)
  show "gt_numThreads (gt_cfg s) = gtp_numThreads p" by (rule f(1))
qed

subsection \<open>The gshare predictor is never selected\<close>

text \<open>The tournament predictor inside; the statistics of the two classes are counted differently.\<close>

definition gtri_tour_cfg :: "GTriTournamentCfg \<Rightarrow> TournamentCfg" where
  "gtri_tour_cfg c = \<lparr>t_numThreads = gt_numThreads c, t_instShiftAmt = gt_instShiftAmt c,
     t_localPredictorSize = gt_localPredictorSize c, t_localPredictorMask = gt_localPredictorMask c,
     t_localCtrBits = gt_localCtrBits c, t_localHistoryTableSize = gt_localHistoryTableSize c,
     t_localHistoryBits = gt_localHistoryBits c, t_globalPredictorSize = gt_globalPredictorSize c,
     t_globalCtrBits = gt_globalCtrBits c, t_globalHistoryBits = gt_globalHistoryBits c,
     t_globalHistoryMask = gt_globalHistoryMask c, t_choiceHistoryMask = gt_choiceHistoryMask c,
     t_historyRegisterMask = gt_historyRegisterMask c, t_choicePredictorSize = gt_choicePredictorSize c,
     t_choiceCtrBits = gt_choiceCtrBits c, t_localThreshold = gt_localThreshold c,
     t_globalThreshold = gt_globalThreshold c, t_choiceThreshold = gt_choiceThreshold c\<rparr>"

definition gtri_tour :: "ExpertStats \<Rightarrow> GTriTournamentBP \<Rightarrow> TournamentBP" where
  "gtri_tour st s = \<lparr>t_cfg = gtri_tour_cfg (gt_cfg s), t_localCtrs = gt_localCtrs s, t_localHistoryTable = gt_localHistoryTable s,
     t_globalCtrs = gt_globalCtrs s, t_globalHistory = gt_globalHistory s, t_choiceCtrs = gt_choiceCtrs s, t_stats = st\<rparr>"

definition gtri_tour_hist :: "GTBPHistory \<Rightarrow> TBPHistory" where
  "gtri_tour_hist h = \<lparr>th_globalHistory = gth_globalHistory h, th_localHistoryIdx = gth_localHistoryIdx h,
     th_localHistory = gth_localHistory h, th_localPredTaken = gth_localPredTaken h,
     th_globalPredTaken = gth_globalPredTaken h, th_globalUsed = gth_globalUsed h\<rparr>"

definition gtri_tour_params :: "GTriTournamentParams \<Rightarrow> TournamentParams" where
  "gtri_tour_params p = \<lparr>tp_numThreads = gtp_numThreads p, tp_instShiftAmt = gtp_instShiftAmt p,
     tp_localPredictorSize = gtp_localPredictorSize p, tp_localCtrBits = gtp_localCtrBits p,
     tp_localHistoryTableSize = gtp_localHistoryTableSize p, tp_globalPredictorSize = gtp_globalPredictorSize p,
     tp_globalCtrBits = gtp_globalCtrBits p, tp_choicePredictorSize = gtp_choicePredictorSize p,
     tp_choiceCtrBits = gtp_choiceCtrBits p\<rparr>"

lemmas gtri_tour_simps = gtri_tour_def gtri_tour_cfg_def gtri_tour_hist_def

definition gtri_third_off :: "GTriTournamentCfg \<Rightarrow> bool" where
  "gtri_third_off c \<longleftrightarrow> 2 \<le> unat (gt_choiceCtrBits2 c) \<and> unat (gt_choiceCtrBits2 c) \<le> 8 \<and>
     threshold2_of_bits (gt_choiceCtrBits2 c) = Some (gt_choiceThreshold2 c) \<and>
     (\<exists>k<32. gt_historyRegisterMask c = mask k)"

definition gtri_rel :: "GTriTournamentCfg \<Rightarrow> GTriTournamentBP \<Rightarrow> TournamentBP \<Rightarrow> bool" where
  "gtri_rel c s s' \<longleftrightarrow> gtri_ok s \<and> gtri_third_off c \<and> gt_cfg s = c \<and> (\<exists>st. s' = gtri_tour st s)"

definition gtri_hist_rel :: "GTriTournamentCfg \<Rightarrow> GTBPHistory option \<Rightarrow> TBPHistory option \<Rightarrow> bool" where
  "gtri_hist_rel c h h' \<longleftrightarrow> gtri_hist_ok c h \<and> (\<exists>x. h = Some x \<and> h' = Some (gtri_tour_hist x))"

lemma gtri_tour_ok: "gtri_ok s \<Longrightarrow> gtri_third_off (gt_cfg s) \<Longrightarrow> tour_ok (gtri_tour st s)"
  by (auto simp: gtri_ok_def gtri_cfg_ok_def gtri_third_off_def tour_ok_def tour_cfg_ok_def gtri_tour_simps)

lemma gtri_tour_hist_ok: "gtri_hist_ok c (Some h) \<Longrightarrow> tour_hist_ok (gtri_tour_cfg c) (Some (gtri_tour_hist h))"
  by (simp add: gtri_hist_ok_def tour_hist_ok_def gtri_tour_simps)

lemma gtri_tour_idx: "t_idx (gtri_tour st s) a = gt_idx s a"
  by (simp add: t_idx_def gt_idx_def gtri_tour_simps)

lemma gtri_never_gshare:
  assumes "gtri_ok s" and "gtri_third_off (gt_cfg s)"
  shows "\<not> gth_globalUsed2 (gt_hist s t a)"
proof -
  let ?x = "gt_globalHistory s ! tid_index t AND gt_choiceHistoryMask2 (gt_cfg s)"
  have "ctr_ok (gt_choiceCtrBits2 (gt_cfg s)) (gt_choiceCtrs2 s ! unat ?x)"
    using assms(1) gtri_range(8) [OF assms(1)] by (auto simp: gtri_ok_def ctrs_ok_def list_all_length)
  then show ?thesis using assms(2) never_above_threshold2 by (auto simp: gt_hist_def Let_def gtri_third_off_def)
qed

lemma gtri_tour_lookup:
  assumes "gtri_ok s" and "gtri_third_off (gt_cfg s)"
  shows "t_hist (gtri_tour st s) t a = gtri_tour_hist (gt_hist s t a)"
    and "t_verdict (gtri_tour_hist (gt_hist s t a)) = gt_verdict (gt_hist s t a)"
    and "t_spec (gtri_tour st s) t a b = gtri_tour st (gt_spec s t a b)"
  using gtri_never_gshare [OF assms, of t a]
  by (simp_all add: t_hist_def gt_hist_def t_spec_def gt_spec_def t_verdict_def gt_verdict_def gtri_tour_idx Let_def)
    (simp_all add: gtri_tour_simps)

lemma gtri_tour_stats: "\<exists>st'. t_updateAdditionalStats (gtri_tour st s) b h = gtri_tour st' s"
  by (auto simp: t_updateAdditionalStats_def gtri_tour_simps Let_def)

lemma gtri_relI: "gtri_ok s \<Longrightarrow> gtri_third_off c \<Longrightarrow> gt_cfg s = c \<Longrightarrow> s' = gtri_tour st s \<Longrightarrow> gtri_rel c s s'"
  by (auto simp: gtri_rel_def)

interpretation gtri_sim: predictor_simulation TournamentDir GTriTournamentDir "unat (gt_numThreads c)" "gtri_rel c" "gtri_hist_rel c" for c
proof unfold_locales
  fix s s' t a h h' b q
  assume "tid_index t < unat (gt_numThreads c)" and R: "gtri_rel c s s'"
  then obtain st where ok: "gtri_ok s" and off: "gtri_third_off (gt_cfg s)" and c: "gt_cfg s = c" and s': "s' = gtri_tour st s"
    and i: "tid_index t < length (gt_globalHistory s)" by (auto simp: gtri_rel_def gtri_ok_def)
  have ok': "tour_ok (gtri_tour st s)" and i': "tid_index t < length (t_globalHistory (gtri_tour st s))"
    using gtri_tour_ok [OF ok off] i by (simp_all add: gtri_tour_simps)
  note off' = off [unfolded c]
  show "rel_option (rel_prod (=) (rel_prod (gtri_hist_rel c) (gtri_rel c))) (dp_lookup GTriTournamentDir s t a) (dp_lookup TournamentDir s' t a)"
    using gtri_hist_ok_lookup [OF ok, of t a] gtri_relI [OF gtri_spec_ok [OF ok] off', of t a]
    by (simp add: gt_lookup_eq [OF ok i] t_lookup_eq [OF ok' i'] s' gtri_tour_lookup [OF ok off] gtri_hist_rel_def c gt_spec_def)
  show "rel_option (rel_prod (gtri_hist_rel c) (gtri_rel c)) (dp_uncondBranch GTriTournamentDir s t a) (dp_uncondBranch TournamentDir s' t a)"
    by (simp add: gt_uncond_eq [OF ok i] t_uncond_eq [OF ok' i'] s' gtri_hist_rel_def gt_uncond_hist_def gtri_hist_ok_def)
      (auto simp: gtri_tour_simps c off' intro!: gtri_relI [where st = st] gtri_ok_frame [OF ok])
  assume H: "gtri_hist_rel c h h'"
  then obtain x where h: "h = Some x" "h' = Some (gtri_tour_hist x)" "gtri_hist_ok (gt_cfg s) (Some x)"
    by (auto simp: gtri_hist_rel_def c)
  have hok: "tour_hist_ok (t_cfg (gtri_tour st s)) (Some (gtri_tour_hist x))"
    using gtri_tour_hist_ok [OF h(3)] by (simp add: gtri_tour_def)
  show "rel_option (gtri_rel c) (dp_btbUpdate GTriTournamentDir s t a h) (dp_btbUpdate TournamentDir s' t a h')"
    by (simp add: gt_btbUpdate_eq [OF ok i] t_btbUpdate_eq [OF ok' i'] s' gtri_tour_idx)
      (auto simp: gtri_tour_simps c off' intro!: gtri_relI [where st = st] gtri_ok_frame [OF ok])
  show "rel_option (gtri_rel c) (dp_squash GTriTournamentDir s t h) (dp_squash TournamentDir s' t h')"
    by (simp add: h(1,2) gt_squash_eq [OF ok i h(3)] t_squash_eq [OF ok' i' hok] s')
      (auto simp: gtri_tour_simps c off' intro!: gtri_relI [where st = st] gtri_ok_frame [OF ok])
  show "dp_getGHR GTriTournamentDir s t h = dp_getGHR TournamentDir s' t h'"
    by (simp add: h(1,2) gt_getGHR_def t_getGHR_def gtri_tour_simps)
  obtain st' where st': "t_updateAdditionalStats (gtri_tour st s) b (gtri_tour_hist x) = gtri_tour st' s"
    using gtri_tour_stats by blast
  show "rel_option (gtri_rel c) (dp_update GTriTournamentDir s t a b h q) (dp_update TournamentDir s' t a b h' q)"
  proof (cases q)
    case True
    then show ?thesis
      by (simp add: h(1,2) gt_update_squashed_eq [OF ok i] t_update_squashed_eq [OF ok' i'] s' gtri_tour_idx st')
        (auto simp: gtri_tour_simps c off' intro!: gtri_relI [where st = st'] gtri_ok_frame [OF ok])
  next
    case False
    let ?u = "the (gt_update s t a b (Some x) False)"
    have "t_update (gtri_tour st s) t a b (Some (gtri_tour_hist x)) False = Some (gtri_tour st' ?u)"
      by (simp add: gt_update_commit_eq [OF ok] t_update_commit_eq [OF ok'] st' t_choice_step_def gt_choice_step_def Let_def)
        (simp add: gtri_tour_simps)
    moreover have "gtri_rel c ?u (gtri_tour st' ?u)"
      using gtri_commit_ok [OF ok gt_update_commit_eq [OF ok, of t a b x]]
      by (intro gtri_relI [OF _ off']) (simp_all add: gt_update_commit_eq [OF ok] c)
    ultimately show ?thesis by (simp add: False h(1,2) s' gt_update_commit_eq [OF ok])
  qed
qed

text \<open>
  The history register is as wide as the one of the tournament predictor when the second choice
  table is not larger than the global one. In the branch where the conditional expression of the
  constructor does not give the larger of the first two logarithms, a size check rejects the
  parameters.
\<close>

lemma ceilLog2_mono:
  assumes "ceilLog2 m = Some j" and "ceilLog2 n = Some k" and "m \<noteq> 0" and "m \<le> n"
  shows "j \<le> k"
proof (cases "m = 1")
  case False
  then have "unat m \<noteq> 0" "unat m \<noteq> unat (1 :: unsigned)" using assms(3) by (simp_all only: word_unat_eq_iff unat_0) auto
  then have "1 < unat m" "1 < unat n" using assms(4) by (auto simp: word_le_nat_alt)
  moreover from this have "n \<noteq> 0" by auto
  ultimately have n: "n \<noteq> 1" "m - 1 \<noteq> 0" "n - 1 \<noteq> 0" "unat (m - 1) \<le> unat (n - 1)"
    using assms(3,4) False by (auto simp: word_le_nat_alt unat_minus_one)
  obtain x y where x: "floorLog2 (m - 1) = Some x" "j = Suc x" and y: "floorLog2 (n - 1) = Some y" "k = Suc y"
    using assms(1,2) False n(1) by (auto simp: ceilLog2_def)
  have "(2::nat) ^ x < 2 ^ Suc y" using floorLog2_spec [OF n(2)] floorLog2_spec [OF n(3)] x y n(4) by auto
  then have "x < Suc y" using power_less_imp_less_exp [of "2 :: nat" x "Suc y"] by simp
  then show ?thesis using x y by simp
qed (use assms(1) in \<open>simp add: ceilLog2_def\<close>)

lemma gt_history_bits_max:
  assumes "isPowerOf2 g" and "isPowerOf2 c" and "ceilLog2 g = Some gb" and "ceilLog2 c = Some cb" and "ceilLog2 c2 = Some cb2"
    and "c2 \<noteq> 0" and "c2 \<le> g" and "c - 1 \<le> ucast (mask64 (gt_history_bits gb cb cb2))"
  shows "gt_history_bits gb cb cb2 = (if gb > cb then gb else cb)"
proof -
  have le: "cb2 \<le> gb" by (rule ceilLog2_mono [OF assms(5,3,6,7)])
  have k: "ucast (mask64 gb) = g - 1" "unat g = 2 ^ gb" "unat c = 2 ^ cb" "g \<noteq> 0" "c \<noteq> 0"
    using ceilLog2_mask [OF assms(1)] ceilLog2_mask [OF assms(2)] assms(1-4) by (auto simp: isPowerOf2_def)
  have "cb \<le> gb" if "gt_history_bits gb cb cb2 = gb"
  proof -
    have "unat c - 1 \<le> unat g - 1" using assms(8) k(1,4,5) that by (simp add: word_le_nat_alt unat_minus_one)
    then have "(2::nat) ^ cb \<le> 2 ^ gb" by (simp add: k(2,3) le_diff_conv)
    then show ?thesis by simp
  qed
  then show ?thesis using le by (auto simp: gt_history_bits_def)
qed

lemma gtri_tour_new:
  assumes "GTriTournamentBP_new junk p = Inr s" and "gtp_choicePredictorSize2 p \<noteq> 0"
    and "gtp_choicePredictorSize2 p \<le> gtp_globalPredictorSize p" and "unat (gtp_instShiftAmt p) < 64"
  shows "TournamentBP_new junk (gtri_tour_params p) = Inr (gtri_tour zero_stats s)"
    and "threshold2_of_bits (gtp_choiceCtrBits2 p) = Some (gt_choiceThreshold2 (gt_cfg s))"
    and "gt_choiceCtrBits2 (gt_cfg s) = gtp_choiceCtrBits2 p"
    and "\<exists>k<32. gt_historyRegisterMask (gt_cfg s) = mask k"
proof -
  show "threshold2_of_bits (gtp_choiceCtrBits2 p) = Some (gt_choiceThreshold2 (gt_cfg s))"
    "gt_choiceCtrBits2 (gt_cfg s) = gtp_choiceCtrBits2 p"
    using assms(1) by (auto simp: GTriTournamentBP_new_def ebind_eq_Inr Let_def)
  have new: "TournamentBP_new junk (gtri_tour_params p) = Inr (gtri_tour zero_stats s)"
    using assms(1) gt_history_bits_max [of "gtp_globalPredictorSize p" "gtp_choicePredictorSize p" _ _ "gtp_choicePredictorSize2 p"] assms(2,3)
    by (auto simp: GTriTournamentBP_new_def ebind_eq_Inr Let_def not_less)
      (simp_all add: TournamentBP_new_def gtri_tour_params_def gtri_tour_simps no_fault_def error_if_def Let_def not_less)
  then show "TournamentBP_new junk (gtri_tour_params p) = Inr (gtri_tour zero_stats s)" .
  have "tour_ok (gtri_tour zero_stats s)" using TournamentBP_new_ok(1) [OF new] assms(4) by (simp add: gtri_tour_params_def)
  then have "\<exists>k<32. t_historyRegisterMask (t_cfg (gtri_tour zero_stats s)) = mask k" by (simp add: tour_ok_def tour_cfg_ok_def)
  then show "\<exists>k<32. gt_historyRegisterMask (gt_cfg s) = mask k" by (simp add: gtri_tour_simps)
qed

text \<open>A small instance, and a unit built on it.\<close>

definition sample_gtri_params :: GTriTournamentParams where
  "sample_gtri_params = \<lparr>gtp_numThreads = 1, gtp_instShiftAmt = 2, gtp_localPredictorSize = 2, gtp_localCtrBits = 2,
     gtp_localHistoryTableSize = 2, gtp_globalPredictorSize = 4, gtp_globalPredictorSize2 = 4, gtp_globalCtrBits = 2,
     gtp_globalCtrBits2 = 1, gtp_choicePredictorSize = 4, gtp_choicePredictorSize2 = 4, gtp_choiceCtrBits = 2,
     gtp_choiceCtrBits2 = 2\<rparr>"

definition sample_gtri :: GTriTournamentBP where
  "sample_gtri = projr (GTriTournamentBP_new 0 sample_gtri_params)"

definition sample_gtri_unit :: "(GTriTournamentBP, GTBPHistory, Addr) BPredUnit" where
  "sample_gtri_unit = projr (BPredUnit_new sample_isa 0 sample_bp sample_gtri)"

lemma sample_gtri_new: "GTriTournamentBP_new 0 sample_gtri_params = Inr sample_gtri"
  by code_simp

lemma sample_gtri_unit_new: "BPredUnit_new sample_isa 0 sample_bp sample_gtri = Inr sample_gtri_unit"
  by code_simp

subsection \<open>Properties\<close>



text \<open>
  \<^bold>\<open>C37.\<close> The class \<open>GTriTournamentBP\<close> is the tournament predictor: from two bits on, the second choice
  counters never get above their threshold \<open>(1 << 2*(choiceCtrBits2 - 1)) - 1\<close>, so the gshare
  predictor is never selected. A unit built on it gives, for any sequence of calls, the
  predictions of the unit built on \<open>TournamentBP\<close> with the same parameters, or faults where that
  one does. The conditions: \<open>2 \<le> choiceCtrBits2 \<le> 8\<close>, the two tables whose sizes the constructor does
  not check are not empty, \<open>choicePredictorSize2 \<le> globalPredictorSize\<close>, and a shift below 64.
\<close>

theorem gtritournament_is_tournament:
  assumes "GTriTournamentBP_new junk p = Inr s" and "unat (gtp_instShiftAmt p) < 64"
    and "gtp_globalPredictorSize2 p \<noteq> 0" and "gtp_choicePredictorSize2 p \<noteq> 0"
    and "gtp_choicePredictorSize2 p \<le> gtp_globalPredictorSize p"
    and "2 \<le> unat (gtp_choiceCtrBits2 p)" and "unat (gtp_choiceCtrBits2 p) \<le> 8"
    and "BPredUnit_new isa junk' q s = Inr u"
  shows "\<exists>s' u'. TournamentBP_new junk (gtri_tour_params p) = Inr s' \<and> BPredUnit_new isa junk' q s' = Inr u' \<and>
    (\<forall>cs. list_all (\<lambda>(t, c). tid_index t < unat (gtp_numThreads p)) cs \<longrightarrow>
      map_option fst (bp_run GTriTournamentDir isa u cs) = map_option fst (bp_run TournamentDir isa u' cs))"
proof -
  note new = GTriTournamentBP_new_ok [OF assms(1-4)] and tour = gtri_tour_new [OF assms(1,4,5,2)]
  obtain u' :: "(TournamentBP, TBPHistory, 'a) BPredUnit" where u': "BPredUnit_new isa junk' q (gtri_tour zero_stats s) = Inr u'"
    using assms(8) by (auto simp: BPredUnit_new_def ebind_eq_Inr)
  have "gtri_rel (gt_cfg s) s (gtri_tour zero_stats s)"
    using new(1) tour assms(6,7) by (auto simp: gtri_rel_def gtri_third_off_def)
  from gtri_sim.same_predictions [OF this assms(8) u'] show ?thesis using tour(1) u' new(2) by auto
qed

theorem gtritournament_is_tournament_witness:
  "\<exists>s' u'. TournamentBP_new 0 (gtri_tour_params sample_gtri_params) = Inr s' \<and> BPredUnit_new sample_isa 0 sample_bp s' = Inr u' \<and>
    map_option fst (bp_run GTriTournamentDir sample_isa sample_gtri_unit
      [(0, Predict cond_branch 1 0x40), (0, Mispredict 1 0x60 True 0), (0, Commit 1), (0, Predict cond_branch 2 0x40)]) =
    map_option fst (bp_run TournamentDir sample_isa u'
      [(0, Predict cond_branch 1 0x40), (0, Mispredict 1 0x60 True 0), (0, Commit 1), (0, Predict cond_branch 2 0x40)])"
proof -
  have h: "unat (gtp_instShiftAmt sample_gtri_params) < 64"
    "gtp_globalPredictorSize2 sample_gtri_params \<noteq> 0" "gtp_choicePredictorSize2 sample_gtri_params \<noteq> 0"
    "gtp_choicePredictorSize2 sample_gtri_params \<le> gtp_globalPredictorSize sample_gtri_params"
    "2 \<le> unat (gtp_choiceCtrBits2 sample_gtri_params)" "unat (gtp_choiceCtrBits2 sample_gtri_params) \<le> 8" by code_simp+
  have "tid_index 0 < unat (gtp_numThreads sample_gtri_params)" by code_simp
  then show ?thesis using gtritournament_is_tournament [OF sample_gtri_new h sample_gtri_unit_new]
    by (auto simp del: bp_run.simps)
qed

text \<open>
  Both non-emptiness conditions are needed: the constructor tests \<open>globalPredictorSize\<close> and
  \<open>choicePredictorSize\<close> twice instead of the second sizes, so it accepts an empty gshare table, with
  which the first conditional branch reads out of range.
\<close>

theorem gtritournament_empty_gshare_faults:
  "let p = sample_gtri_params\<lparr>gtp_globalPredictorSize2 := 0\<rparr>; s = projr (GTriTournamentBP_new 0 p);
       u = projr (BPredUnit_new sample_isa 0 sample_bp s)
   in GTriTournamentBP_new 0 p = Inr s \<and> BPredUnit_new sample_isa 0 sample_bp s = Inr u \<and>
      predict GTriTournamentDir sample_isa u cond_branch 1 0x40 0 = None"
  by code_simp

end
