(* ===== verification/Ltage.thy ===== *)
theory Ltage
  imports Sample_Config "HOL-Library.Signed_Division"
begin

text \<open>
  \<open>cpu/pred/ltage.hh\<close> and \<open>ltage.cc\<close>: the L-TAGE predictor, a bimodal table, tagged tables
  indexed with hashes of geometrically growing histories, and a loop predictor.

  Values of the type \<open>int\<close> are integers; where the code converts a wider expression to \<open>int\<close>
  the conversion is written out (\<open>to_int\<close>). Narrow fields keep their width: \<open>int8_t\<close> and
  \<open>uint16_t\<close> are words, the former read with \<open>sint\<close>. Slot 0 of the arrays indexed by bank is not
  used. The members \<open>tableIndices\<close> and \<open>tableTags\<close> of the class are scratch space of \<open>predict\<close>,
  which also stores their contents in the \<open>BranchInfo\<close>; the \<open>int\<close> arrays \<open>ci\<close>, \<open>ct0\<close> and \<open>ct1\<close>
  hold \<open>unsigned\<close> values. Two things are parameters: the floating-point expression of the
  constructor that gives the history lengths (\<open>geom\<close>), and the values the random number
  generator draws (\<open>lt_rand\<close>, by the number of the draw).
\<close>

type_synonym uint16 = "16 word"
type_synonym int8 = "8 word"

subsection \<open>Integer expressions\<close>

text \<open>\<open>(ULL(1) << n) - 1\<close>\<close>

definition ull_mask :: "int \<Rightarrow> Addr option" where
  "ull_mask n = (if 0 \<le> n \<and> n < 64 then Some (push_bit (nat n) 1 - 1) else None)"

text \<open>\<open>a >> n\<close> and \<open>a << n\<close> on \<open>int\<close>; a left shift must not overflow. \<open>a >> n\<close> on \<open>unsigned\<close> and \<open>Addr\<close>.\<close>

definition shr_int :: "int \<Rightarrow> int \<Rightarrow> int option" where
  "shr_int a n = (if 0 \<le> n \<and> n < 32 then Some (drop_bit (nat n) a) else None)"

definition shl_int :: "int \<Rightarrow> int \<Rightarrow> int option" where
  "shl_int a n = (if 0 \<le> n \<and> n < 32 \<and> 0 \<le> a \<and> a * 2 ^ nat n < 2 ^ 31 then Some (push_bit (nat n) a) else None)"

definition shr_unsigned :: "unsigned \<Rightarrow> int \<Rightarrow> unsigned option" where
  "shr_unsigned a n = (if 0 \<le> n \<and> n < 32 then Some (drop_bit (nat n) a) else None)"

definition shr_addr :: "Addr \<Rightarrow> int \<Rightarrow> Addr option" where
  "shr_addr a n = (if 0 \<le> n \<and> n < 64 then Some (drop_bit (nat n) a) else None)"

text \<open>The conversion of a 64-bit value to \<open>int\<close>.\<close>

definition to_int :: "Addr \<Rightarrow> int" where
  "to_int x = sint (ucast x :: 32 word)"

subsection \<open>State\<close>

record LoopEntry =
  le_numIter :: uint16
  le_currentIter :: uint16
  le_currentIterSpec :: uint16
  le_confidence :: uint8
  le_tag :: uint16
  le_age :: uint8
  le_dir :: bool

definition LoopEntry_default :: LoopEntry where
  "LoopEntry_default = \<lparr>le_numIter = 0, le_currentIter = 0, le_currentIterSpec = 0, le_confidence = 0, le_tag = 0,
     le_age = 0, le_dir = False\<rparr>"

record BimodalEntry =
  bim_pred :: uint8
  bim_hyst :: uint8

definition BimodalEntry_default :: BimodalEntry where
  "BimodalEntry_default = \<lparr>bim_pred = 0, bim_hyst = 1\<rparr>"

record TageEntry =
  te_ctr :: int8
  te_tag :: uint16
  te_u :: int8

definition TageEntry_default :: TageEntry where
  "TageEntry_default = \<lparr>te_ctr = 0, te_tag = 0, te_u = 0\<rparr>"

record FoldedHistory =
  fh_comp :: unsigned
  fh_compLength :: int
  fh_origLength :: int
  fh_outpoint :: int

definition fh_init :: "int \<Rightarrow> int \<Rightarrow> FoldedHistory option" where
  "fh_init original_length compressed_length = do {
     assert_that (compressed_length \<noteq> 0);
     Some \<lparr>fh_comp = 0, fh_compLength = compressed_length, fh_origLength = original_length,
       fh_outpoint = original_length smod compressed_length\<rparr> }"

text \<open>\<open>update(h)\<close>, where \<open>h\<close> points to the element \<open>h\<close> of \<open>tab\<close>.\<close>

definition fh_update :: "uint8 list \<Rightarrow> int \<Rightarrow> FoldedHistory \<Rightarrow> FoldedHistory option" where
  "fh_update tab h f = do {
     b0 \<leftarrow> arr_at tab h;
     let comp = push_bit 1 (fh_comp f) OR ucast b0;
     bo \<leftarrow> arr_at tab (h + fh_origLength f);
     x \<leftarrow> shl_int (uint bo) (fh_outpoint f);
     let comp = comp XOR word_of_int x;
     y \<leftarrow> shr_unsigned comp (fh_compLength f);
     let comp = comp XOR y;
     m \<leftarrow> ull_mask (fh_compLength f);
     Some (f\<lparr>fh_comp := comp AND ucast m\<rparr>) }"

record BranchInfo =
  bi_pathHist :: int
  bi_ptGhist :: int
  bi_hitBank :: nat
  bi_hitBankIndex :: int
  bi_altBank :: nat
  bi_altBankIndex :: int
  bi_bimodalIndex :: int
  bi_loopTag :: int
  bi_currentIter :: uint16
  bi_tagePred :: bool
  bi_altTaken :: bool
  bi_loopPred :: bool
  bi_loopPredValid :: bool
  bi_loopIndex :: int
  bi_loopHit :: int
  bi_condBranch :: bool
  bi_longestMatchPred :: bool
  bi_pseudoNewAlloc :: bool
  bi_branchPC :: Addr
  bi_tableIndices :: "int list"
  bi_tableTags :: "uint16 list"
  bi_ci :: "unsigned list"
  bi_ct0 :: "unsigned list"
  bi_ct1 :: "unsigned list"

text \<open>The five arrays are not initialised; none of them is read before it is written.\<close>

definition BranchInfo_new :: BranchInfo where
  "BranchInfo_new = \<lparr>bi_pathHist = 0, bi_ptGhist = 0, bi_hitBank = 0, bi_hitBankIndex = 0, bi_altBank = 0,
     bi_altBankIndex = 0, bi_bimodalIndex = 0, bi_loopTag = 0, bi_currentIter = 0, bi_tagePred = False, bi_altTaken = False,
     bi_loopPred = False, bi_loopPredValid = False, bi_loopIndex = 0, bi_loopHit = 0, bi_condBranch = False,
     bi_longestMatchPred = False, bi_pseudoNewAlloc = False, bi_branchPC = 0, bi_tableIndices = [], bi_tableTags = [],
     bi_ci = [], bi_ct0 = [], bi_ct1 = []\<rparr>"

text \<open>The pointer \<open>gHist\<close> into \<open>globalHistory\<close> is the index of the element it points to.\<close>

record ThreadHistory =
  lth_pathHist :: int
  lth_globalHistory :: "uint8 list"
  lth_gHist :: int
  lth_ptGhist :: int
  lth_computeIndices :: "FoldedHistory list"
  lth_computeTags0 :: "FoldedHistory list"
  lth_computeTags1 :: "FoldedHistory list"

record LTAGECfg =
  lt_numThreads :: unsigned
  lt_logSizeBiMP :: unsigned
  lt_logSizeTagTables :: unsigned
  lt_logSizeLoopPred :: unsigned
  lt_nHistoryTables :: unsigned
  lt_tagTableCounterBits :: unsigned
  lt_histBufferSize :: unsigned
  lt_minHist :: unsigned
  lt_maxHist :: unsigned
  lt_minTagWidth :: unsigned
  lt_tagWidths :: "int list"
  lt_tagTableSizes :: "int list"
  lt_histLengths :: "int list"
  lt_logTick :: int
  lt_rand :: "nat \<Rightarrow> int"

record LTAGE =
  lt_cfg :: LTAGECfg
  lt_btable :: "BimodalEntry list"
  lt_gtable :: "TageEntry list list"
  lt_ltable :: "LoopEntry list"
  lt_threadHistory :: "ThreadHistory list"
  lt_loopUseCounter :: int8
  lt_useAltPredForNewlyAllocated :: int8
  lt_tCounter :: "32 word"
  lt_draws :: nat

record LTAGEParams =
  ltp_numThreads :: unsigned
  ltp_logSizeBiMP :: unsigned
  ltp_logSizeTagTables :: unsigned
  ltp_logSizeLoopPred :: unsigned
  ltp_nHistoryTables :: unsigned
  ltp_tagTableCounterBits :: unsigned
  ltp_histBufferSize :: unsigned
  ltp_minHist :: unsigned
  ltp_maxHist :: unsigned
  ltp_minTagWidth :: unsigned

subsection \<open>The constructor\<close>

text \<open>\<open>histLengths\<close>: element 1 and the last one are set, then the elements from 2 on.\<close>

definition lt_hist_lengths :: "(nat \<Rightarrow> int) \<Rightarrow> LTAGEParams \<Rightarrow> int list option" where
  "lt_hist_lengths geom p = do {
     let n = unat (ltp_nHistoryTables p);
     hl \<leftarrow> vec_put (replicate (n + 1) 0) 1 (sint (ltp_minHist p));
     hl \<leftarrow> vec_put hl n (sint (ltp_maxHist p));
     for_up (n - 1) 2 (\<lambda>i hl. vec_put hl i (geom i)) hl }"

text \<open>\<open>tagWidths[15]\<close> and \<open>tagTableSizes[15]\<close>; \<open>junk\<close> fills the elements that are not set.\<close>

definition lt_tag_widths :: "int \<Rightarrow> LTAGEParams \<Rightarrow> int list" where
  "lt_tag_widths junk p = (let w = (\<lambda>k. sint (ltp_minTagWidth p + k)) in
     [junk, w 0, w 0, w 1, w 1, w 2, w 3, w 4, w 5, w 5, w 6, w 7, w 8, junk, junk])"

definition lt_tag_table_sizes :: "int \<Rightarrow> LTAGEParams \<Rightarrow> int list" where
  "lt_tag_table_sizes junk p = (let l = (\<lambda>k. sint (ltp_logSizeTagTables p - k)) in
     [junk, l 1, l 1, l 0, l 0, l 0, l 0, l 1, l 1, l 1, l 1, l 2, l 2, junk, junk])"

text \<open>The folded histories of one thread, for a list of compressed lengths.\<close>

definition lt_fold_inits :: "FoldedHistory \<Rightarrow> int list \<Rightarrow> int list \<Rightarrow> int \<Rightarrow> nat \<Rightarrow> FoldedHistory list option" where
  "lt_fold_inits junk hl cl d n = do {
     fs \<leftarrow> those (map (\<lambda>i. do { len \<leftarrow> vec_at hl i; l \<leftarrow> vec_at cl i; fh_init len (l - d) }) [1..<Suc n]);
     Some (junk # fs) }"

definition LTAGE_new ::
    "int \<Rightarrow> FoldedHistory \<Rightarrow> (unsigned \<Rightarrow> unsigned \<Rightarrow> unsigned \<Rightarrow> nat \<Rightarrow> int) \<Rightarrow> (nat \<Rightarrow> int) \<Rightarrow> LTAGEParams \<Rightarrow> LTAGE option" where
  "LTAGE_new junk junkf geom rand p = do {
     assert_that (ltp_histBufferSize p > ltp_maxHist p * 2);
     let n = unat (ltp_nHistoryTables p);
     let logTick = 19;
     hl \<leftarrow> lt_hist_lengths (geom (ltp_minHist p) (ltp_maxHist p) (ltp_nHistoryTables p)) p;
     let tw = lt_tag_widths junk p;
     let ts = lt_tag_table_sizes junk p;
     ci \<leftarrow> lt_fold_inits junkf hl ts 0 n;
     ct0 \<leftarrow> lt_fold_inits junkf hl tw 0 n;
     ct1 \<leftarrow> lt_fold_inits junkf hl tw 1 n;
     let th = \<lparr>lth_pathHist = 0, lth_globalHistory = replicate (unat (ltp_histBufferSize p)) 0, lth_gHist = 0,
       lth_ptGhist = 0, lth_computeIndices = ci, lth_computeTags0 = ct0, lth_computeTags1 = ct1\<rparr>;
     _ \<leftarrow> ull_mask (uint (ltp_logSizeBiMP p));
     _ \<leftarrow> ull_mask (uint (ltp_logSizeLoopPred p));
     gt \<leftarrow> those (map (\<lambda>i. do { l \<leftarrow> vec_at ts i; sz \<leftarrow> shl_int 1 l; Some (replicate (nat sz) TageEntry_default) }) [1..<Suc n]);
     Some \<lparr>lt_cfg = \<lparr>lt_numThreads = ltp_numThreads p, lt_logSizeBiMP = ltp_logSizeBiMP p,
              lt_logSizeTagTables = ltp_logSizeTagTables p, lt_logSizeLoopPred = ltp_logSizeLoopPred p,
              lt_nHistoryTables = ltp_nHistoryTables p, lt_tagTableCounterBits = ltp_tagTableCounterBits p,
              lt_histBufferSize = ltp_histBufferSize p, lt_minHist = ltp_minHist p, lt_maxHist = ltp_maxHist p,
              lt_minTagWidth = ltp_minTagWidth p, lt_tagWidths = tw, lt_tagTableSizes = ts, lt_histLengths = hl,
              lt_logTick = logTick, lt_rand = rand\<rparr>,
           lt_btable = replicate (2 ^ unat (ltp_logSizeBiMP p)) BimodalEntry_default,
           lt_gtable = [] # gt,
           lt_ltable = replicate (2 ^ unat (ltp_logSizeLoopPred p)) LoopEntry_default,
           lt_threadHistory = replicate (unat (ltp_numThreads p)) th,
           lt_loopUseCounter = 0, lt_useAltPredForNewlyAllocated = 0,
           lt_tCounter = push_bit (nat (logTick - 1)) 1, lt_draws = 0\<rparr> }"

subsection \<open>Indices and tags\<close>

definition lt_bindex :: "LTAGECfg \<Rightarrow> Addr \<Rightarrow> int option" where
  "lt_bindex c pc_in = do { m \<leftarrow> ull_mask (uint (lt_logSizeBiMP c)); Some (to_int (pc_in AND m)) }"

definition lt_lindex :: "LTAGECfg \<Rightarrow> Addr \<Rightarrow> int option" where
  "lt_lindex c pc_in = do { m \<leftarrow> ull_mask (uint (lt_logSizeLoopPred c - 2)); Some (to_int (push_bit 2 (pc_in AND m))) }"

definition lt_F :: "LTAGECfg \<Rightarrow> int \<Rightarrow> int \<Rightarrow> nat \<Rightarrow> int option" where
  "lt_F c A sz bank = do {
     m \<leftarrow> ull_mask sz;
     let A = to_int (word_of_int A AND m);
     ts \<leftarrow> vec_at (lt_tagTableSizes c) bank;
     mt \<leftarrow> ull_mask ts;
     let A1 = to_int (word_of_int A AND mt);
     A2 \<leftarrow> shr_int A ts;
     x \<leftarrow> shl_int A2 (int bank);
     y \<leftarrow> shr_int A2 (ts - int bank);
     let A2 = to_int ((word_of_int x AND mt) + word_of_int y);
     let A = A1 XOR A2;
     x \<leftarrow> shl_int A (int bank);
     y \<leftarrow> shr_int A (ts - int bank);
     Some (to_int ((word_of_int x AND mt) + word_of_int y)) }"

definition lt_gindex :: "LTAGECfg \<Rightarrow> ThreadHistory \<Rightarrow> Addr \<Rightarrow> nat \<Rightarrow> int option" where
  "lt_gindex c th pc bank = do {
     hl \<leftarrow> vec_at (lt_histLengths c) bank;
     let hlen = (if hl > 16 then 16 else hl);
     ts \<leftarrow> vec_at (lt_tagTableSizes c) bank;
     p \<leftarrow> shr_addr pc (\<bar>ts - int bank\<bar> + 1);
     f \<leftarrow> vec_at (lth_computeIndices th) bank;
     x \<leftarrow> lt_F c (lth_pathHist th) hlen bank;
     let index = to_int (pc XOR p XOR ucast (fh_comp f) XOR word_of_int x);
     m \<leftarrow> ull_mask ts;
     Some (to_int (word_of_int index AND m)) }"

definition lt_gtag :: "LTAGECfg \<Rightarrow> ThreadHistory \<Rightarrow> Addr \<Rightarrow> nat \<Rightarrow> uint16 option" where
  "lt_gtag c th pc bank = do {
     f0 \<leftarrow> vec_at (lth_computeTags0 th) bank;
     f1 \<leftarrow> vec_at (lth_computeTags1 th) bank;
     let tag = to_int (pc XOR ucast (fh_comp f0) XOR ucast (push_bit 1 (fh_comp f1)));
     tw \<leftarrow> vec_at (lt_tagWidths c) bank;
     m \<leftarrow> ull_mask tw;
     Some (ucast (word_of_int tag AND m)) }"

subsection \<open>Counters and the bimodal table\<close>

text \<open>\<open>nbits\<close> is compared with a \<open>size_t\<close>, so a negative one fails the assertion.\<close>

definition ctrUpdate :: "int8 \<Rightarrow> bool \<Rightarrow> int \<Rightarrow> int8 option" where
  "ctrUpdate ctr taken nbits = do {
     assert_that (0 \<le> nbits \<and> nbits \<le> 8);
     b \<leftarrow> shl_int 1 (nbits - 1);
     Some (if taken then (if sint ctr < b - 1 then ctr + 1 else ctr)
           else (if sint ctr > - b then ctr - 1 else ctr)) }"

definition lt_getBimodePred :: "LTAGE \<Rightarrow> BranchInfo \<Rightarrow> bool option" where
  "lt_getBimodePred s bi = do { e \<leftarrow> arr_at (lt_btable s) (bi_bimodalIndex bi); Some (bim_pred e > 0) }"

definition lt_baseUpdate :: "LTAGE \<Rightarrow> bool \<Rightarrow> BranchInfo \<Rightarrow> LTAGE option" where
  "lt_baseUpdate s taken bi = do {
     e \<leftarrow> arr_at (lt_btable s) (bi_bimodalIndex bi);
     let inter = uint (bim_pred e) * 2 + uint (bim_hyst e);
     let inter = (if taken then (if inter < 3 then inter + 1 else inter) else if inter > 0 then inter - 1 else inter);
     bt \<leftarrow> arr_put (lt_btable s) (bi_bimodalIndex bi) \<lparr>bim_pred = word_of_int (inter div 2), bim_hyst = word_of_int (inter mod 2)\<rparr>;
     Some (s\<lparr>lt_btable := bt\<rparr>) }"

subsection \<open>The loop predictor\<close>

text \<open>The search of \<open>getLoop\<close> through the ways of the set.\<close>

fun loop_search :: "LoopEntry list \<Rightarrow> BranchInfo \<Rightarrow> nat list \<Rightarrow> (bool \<times> BranchInfo) option" where
  "loop_search lt bi [] = Some (False, bi)"
| "loop_search lt bi (i # ways) = do {
     e \<leftarrow> arr_at lt (bi_loopIndex bi + int i);
     if uint (le_tag e) = bi_loopTag bi then
       Some (if uint (le_currentIterSpec e) + 1 = uint (le_numIter e) then \<not> le_dir e else le_dir e,
         bi\<lparr>bi_loopHit := int i, bi_loopPredValid := (le_confidence e \<ge> 3), bi_currentIter := le_currentIterSpec e\<rparr>)
     else loop_search lt bi ways }"

definition lt_getLoop :: "LTAGE \<Rightarrow> Addr \<Rightarrow> BranchInfo \<Rightarrow> (bool \<times> BranchInfo) option" where
  "lt_getLoop s pc bi = do {
     index \<leftarrow> lt_lindex (lt_cfg s) pc;
     tag \<leftarrow> shr64 pc (lt_logSizeLoopPred (lt_cfg s) - 2);
     loop_search (lt_ltable s)
       (bi\<lparr>bi_loopHit := - 1, bi_loopPredValid := False, bi_loopIndex := index, bi_loopTag := to_int tag\<rparr>) [0, 1, 2, 3] }"

definition lt_specLoopUpdate :: "LTAGE \<Rightarrow> Addr \<Rightarrow> bool \<Rightarrow> BranchInfo \<Rightarrow> LTAGE option" where
  "lt_specLoopUpdate s pc taken bi =
     (if bi_loopHit bi \<ge> 0 then do {
        index \<leftarrow> lt_lindex (lt_cfg s) pc;
        e \<leftarrow> arr_at (lt_ltable s) index;
        lt \<leftarrow> arr_put (lt_ltable s) index
          (if taken \<noteq> le_dir e then e\<lparr>le_currentIterSpec := 0\<rparr> else e\<lparr>le_currentIterSpec := le_currentIterSpec e + 1\<rparr>);
        Some (s\<lparr>lt_ltable := lt\<rparr>) }
      else Some s)"

text \<open>What \<open>loopUpdate\<close> does to the entry that hit.\<close>

definition loop_hit_update :: "LoopEntry \<Rightarrow> bool \<Rightarrow> BranchInfo \<Rightarrow> LoopEntry" where
  "loop_hit_update e taken bi =
     (if bi_loopPredValid bi \<and> taken \<noteq> bi_loopPred bi
      then e\<lparr>le_numIter := 0, le_age := 0, le_confidence := 0, le_currentIter := 0\<rparr>
      else
        let e = (if bi_loopPredValid bi \<and> bi_loopPred bi \<noteq> bi_tagePred bi \<and> le_age e < 7 then e\<lparr>le_age := le_age e + 1\<rparr> else e);
            e = e\<lparr>le_currentIter := le_currentIter e + 1\<rparr>;
            e = (if le_currentIter e > le_numIter e then
                   let e = e\<lparr>le_confidence := 0\<rparr> in
                   if le_numIter e \<noteq> 0 then e\<lparr>le_numIter := 0, le_age := 0, le_confidence := 0\<rparr> else e
                 else e)
        in if taken \<noteq> le_dir e then
             let e = (if le_currentIter e = le_numIter e then
                        let e = (if le_confidence e < 7 then e\<lparr>le_confidence := le_confidence e + 1\<rparr> else e) in
                        if le_numIter e < 3 then e\<lparr>le_dir := taken, le_numIter := 0, le_age := 0, le_confidence := 0\<rparr> else e
                      else if le_numIter e = 0 then e\<lparr>le_confidence := 0, le_numIter := le_currentIter e\<rparr>
                      else e\<lparr>le_numIter := 0, le_age := 0, le_confidence := 0\<rparr>)
             in e\<lparr>le_currentIter := 0\<rparr>
           else e)"

text \<open>The allocation loop of \<open>loopUpdate\<close>.\<close>

fun loop_alloc :: "LoopEntry list \<Rightarrow> bool \<Rightarrow> BranchInfo \<Rightarrow> int \<Rightarrow> nat list \<Rightarrow> LoopEntry list option" where
  "loop_alloc lt taken bi nrand [] = Some lt"
| "loop_alloc lt taken bi nrand (i # ways) = do {
     let loop_hit = (nrand + int i) AND 3;
     let idx = bi_loopIndex bi + loop_hit;
     e \<leftarrow> arr_at lt idx;
     if le_age e = 0 then
       arr_put lt idx (e\<lparr>le_dir := \<not> taken, le_tag := word_of_int (bi_loopTag bi), le_numIter := 0, le_age := 7,
         le_confidence := 0, le_currentIter := 1\<rparr>)
     else do {
       lt \<leftarrow> arr_put lt idx (e\<lparr>le_age := le_age e - 1\<rparr>);
       loop_alloc lt taken bi nrand ways } }"

definition lt_loopUpdate :: "LTAGE \<Rightarrow> bool \<Rightarrow> BranchInfo \<Rightarrow> LTAGE option" where
  "lt_loopUpdate s taken bi =
     (if bi_loopHit bi \<ge> 0 then do {
        let idx = bi_loopIndex bi + bi_loopHit bi;
        e \<leftarrow> arr_at (lt_ltable s) idx;
        lt \<leftarrow> arr_put (lt_ltable s) idx (loop_hit_update e taken bi);
        Some (s\<lparr>lt_ltable := lt\<rparr>) }
      else if taken then do {
        let nrand = lt_rand (lt_cfg s) (lt_draws s);
        lt \<leftarrow> loop_alloc (lt_ltable s) taken bi nrand [0, 1, 2, 3];
        Some (s\<lparr>lt_ltable := lt, lt_draws := lt_draws s + 1\<rparr>) }
      else Some s)"

subsection \<open>Histories\<close>

definition lt_updateGHist :: "LTAGECfg \<Rightarrow> bool \<Rightarrow> ThreadHistory \<Rightarrow> ThreadHistory option" where
  "lt_updateGHist c outcome th = do {
     th \<leftarrow> (if lth_ptGhist th = 0 then do {
         tab \<leftarrow> for_up (unat (lt_maxHist c)) 0
           (\<lambda>i tab. do { x \<leftarrow> vec_at tab i; vec_put tab (unat (lt_histBufferSize c - lt_maxHist c + of_nat i)) x })
           (lth_globalHistory th);
         let pt = sint (lt_histBufferSize c - lt_maxHist c);
         Some (th\<lparr>lth_globalHistory := tab, lth_ptGhist := pt, lth_gHist := pt\<rparr>) }
       else Some th);
     let pt = lth_ptGhist th - 1;
     let h = lth_gHist th - 1;
     tab \<leftarrow> arr_put (lth_globalHistory th) h (if outcome then 1 else 0);
     Some (th\<lparr>lth_globalHistory := tab, lth_ptGhist := pt, lth_gHist := h\<rparr>) }"

text \<open>\<open>for (i = 1; i <= nHistoryTables; i++) fs[i].update(h)\<close>, after a reset to saved values or not.\<close>

definition lt_fold_all :: "nat \<Rightarrow> uint8 list \<Rightarrow> int \<Rightarrow> FoldedHistory list \<Rightarrow> FoldedHistory list option" where
  "lt_fold_all n tab h fs = for_up n 1 (\<lambda>i fs. do { f \<leftarrow> vec_at fs i; f \<leftarrow> fh_update tab h f; vec_put fs i f }) fs"

definition lt_refold_all :: "nat \<Rightarrow> uint8 list \<Rightarrow> int \<Rightarrow> unsigned list \<Rightarrow> FoldedHistory list \<Rightarrow> FoldedHistory list option" where
  "lt_refold_all n tab h saved fs = for_up n 1
     (\<lambda>i fs. do { f \<leftarrow> vec_at fs i; v \<leftarrow> vec_at saved i; f \<leftarrow> fh_update tab h (f\<lparr>fh_comp := v\<rparr>); vec_put fs i f }) fs"

definition lt_refold :: "LTAGECfg \<Rightarrow> BranchInfo \<Rightarrow> ThreadHistory \<Rightarrow> ThreadHistory option" where
  "lt_refold c bi th = do {
     let n = unat (lt_nHistoryTables c);
     ci \<leftarrow> lt_refold_all n (lth_globalHistory th) (lth_gHist th) (bi_ci bi) (lth_computeIndices th);
     ct0 \<leftarrow> lt_refold_all n (lth_globalHistory th) (lth_gHist th) (bi_ct0 bi) (lth_computeTags0 th);
     ct1 \<leftarrow> lt_refold_all n (lth_globalHistory th) (lth_gHist th) (bi_ct1 bi) (lth_computeTags1 th);
     Some (th\<lparr>lth_computeIndices := ci, lth_computeTags0 := ct0, lth_computeTags1 := ct1\<rparr>) }"

definition lt_getGHR :: "LTAGE \<Rightarrow> ThreadID \<Rightarrow> BranchInfo option \<Rightarrow> unsigned option" where
  "lt_getGHR s tid bp_history = do {
     bi \<leftarrow> bp_history;
     th \<leftarrow> vec_at (lt_threadHistory s) (tid_index tid);
     for_up 32 0 (\<lambda>i val. do {
       let gh_offset = bi_ptGhist bi + int i;
       assert_that (gh_offset < uint (lt_histBufferSize (lt_cfg s)));
       x \<leftarrow> arr_at (lth_globalHistory th) gh_offset;
       Some (val OR push_bit i (ucast x AND 1)) }) 0 }"

definition lt_updateHistories :: "LTAGE \<Rightarrow> ThreadID \<Rightarrow> Addr \<Rightarrow> bool \<Rightarrow> BranchInfo \<Rightarrow> (BranchInfo \<times> LTAGE) option" where
  "lt_updateHistories s tid branch_pc taken bi = do {
     let n = unat (lt_nHistoryTables (lt_cfg s));
     th \<leftarrow> vec_at (lt_threadHistory s) (tid_index tid);
     let pathbit = of_bool (bit branch_pc 0);
     th \<leftarrow> lt_updateGHist (lt_cfg s) taken th;
     let th = th\<lparr>lth_pathHist := (push_bit 1 (lth_pathHist th) + pathbit) AND mask 16\<rparr>;
     let bi = bi\<lparr>bi_ptGhist := lth_ptGhist th, bi_pathHist := lth_pathHist th,
       bi_ci := map fh_comp (lth_computeIndices th), bi_ct0 := map fh_comp (lth_computeTags0 th),
       bi_ct1 := map fh_comp (lth_computeTags1 th)\<rparr>;
     ci \<leftarrow> lt_fold_all n (lth_globalHistory th) (lth_gHist th) (lth_computeIndices th);
     ct0 \<leftarrow> lt_fold_all n (lth_globalHistory th) (lth_gHist th) (lth_computeTags0 th);
     ct1 \<leftarrow> lt_fold_all n (lth_globalHistory th) (lth_gHist th) (lth_computeTags1 th);
     ths \<leftarrow> vec_put (lt_threadHistory s) (tid_index tid)
       (th\<lparr>lth_computeIndices := ci, lth_computeTags0 := ct0, lth_computeTags1 := ct1\<rparr>);
     Some (bi, s\<lparr>lt_threadHistory := ths\<rparr>) }"

text \<open>The part the two \<open>squash\<close> functions share: the iteration counter of the loop entry.\<close>

definition lt_squash_loop :: "LTAGE \<Rightarrow> BranchInfo \<Rightarrow> LTAGE option" where
  "lt_squash_loop s bi =
     (if bi_condBranch bi \<and> bi_loopHit bi \<ge> 0 then do {
        let idx = bi_loopIndex bi + bi_loopHit bi;
        e \<leftarrow> arr_at (lt_ltable s) idx;
        lt \<leftarrow> arr_put (lt_ltable s) idx (e\<lparr>le_currentIterSpec := bi_currentIter bi\<rparr>);
        Some (s\<lparr>lt_ltable := lt\<rparr>) }
      else Some s)"

definition lt_squash_taken :: "LTAGE \<Rightarrow> ThreadID \<Rightarrow> bool \<Rightarrow> BranchInfo \<Rightarrow> LTAGE option" where
  "lt_squash_taken s tid taken bi = do {
     th \<leftarrow> vec_at (lt_threadHistory s) (tid_index tid);
     let th = th\<lparr>lth_pathHist := bi_pathHist bi, lth_ptGhist := bi_ptGhist bi, lth_gHist := bi_ptGhist bi\<rparr>;
     tab \<leftarrow> arr_put (lth_globalHistory th) (lth_gHist th) (if taken then 1 else 0);
     th \<leftarrow> lt_refold (lt_cfg s) bi (th\<lparr>lth_globalHistory := tab\<rparr>);
     ths \<leftarrow> vec_put (lt_threadHistory s) (tid_index tid) th;
     lt_squash_loop (s\<lparr>lt_threadHistory := ths\<rparr>) bi }"

definition lt_squash :: "LTAGE \<Rightarrow> ThreadID \<Rightarrow> BranchInfo option \<Rightarrow> LTAGE option" where
  "lt_squash s tid bp_history = do { bi \<leftarrow> bp_history; lt_squash_loop s bi }"

definition lt_btbUpdate :: "LTAGE \<Rightarrow> ThreadID \<Rightarrow> Addr \<Rightarrow> BranchInfo option \<Rightarrow> LTAGE option" where
  "lt_btbUpdate s tid branch_pc bp_history = do {
     bi \<leftarrow> bp_history;
     th \<leftarrow> vec_at (lt_threadHistory s) (tid_index tid);
     assert_that (lth_gHist th = lth_ptGhist th);
     tab \<leftarrow> arr_put (lth_globalHistory th) (lth_gHist th) 0;
     th \<leftarrow> lt_refold (lt_cfg s) bi (th\<lparr>lth_globalHistory := tab\<rparr>);
     ths \<leftarrow> vec_put (lt_threadHistory s) (tid_index tid) th;
     Some (s\<lparr>lt_threadHistory := ths\<rparr>) }"

subsection \<open>Prediction\<close>

definition lt_entry :: "TageEntry list list \<Rightarrow> nat \<Rightarrow> int \<Rightarrow> TageEntry option" where
  "lt_entry gtable bank index = do { t \<leftarrow> vec_at gtable bank; arr_at t index }"

text \<open>The search for the longest matching history from \<open>bank\<close> on downwards; 0 when there is none.\<close>

fun lt_match :: "TageEntry list list \<Rightarrow> int list \<Rightarrow> uint16 list \<Rightarrow> nat \<Rightarrow> nat option" where
  "lt_match gtable indices tags 0 = Some 0"
| "lt_match gtable indices tags (Suc i) = do {
     j \<leftarrow> vec_at indices (Suc i);
     e \<leftarrow> lt_entry gtable (Suc i) j;
     tag \<leftarrow> vec_at tags (Suc i);
     if te_tag e = tag then Some (Suc i) else lt_match gtable indices tags i }"

text \<open>\<open>abs(2 * ctr + 1)\<close>, which is 1 for a weak counter.\<close>

definition ctr_strength :: "TageEntry \<Rightarrow> int" where
  "ctr_strength e = \<bar>2 * sint (te_ctr e) + 1\<bar>"

text \<open>The TAGE part of \<open>predict\<close>, which fills the \<open>BranchInfo\<close>.\<close>

definition lt_tage_predict :: "LTAGE \<Rightarrow> ThreadHistory \<Rightarrow> Addr \<Rightarrow> BranchInfo \<Rightarrow> BranchInfo option" where
  "lt_tage_predict s th pc bi = do {
     let c = lt_cfg s;
     let n = unat (lt_nHistoryTables c);
     is \<leftarrow> those (map (lt_gindex c th pc) [1..<Suc n]);
     tags \<leftarrow> those (map (lt_gtag c th pc) [1..<Suc n]);
     bindex \<leftarrow> lt_bindex c pc;
     let bi = bi\<lparr>bi_tableIndices := 0 # is, bi_tableTags := 0 # tags, bi_bimodalIndex := bindex\<rparr>;
     hit \<leftarrow> lt_match (lt_gtable s) (0 # is) (0 # tags) n;
     alt \<leftarrow> lt_match (lt_gtable s) (0 # is) (0 # tags) (hit - 1);
     let bi = bi\<lparr>bi_hitBank := hit, bi_hitBankIndex := (if hit > 0 then (0 # is) ! hit else bi_hitBankIndex bi),
       bi_altBank := alt, bi_altBankIndex := (if alt > 0 then (0 # is) ! alt else bi_altBankIndex bi)\<rparr>;
     if hit > 0 then do {
       altTaken \<leftarrow> (if alt > 0 then do { e \<leftarrow> lt_entry (lt_gtable s) alt (bi_altBankIndex bi); Some (sint (te_ctr e) \<ge> 0) }
                   else lt_getBimodePred s bi);
       e \<leftarrow> lt_entry (lt_gtable s) hit (bi_hitBankIndex bi);
       let longest = (sint (te_ctr e) \<ge> 0);
       Some (bi\<lparr>bi_altTaken := altTaken, bi_longestMatchPred := longest, bi_pseudoNewAlloc := (ctr_strength e \<le> 1),
         bi_tagePred := (if sint (lt_useAltPredForNewlyAllocated s) < 0 \<or> ctr_strength e > 1 then longest else altTaken)\<rparr>) }
     else do {
       altTaken \<leftarrow> lt_getBimodePred s bi;
       Some (bi\<lparr>bi_altTaken := altTaken, bi_tagePred := altTaken, bi_longestMatchPred := altTaken\<rparr>) } }"

definition lt_predict :: "LTAGE \<Rightarrow> ThreadID \<Rightarrow> Addr \<Rightarrow> bool \<Rightarrow> (bool \<times> BranchInfo \<times> LTAGE) option" where
  "lt_predict s tid branch_pc cond = do {
     let bi = BranchInfo_new\<lparr>bi_loopHit := - 1\<rparr>;
     (pred_taken, bi) \<leftarrow>
       (if cond then do {
          th \<leftarrow> vec_at (lt_threadHistory s) (tid_index tid);
          bi \<leftarrow> lt_tage_predict s th branch_pc bi;
          (loopPred, bi) \<leftarrow> lt_getLoop s branch_pc bi;
          let bi = bi\<lparr>bi_loopPred := loopPred\<rparr>;
          Some (if sint (lt_loopUseCounter s) \<ge> 0 \<and> bi_loopPredValid bi then bi_loopPred bi else bi_tagePred bi, bi) }
        else Some (True, bi));
     let bi = bi\<lparr>bi_branchPC := branch_pc, bi_condBranch := cond\<rparr>;
     s \<leftarrow> lt_specLoopUpdate s branch_pc pred_taken bi;
     Some (pred_taken, bi, s) }"

definition lt_lookup :: "LTAGE \<Rightarrow> ThreadID \<Rightarrow> Addr \<Rightarrow> (bool \<times> BranchInfo option \<times> LTAGE) option" where
  "lt_lookup s tid branch_pc = do {
     (retval, bi, s) \<leftarrow> lt_predict s tid branch_pc True;
     (bi, s) \<leftarrow> lt_updateHistories s tid branch_pc retval bi;
     th \<leftarrow> vec_at (lt_threadHistory s) (tid_index tid);
     assert_that (lth_gHist th = lth_ptGhist th);
     Some (retval, Some bi, s) }"

definition lt_uncondBranch :: "LTAGE \<Rightarrow> ThreadID \<Rightarrow> Addr \<Rightarrow> (BranchInfo option \<times> LTAGE) option" where
  "lt_uncondBranch s tid br_pc = do {
     (_, bi, s) \<leftarrow> lt_predict s tid br_pc False;
     (bi, s) \<leftarrow> lt_updateHistories s tid br_pc True bi;
     th \<leftarrow> vec_at (lt_threadHistory s) (tid_index tid);
     assert_that (lth_gHist th = lth_ptGhist th);
     Some (Some bi, s) }"

subsection \<open>Update\<close>

definition lt_entry_upd ::
    "(TageEntry \<Rightarrow> TageEntry option) \<Rightarrow> nat \<Rightarrow> int \<Rightarrow> TageEntry list list \<Rightarrow> TageEntry list list option" where
  "lt_entry_upd f bank index gtable = do {
     t \<leftarrow> vec_at gtable bank;
     e \<leftarrow> arr_at t index;
     e \<leftarrow> f e;
     t \<leftarrow> arr_put t index e;
     vec_put gtable bank t }"

text \<open>The smallest \<open>u\<close> of the entries of the longer histories, at most 1.\<close>

fun lt_min_u :: "TageEntry list list \<Rightarrow> BranchInfo \<Rightarrow> nat list \<Rightarrow> int8 \<Rightarrow> int8 option" where
  "lt_min_u gtable bi [] m = Some m"
| "lt_min_u gtable bi (i # banks) m = do {
     j \<leftarrow> vec_at (bi_tableIndices bi) i;
     e \<leftarrow> lt_entry gtable i j;
     lt_min_u gtable bi banks (if sint (te_u e) < sint m then te_u e else m) }"

text \<open>The bank the allocation starts with: the next one, or one or two further on.\<close>

definition lt_start_bank :: "nat \<Rightarrow> nat \<Rightarrow> int \<Rightarrow> nat option" where
  "lt_start_bank n hitBank nrand = do {
     m \<leftarrow> ull_mask (int n - int hitBank - 1);
     let Y = nrand AND uint m;
     Some (if Y AND 1 \<noteq> 0 then (if Y AND 2 \<noteq> 0 then hitBank + 3 else hitBank + 2) else hitBank + 1) }"

definition lt_allocate :: "nat \<Rightarrow> bool \<Rightarrow> BranchInfo \<Rightarrow> int \<Rightarrow> TageEntry list list \<Rightarrow> TageEntry list list option" where
  "lt_allocate n taken bi nrand gtable = do {
     m \<leftarrow> lt_min_u gtable bi (rev [Suc (bi_hitBank bi)..<Suc n]) 1;
     X \<leftarrow> lt_start_bank n (bi_hitBank bi) nrand;
     gtable \<leftarrow> (if sint m > 0 then do {
         j \<leftarrow> vec_at (bi_tableIndices bi) X;
         lt_entry_upd (\<lambda>e. Some (e\<lparr>te_u := 0\<rparr>)) X j gtable }
       else Some gtable);
     for_up (Suc n - X) X (\<lambda>i gtable. do {
       j \<leftarrow> vec_at (bi_tableIndices bi) i;
       tag \<leftarrow> vec_at (bi_tableTags bi) i;
       lt_entry_upd (\<lambda>e. Some (if te_u e = 0 then e\<lparr>te_tag := tag, te_ctr := (if taken then 0 else - 1), te_u := 0\<rparr> else e))
         i j gtable }) gtable }"

text \<open>The periodic ageing of the useful counters, \<open>u >> 1\<close> on the whole of every table.\<close>

definition lt_age_u :: "LTAGECfg \<Rightarrow> TageEntry list list \<Rightarrow> TageEntry list list option" where
  "lt_age_u c gtable = for_up (unat (lt_nHistoryTables c)) 1 (\<lambda>i gtable. do {
     ts \<leftarrow> vec_at (lt_tagTableSizes c) i;
     m \<leftarrow> ull_mask ts;
     for_up (unat m + 1) 0 (\<lambda>j. lt_entry_upd (\<lambda>e. Some (e\<lparr>te_u := signed_drop_bit 1 (te_u e)\<rparr>)) i (int j)) gtable }) gtable"

text \<open>\<open>useAltPredForNewlyAllocated\<close>, for a hit on a newly allocated entry.\<close>

definition lt_use_alt :: "LTAGE \<Rightarrow> bool \<Rightarrow> BranchInfo \<Rightarrow> LTAGE option" where
  "lt_use_alt s taken bi =
     (if bi_hitBank bi > 0 \<and> bi_pseudoNewAlloc bi \<and> bi_longestMatchPred bi \<noteq> bi_altTaken bi then do {
        v \<leftarrow> ctrUpdate (lt_useAltPredForNewlyAllocated s) (bi_altTaken bi = taken) 4;
        Some (s\<lparr>lt_useAltPredForNewlyAllocated := v\<rparr>) }
      else Some s)"

text \<open>The counters of the provider, of the alternate provider and of the bimodal table.\<close>

definition lt_train :: "LTAGE \<Rightarrow> bool \<Rightarrow> BranchInfo \<Rightarrow> LTAGE option" where
  "lt_train s taken bi =
     (if bi_hitBank bi > 0 then do {
        let upd = (\<lambda>e. do { v \<leftarrow> ctrUpdate (te_ctr e) taken (sint (lt_tagTableCounterBits (lt_cfg s))); Some (e\<lparr>te_ctr := v\<rparr>) });
        g \<leftarrow> lt_entry_upd upd (bi_hitBank bi) (bi_hitBankIndex bi) (lt_gtable s);
        let s = s\<lparr>lt_gtable := g\<rparr>;
        e \<leftarrow> lt_entry g (bi_hitBank bi) (bi_hitBankIndex bi);
        s \<leftarrow> (if te_u e = 0 then
               if bi_altBank bi > 0 then do {
                 g \<leftarrow> lt_entry_upd upd (bi_altBank bi) (bi_altBankIndex bi) (lt_gtable s);
                 Some (s\<lparr>lt_gtable := g\<rparr>) }
               else lt_baseUpdate s taken bi
             else Some s);
        if bi_longestMatchPred bi \<noteq> bi_altTaken bi \<and> bi_longestMatchPred bi = taken then do {
          g \<leftarrow> lt_entry_upd (\<lambda>e. Some (if sint (te_u e) < 1 then e\<lparr>te_u := te_u e + 1\<rparr> else e))
                 (bi_hitBank bi) (bi_hitBankIndex bi) (lt_gtable s);
          Some (s\<lparr>lt_gtable := g\<rparr>) }
        else Some s }
      else lt_baseUpdate s taken bi)"

definition lt_update :: "LTAGE \<Rightarrow> ThreadID \<Rightarrow> Addr \<Rightarrow> bool \<Rightarrow> BranchInfo option \<Rightarrow> bool \<Rightarrow> LTAGE option" where
  "lt_update s tid branch_pc taken bp_history squashed = do {
     bi \<leftarrow> bp_history;
     if squashed then lt_squash_taken s tid taken bi
     else do {
       let c = lt_cfg s;
       let n = unat (lt_nHistoryTables c);
       let nrand = lt_rand c (lt_draws s) mod 4;
       let s = s\<lparr>lt_draws := lt_draws s + 1\<rparr>;
       if bi_condBranch bi then do {
         s \<leftarrow> lt_loopUpdate s taken bi;
         s \<leftarrow> (if bi_loopPredValid bi \<and> bi_tagePred bi \<noteq> bi_loopPred bi then do {
                v \<leftarrow> ctrUpdate (lt_loopUseCounter s) (bi_loopPred bi = taken) 7;
                Some (s\<lparr>lt_loopUseCounter := v\<rparr>) }
              else Some s);
         let alloc = (bi_tagePred bi \<noteq> taken \<and> bi_hitBank bi < n \<and>
           \<not> (bi_hitBank bi > 0 \<and> bi_pseudoNewAlloc bi \<and> bi_longestMatchPred bi = taken));
         s \<leftarrow> lt_use_alt s taken bi;
         g \<leftarrow> (if alloc then lt_allocate n taken bi nrand (lt_gtable s) else Some (lt_gtable s));
         let s = s\<lparr>lt_gtable := g, lt_tCounter := lt_tCounter s + 1\<rparr>;
         m \<leftarrow> ull_mask (lt_logTick c);
         g \<leftarrow> (if (signed (lt_tCounter s) :: Addr) AND m = 0 then lt_age_u c (lt_gtable s) else Some (lt_gtable s));
         lt_train (s\<lparr>lt_gtable := g\<rparr>) taken bi }
       else Some s } }"

definition LTAGEDir :: "(LTAGE, BranchInfo) DirPred" where
  "LTAGEDir = \<lparr>dp_lookup = lt_lookup, dp_uncondBranch = lt_uncondBranch, dp_btbUpdate = lt_btbUpdate,
     dp_update = lt_update, dp_squash = lt_squash, dp_getGHR = lt_getGHR\<rparr>"

lemma LTAGEDir_simps [simp]:
  "dp_lookup LTAGEDir = lt_lookup" "dp_uncondBranch LTAGEDir = lt_uncondBranch" "dp_btbUpdate LTAGEDir = lt_btbUpdate"
  "dp_update LTAGEDir = lt_update" "dp_squash LTAGEDir = lt_squash" "dp_getGHR LTAGEDir = lt_getGHR"
  by (simp_all add: LTAGEDir_def)

end
