(* ===== verification/Ltage_Fold.thy ===== *)
theory Ltage_Fold
  imports Ltage
begin

text \<open>
  The folded histories of L-TAGE. \<open>FoldedHistory::update\<close> keeps, in constant time, the exclusive
  or of the last \<open>origLength\<close> outcomes, each shifted to its age modulo \<open>compLength\<close>. The reference
  \<open>hist_fold\<close> computes it from the outcomes themselves.
\<close>

primrec hist_fold :: "nat \<Rightarrow> (nat \<Rightarrow> bool) \<Rightarrow> nat \<Rightarrow> unsigned" where
  "hist_fold L f 0 = 0"
| "hist_fold L f (Suc n) = hist_fold L f n XOR push_bit (n mod L) (of_bool (f n))"

text \<open>Rotation of the lowest \<open>L\<close> bits by one.\<close>

definition rot :: "nat \<Rightarrow> unsigned \<Rightarrow> unsigned" where
  "rot L c = (push_bit 1 c XOR drop_bit L (push_bit 1 c)) AND mask L"

lemma bit_push_of_bool: "bit (push_bit k (of_bool b) :: unsigned) j \<longleftrightarrow> j = k \<and> b \<and> j < 32"
  by (auto simp: bit_push_bit_iff bit_of_bool_iff possible_bit_word)

lemma rot_xor: "rot L (x XOR y) = rot L x XOR rot L y"
  by (rule bit_word_eqI) (auto simp: rot_def bit_simps)

lemma rot_push:
  assumes "k < L" and "L < 32"
  shows "rot L (push_bit k (of_bool b)) = push_bit (Suc k mod L) (of_bool b)"
proof (rule bit_word_eqI)
  fix j assume "j < LENGTH(32)"
  then show "bit (rot L (push_bit k (of_bool b))) j = bit (push_bit (Suc k mod L) (of_bool b) :: unsigned) j"
    using assms by (cases "Suc k = L") (auto simp: rot_def bit_simps bit_push_of_bool)
qed

lemma hist_fold_bound: "0 < L \<Longrightarrow> L < 32 \<Longrightarrow> bit (hist_fold L f n) j \<Longrightarrow> j < L"
  by (induction n) (auto simp: bit_xor_iff bit_push_of_bool)

lemma hist_fold_cong: "(\<And>i. i < n \<Longrightarrow> f i = g i) \<Longrightarrow> hist_fold L f n = hist_fold L g n"
  by (induction n) auto

lemma hist_fold_shift:
  assumes "0 < L" and "L < 32"
  shows "hist_fold L g (Suc n) = of_bool (g 0) XOR rot L (hist_fold L (\<lambda>i. g (Suc i)) n)"
proof (induction n)
  case 0
  have "rot L 0 = 0" by (simp add: rot_def)
  then show ?case by simp
next
  case (Suc n)
  have "rot L (push_bit (n mod L) (of_bool (g (Suc n)))) = push_bit (Suc n mod L) (of_bool (g (Suc n)))"
    using rot_push [of "n mod L" L "g (Suc n)"] assms by (simp add: mod_Suc_eq)
  then show ?case
    using Suc by (simp only: hist_fold.simps(2) [of L g "Suc n"] hist_fold.simps(2) [of L _ n] rot_xor ac_simps)
qed

text \<open>One step of the code on the bits of the register.\<close>

lemma fold_step_aux:
  fixes e :: unsigned
  assumes "0 < L" and "L < 32" and "k < L" and "\<not> bit e 0"
  shows "(let d = (e OR of_bool b) XOR push_bit k (of_bool x) in (d XOR drop_bit L d) AND mask L) =
    of_bool b XOR ((e XOR drop_bit L e) AND mask L) XOR push_bit k (of_bool x)"
proof (rule bit_word_eqI)
  fix j assume j: "j < LENGTH(32)"
  show "bit (let d = (e OR of_bool b) XOR push_bit k (of_bool x) in (d XOR drop_bit L d) AND mask L) j =
    bit (of_bool b XOR ((e XOR drop_bit L e) AND mask L) XOR push_bit k (of_bool x)) j"
    using assms j by (cases "j = 0") (auto simp: Let_def bit_simps bit_push_of_bool)
qed

lemma fold_step:
  assumes "0 < L" and "L < 32" and "k < L"
  shows "(let d = (push_bit 1 c OR of_bool b) XOR push_bit k (of_bool x) in (d XOR drop_bit L d) AND mask L) =
    of_bool b XOR rot L c XOR push_bit k (of_bool x)"
  unfolding rot_def by (rule fold_step_aux [OF assms]) (simp add: bit_push_bit_iff del: push_bit_Suc)

definition outcome_at :: "uint8 list \<Rightarrow> int \<Rightarrow> nat \<Rightarrow> bool" where
  "outcome_at tab h i = (tab ! nat (h + int i) = 1)"

definition bits_ok :: "uint8 list \<Rightarrow> bool" where
  "bits_ok tab = list_all (\<lambda>x. x = 0 \<or> x = 1) tab"

text \<open>The dimensions of a folded history.\<close>

definition fh_ok :: "int \<Rightarrow> int \<Rightarrow> FoldedHistory \<Rightarrow> bool" where
  "fh_ok len L f \<longleftrightarrow> 0 < L \<and> L < 32 \<and> 0 \<le> len \<and> fh_compLength f = L \<and> fh_origLength f = len \<and> fh_outpoint f = len mod L"

lemma fh_init_ok: "0 < L \<Longrightarrow> L < 32 \<Longrightarrow> 0 \<le> len \<Longrightarrow> \<exists>f. fh_init len L = Some f \<and> fh_ok len L f \<and> fh_comp f = 0"
  by (simp add: fh_init_def fh_ok_def fault_simps smod_int_alt_def sgn_if)

lemma bits_ok_at:
  assumes "bits_ok tab" and "0 \<le> i" and "nat i < length tab"
  shows "(ucast (tab ! nat i) :: unsigned) = of_bool (tab ! nat i = 1)" and "uint (tab ! nat i) = of_bool (tab ! nat i = 1)"
  using assms by (auto simp: bits_ok_def list_all_length)

lemma shl_bit: "0 \<le> k \<Longrightarrow> k < 31 \<Longrightarrow> shl_int (of_bool x) k = Some (push_bit (nat k) (of_bool x))"
proof -
  assume k: "0 \<le> k" "k < 31"
  then have "(2::int) ^ nat k < 2 ^ 31" by (intro power_strict_increasing) auto
  then show ?thesis using k by (cases x) (auto simp: shl_int_def)
qed

lemma fh_update_eq:
  assumes "fh_ok len L f" and "bits_ok tab" and "0 \<le> h" and "nat (h + len) < length tab"
  shows "fh_update tab h f = Some (f\<lparr>fh_comp := of_bool (outcome_at tab h 0) XOR rot (nat L) (fh_comp f) XOR
    push_bit (nat (len mod L)) (of_bool (outcome_at tab h (nat len)))\<rparr>)"
proof -
  have L: "0 < L" "L < 32" "0 \<le> len" and f: "fh_compLength f = L" "fh_origLength f = len" "fh_outpoint f = len mod L"
    using assms(1) by (simp_all add: fh_ok_def)
  have k: "0 \<le> len mod L" "len mod L < L" using L by simp_all
  have k31: "len mod L < 31" using k(2) L(2) by linarith
  have h: "nat h < length tab" "0 \<le> h + len" using assms(3,4) L by linarith+
  note b = bits_ok_at [OF assms(2,3) h(1)] bits_ok_at [OF assms(2) h(2) assms(4)]
  have o: "outcome_at tab h 0 = (tab ! nat h = 1)" "outcome_at tab h (nat len) = (tab ! nat (h + len) = 1)"
    using L by (simp_all add: outcome_at_def)
  have s: "shl_int (of_bool x) (len mod L) = Some (push_bit (nat (len mod L)) (of_bool x))" for x
    by (rule shl_bit [OF k(1) k31])
  have w: "(word_of_int (push_bit m (of_bool x)) :: unsigned) = push_bit m (of_bool x)" for m x
    by (cases x) (simp_all add: push_bit_eq_mult)
  have m: "ull_mask L = Some (push_bit (nat L) 1 - 1)" "(ucast (push_bit (nat L) 1 - 1 :: Addr) :: unsigned) = mask (nat L)"
    using L ucast_mask64 [of "nat L"] by (simp_all add: ull_mask_def mask64_def mask_eq_exp_minus_1)
  have L': "0 < nat L" "nat L < 32" "nat (len mod L) < nat L" using L k by simp_all
  show ?thesis
    unfolding fh_update_def f arr_at_Some [OF assms(3) h(1)] arr_at_Some [OF h(2) assms(4)] Option.bind.simps Let_def b s w m
    using L fold_step [OF L'] by (simp add: shr_unsigned_def o Let_def)
qed

lemma xor_cancel: "(x :: unsigned) XOR p = y XOR z \<Longrightarrow> x = y XOR z XOR p"
proof -
  assume "x XOR p = y XOR z"
  then have "(x XOR p) XOR p = (y XOR z) XOR p" by (rule arg_cong)
  then show ?thesis by (simp only: xor.assoc xor_self_eq xor.right_neutral)
qed

text \<open>The register keeps being the fold of the history, one outcome further on.\<close>

lemma fh_update_fold:
  assumes "fh_ok len L f" and "bits_ok tab" and "0 \<le> h" and "nat (h + len) < length tab"
    and "fh_comp f = hist_fold (nat L) (outcome_at tab (h + 1)) (nat len)"
  shows "fh_update tab h f = Some (f\<lparr>fh_comp := hist_fold (nat L) (outcome_at tab h) (nat len)\<rparr>)"
proof -
  let ?g = "outcome_at tab h"
  have L: "0 < nat L" "nat L < 32" "0 \<le> len" "0 < L" using assms(1) by (simp_all add: fh_ok_def nat_less_iff)
  have "outcome_at tab (h + 1) = (\<lambda>i. ?g (Suc i))" by (rule ext) (simp add: outcome_at_def algebra_simps)
  then have "hist_fold (nat L) ?g (Suc (nat len)) = of_bool (?g 0) XOR rot (nat L) (fh_comp f)"
    using hist_fold_shift [OF L(1,2), of ?g "nat len"] assms(5) by simp
  then have "hist_fold (nat L) ?g (nat len) =
      of_bool (?g 0) XOR rot (nat L) (fh_comp f) XOR push_bit (nat len mod nat L) (of_bool (?g (nat len)))"
    unfolding hist_fold.simps(2) by (rule xor_cancel)
  moreover have "nat (len mod L) = nat len mod nat L" using L by (simp add: nat_mod_distrib)
  ultimately show ?thesis by (simp add: fh_update_eq [OF assms(1-4)])
qed

end
