(* ===== verification/Ltage_Safety.thy ===== *)
theory Ltage_Safety
  imports Ltage_Fold
begin

text \<open>
  The invariant of L-TAGE and the contract of the base class: under conditions on the
  parameters that keep all table sizes, widths and shifts in range, no operation faults.
\<close>

subsection \<open>Masks and indices\<close>

lemma ull_mask_eq: "0 \<le> n \<Longrightarrow> n < 64 \<Longrightarrow> ull_mask n = Some (mask (nat n))"
  by (simp add: ull_mask_def mask_eq_exp_minus_1)

lemma sint_small: "uint (x :: 32 word) < 2 ^ 31 \<Longrightarrow> sint x = uint x"
proof -
  assume "uint x < 2 ^ 31"
  moreover have "- (2 ^ 31) \<le> uint x" by (rule order_trans [OF _ uint_ge_0]) simp
  ultimately have "signed_take_bit 31 (uint x) = uint x" by (intro signed_take_bit_int_eq_self) simp_all
  then show ?thesis by (simp add: sint_uint)
qed

lemma uint_ucast32: "uint (x :: Addr) < 2 ^ 32 \<Longrightarrow> uint (ucast x :: 32 word) = uint x"
  by (simp add: unsigned_ucast_eq take_bit_int_eq_self)

lemma to_int_small: "uint x < 2 ^ 31 \<Longrightarrow> to_int x = uint x"
  using sint_small [of "ucast x"] uint_ucast32 [of x] by (simp add: to_int_def)

lemma uint_and_mask: "uint ((x :: Addr) AND mask k) = take_bit k (uint x)"
  by (simp add: take_bit_eq_mask [symmetric] unsigned_take_bit_eq)

lemma to_int_mask:
  assumes "k \<le> 31"
  shows "to_int (x AND mask k) = take_bit k (uint x)"
proof -
  have "take_bit k (uint x) < 2 ^ k" by simp
  also have "(2::int) ^ k \<le> 2 ^ 31" using assms by (intro power_increasing) auto
  finally show ?thesis by (simp add: to_int_small uint_and_mask)
qed

lemma to_int_mask_range: "k \<le> 31 \<Longrightarrow> 0 \<le> to_int (x AND mask k) \<and> to_int (x AND mask k) < 2 ^ k"
  by (simp add: to_int_mask)

subsection \<open>Well-formed states\<close>

definition lt_bank_ok :: "LTAGECfg \<Rightarrow> nat \<Rightarrow> bool" where
  "lt_bank_ok c i \<longleftrightarrow> int i \<le> lt_tagTableSizes c ! i \<and> lt_tagTableSizes c ! i \<le> 30 \<and>
     2 \<le> lt_tagWidths c ! i \<and> lt_tagWidths c ! i \<le> 31 \<and>
     0 \<le> lt_histLengths c ! i \<and> lt_histLengths c ! i \<le> uint (lt_maxHist c)"

abbreviation lt_n :: "LTAGECfg \<Rightarrow> nat" where
  "lt_n c \<equiv> unat (lt_nHistoryTables c)"

definition lt_cfg_ok :: "LTAGECfg \<Rightarrow> bool" where
  "lt_cfg_ok c \<longleftrightarrow> 1 \<le> lt_n c \<and> lt_n c \<le> 12 \<and>
     length (lt_tagWidths c) = 15 \<and> length (lt_tagTableSizes c) = 15 \<and> length (lt_histLengths c) = lt_n c + 1 \<and>
     list_all (lt_bank_ok c) [1..<Suc (lt_n c)] \<and>
     unat (lt_logSizeBiMP c) \<le> 31 \<and> 2 \<le> unat (lt_logSizeLoopPred c) \<and> unat (lt_logSizeLoopPred c) \<le> 31 \<and>
     1 \<le> uint (lt_tagTableCounterBits c) \<and> uint (lt_tagTableCounterBits c) \<le> 8 \<and>
     31 \<le> uint (lt_maxHist c) \<and> 2 * uint (lt_maxHist c) < uint (lt_histBufferSize c) \<and>
     uint (lt_histBufferSize c) < 2 ^ 31 \<and> lt_logTick c = 19"

lemma lt_bank:
  assumes "lt_cfg_ok c" and "1 \<le> i" and "i \<le> lt_n c"
  shows "lt_bank_ok c i" and "i \<le> 12" and "i < length (lt_tagWidths c)" and "i < length (lt_tagTableSizes c)"
    and "i < length (lt_histLengths c)"
proof -
  have c: "lt_n c \<le> 12" "length (lt_tagWidths c) = 15" "length (lt_tagTableSizes c) = 15" "length (lt_histLengths c) = lt_n c + 1"
    "list_all (lt_bank_ok c) [1..<Suc (lt_n c)]"
    using assms(1) by (simp_all only: lt_cfg_ok_def)
  have "i \<in> set [1..<Suc (lt_n c)]" using assms(2,3) by auto
  then show "lt_bank_ok c i" using c(5) by (simp only: list_all_iff)
  show "i \<le> 12" "i < length (lt_tagWidths c)" "i < length (lt_tagTableSizes c)" "i < length (lt_histLengths c)"
    using assms(3) c(1-4) by linarith+
qed

text \<open>A list of folded histories, with the compressed lengths \<open>cl\<close>.\<close>

definition lt_folds_ok :: "LTAGECfg \<Rightarrow> (nat \<Rightarrow> int) \<Rightarrow> FoldedHistory list \<Rightarrow> bool" where
  "lt_folds_ok c cl fs \<longleftrightarrow> length fs = lt_n c + 1 \<and> (\<forall>i. 1 \<le> i \<longrightarrow> i \<le> lt_n c \<longrightarrow> fh_ok (lt_histLengths c ! i) (cl i) (fs ! i))"

definition lt_pt_ok :: "LTAGECfg \<Rightarrow> int \<Rightarrow> bool" where
  "lt_pt_ok c pt \<longleftrightarrow> 0 \<le> pt \<and> pt + uint (lt_maxHist c) < uint (lt_histBufferSize c)"

definition lt_th_ok :: "LTAGECfg \<Rightarrow> ThreadHistory \<Rightarrow> bool" where
  "lt_th_ok c th \<longleftrightarrow> length (lth_globalHistory th) = unat (lt_histBufferSize c) \<and> bits_ok (lth_globalHistory th) \<and>
     lth_gHist th = lth_ptGhist th \<and> lt_pt_ok c (lth_ptGhist th) \<and> 0 \<le> lth_pathHist th \<and> lth_pathHist th < 2 ^ 16 \<and>
     lt_folds_ok c (\<lambda>i. lt_tagTableSizes c ! i) (lth_computeIndices th) \<and>
     lt_folds_ok c (\<lambda>i. lt_tagWidths c ! i) (lth_computeTags0 th) \<and>
     lt_folds_ok c (\<lambda>i. lt_tagWidths c ! i - 1) (lth_computeTags1 th)"

definition lt_gtable_ok :: "LTAGECfg \<Rightarrow> TageEntry list list \<Rightarrow> bool" where
  "lt_gtable_ok c g \<longleftrightarrow> length g = lt_n c + 1 \<and>
     (\<forall>i. 1 \<le> i \<longrightarrow> i \<le> lt_n c \<longrightarrow> length (g ! i) = 2 ^ nat (lt_tagTableSizes c ! i))"

definition lt_ok :: "LTAGE \<Rightarrow> bool" where
  "lt_ok s \<longleftrightarrow> lt_cfg_ok (lt_cfg s) \<and> length (lt_btable s) = 2 ^ unat (lt_logSizeBiMP (lt_cfg s)) \<and>
     length (lt_ltable s) = 2 ^ unat (lt_logSizeLoopPred (lt_cfg s)) \<and> lt_gtable_ok (lt_cfg s) (lt_gtable s) \<and>
     length (lt_threadHistory s) = unat (lt_numThreads (lt_cfg s)) \<and> list_all (lt_th_ok (lt_cfg s)) (lt_threadHistory s)"

text \<open>A bank number and an index into its table, as the \<open>BranchInfo\<close> records them; bank 0 means none.\<close>

definition lt_slot_ok :: "LTAGECfg \<Rightarrow> nat \<Rightarrow> int \<Rightarrow> bool" where
  "lt_slot_ok c i j \<longleftrightarrow> i = 0 \<or> i \<le> lt_n c \<and> 0 \<le> j \<and> j < 2 ^ nat (lt_tagTableSizes c ! i)"

definition lt_loop_ok :: "LTAGECfg \<Rightarrow> BranchInfo \<Rightarrow> bool" where
  "lt_loop_ok c bi \<longleftrightarrow> bi_loopHit bi < 4 \<and> 0 \<le> bi_loopIndex bi \<and> bi_loopIndex bi + 3 < 2 ^ unat (lt_logSizeLoopPred c)"

definition lt_tage_ok :: "LTAGECfg \<Rightarrow> BranchInfo \<Rightarrow> bool" where
  "lt_tage_ok c bi \<longleftrightarrow> 0 \<le> bi_bimodalIndex bi \<and> bi_bimodalIndex bi < 2 ^ unat (lt_logSizeBiMP c) \<and>
     length (bi_tableIndices bi) = lt_n c + 1 \<and> length (bi_tableTags bi) = lt_n c + 1 \<and>
     (\<forall>i. 1 \<le> i \<longrightarrow> i \<le> lt_n c \<longrightarrow> lt_slot_ok c i (bi_tableIndices bi ! i)) \<and>
     bi_hitBank bi \<le> lt_n c \<and> lt_slot_ok c (bi_hitBank bi) (bi_hitBankIndex bi) \<and> lt_slot_ok c (bi_altBank bi) (bi_altBankIndex bi)"

definition lt_saved_ok :: "LTAGECfg \<Rightarrow> BranchInfo \<Rightarrow> bool" where
  "lt_saved_ok c bi \<longleftrightarrow> lt_pt_ok c (bi_ptGhist bi) \<and> 0 \<le> bi_pathHist bi \<and> bi_pathHist bi < 2 ^ 16 \<and>
     length (bi_ci bi) = lt_n c + 1 \<and> length (bi_ct0 bi) = lt_n c + 1 \<and> length (bi_ct1 bi) = lt_n c + 1"

definition lt_hist_ok :: "LTAGECfg \<Rightarrow> BranchInfo option \<Rightarrow> bool" where
  "lt_hist_ok c ho \<longleftrightarrow> (case ho of None \<Rightarrow> False | Some bi \<Rightarrow>
     lt_saved_ok c bi \<and> (bi_condBranch bi \<longrightarrow> lt_loop_ok c bi \<and> lt_tage_ok c bi))"

definition lt_threads :: "LTAGECfg \<Rightarrow> nat" where
  "lt_threads c = unat (lt_numThreads c)"

subsection \<open>Indices and tags are in range\<close>

lemma ull_mask_unat: "unat x < 64 \<Longrightarrow> ull_mask (uint x) = Some (mask (unat x))"
proof -
  assume "unat x < 64"
  then have "ull_mask (int (unat x)) = Some (mask (nat (int (unat x))))" by (intro ull_mask_eq) linarith+
  then show ?thesis by simp
qed

lemma lt_bindex_ok:
  assumes "lt_cfg_ok c"
  shows "\<exists>j. lt_bindex c pc = Some j \<and> 0 \<le> j \<and> j < 2 ^ unat (lt_logSizeBiMP c)"
proof -
  have l: "unat (lt_logSizeBiMP c) \<le> 31" using assms by (simp add: lt_cfg_ok_def)
  then show ?thesis using to_int_mask_range by (simp add: lt_bindex_def ull_mask_unat)
qed

lemma lt_lindex_ok:
  assumes "lt_cfg_ok c"
  shows "\<exists>j. lt_lindex c pc = Some j \<and> 0 \<le> j \<and> j + 3 < 2 ^ unat (lt_logSizeLoopPred c)"
proof -
  let ?l = "lt_logSizeLoopPred c"
  have l: "2 \<le> unat ?l" "unat ?l \<le> 31" using assms by (simp_all add: lt_cfg_ok_def)
  then have "2 \<le> ?l" by (simp add: word_le_nat_alt)
  then have u: "unat (?l - 2) = unat ?l - 2" by (simp add: unat_sub)
  define k where "k = unat ?l - 2"
  have k: "unat ?l = k + 2" "k \<le> 29" using l by (simp_all add: k_def)
  have m: "ull_mask (uint (?l - 2)) = Some (mask k)" using l u by (simp add: ull_mask_unat k_def)
  let ?t = "take_bit k (uint pc)"
  have t: "0 \<le> ?t" "?t < 2 ^ k" by simp_all
  have "(2::int) ^ k \<le> 2 ^ 29" using k(2) by (intro power_increasing) auto
  then have "?t < 2 ^ 29" using t(2) by (rule order_less_le_trans [rotated])
  then have small: "4 * ?t < 2 ^ 31" by simp
  have "uint (push_bit 2 (pc AND mask k)) = 4 * ?t"
    unfolding unsigned_push_bit_eq uint_and_mask using small t by (simp add: push_bit_eq_mult take_bit_int_eq_self)
  then have "to_int (push_bit 2 (pc AND mask k)) = 4 * ?t" using small by (simp only: to_int_small)
  then have e: "lt_lindex c pc = Some (4 * ?t)" by (simp only: lt_lindex_def m Option.bind.simps)
  have "4 * ?t + 3 < 4 * 2 ^ k" using zless_imp_add1_zle [OF t(2)] by linarith
  then have "4 * ?t + 3 < 2 ^ unat ?l" unfolding k(1) by (simp only: power_add) simp
  with e t(1) show ?thesis by simp
qed

lemma shl_int_small:
  assumes "0 \<le> a" and "a < 2 ^ 17" and "n \<le> 12"
  shows "shl_int a (int n) = Some (push_bit n a)"
proof -
  have "(2::int) ^ n \<le> 2 ^ 12" using assms(3) by (intro power_increasing) auto
  then have "a * 2 ^ n \<le> a * 2 ^ 12" using assms(1) by (intro mult_left_mono) auto
  then show ?thesis using assms by (simp add: shl_int_def)
qed

lemma uint_word_of_int_small: "0 \<le> a \<Longrightarrow> a < 2 ^ 31 \<Longrightarrow> uint (word_of_int a :: Addr) = a"
  by (simp add: unsigned_of_int take_bit_int_eq_self)

lemma take_bit_le: "0 \<le> a \<Longrightarrow> take_bit n a \<le> a" for a :: int
  by (simp add: take_bit_eq_mod zmod_le_nonneg_dividend)

lemma drop_bit_le: "0 \<le> a \<Longrightarrow> 0 \<le> drop_bit n a \<and> drop_bit n a \<le> a" for a :: int
  using zdiv_mono2 [of a 1 "2 ^ n"] pos_imp_zdiv_nonneg_iff [of "2 ^ n" a] by (simp add: drop_bit_eq_div)

lemma F_sum_small:
  assumes "0 \<le> x" and "x < 2 ^ 16" and "0 \<le> y" and "y < 2 ^ 16"
  shows "0 \<le> to_int ((word_of_int x AND mask k) + word_of_int y)" and "to_int ((word_of_int x AND mask k) + word_of_int y) < 2 ^ 17"
proof -
  have x: "uint (word_of_int x AND mask k :: Addr) = take_bit k x" using assms by (simp add: uint_and_mask uint_word_of_int_small)
  have b: "0 \<le> take_bit k x" "take_bit k x \<le> x" using assms take_bit_le by simp_all
  have "uint ((word_of_int x AND mask k) + word_of_int y :: Addr) = take_bit k x + y"
    using assms b by (simp add: uint_word_ariths(1) x uint_word_of_int_small)
  then show "0 \<le> to_int ((word_of_int x AND mask k) + word_of_int y)" "to_int ((word_of_int x AND mask k) + word_of_int y) < 2 ^ 17"
    using assms b by (simp_all add: to_int_small)
qed

lemma lt_F_ok:
  assumes "lt_cfg_ok c" and "1 \<le> bank" and "bank \<le> lt_n c" and "0 \<le> sz" and "sz \<le> 16"
  shows "\<exists>x. lt_F c A sz bank = Some x"
proof -
  note b = lt_bank [OF assms(1-3)]
  define ts where "ts = lt_tagTableSizes c ! bank"
  have ts: "int bank \<le> ts" "ts \<le> 30" "0 \<le> ts" using b(1) by (simp_all add: lt_bank_ok_def ts_def)
  have vt: "vec_at (lt_tagTableSizes c) bank = Some ts" using b(4) by (simp add: ts_def vec_at_Some)
  define B where "B = to_int (word_of_int A AND mask (nat sz))"
  have "nat sz \<le> 16" using assms(5) by simp
  then have "(2::int) ^ nat sz \<le> 2 ^ 16" by (intro power_increasing) auto
  then have B: "0 \<le> B" "B < 2 ^ 16" using to_int_mask_range [of "nat sz" "word_of_int A"] \<open>nat sz \<le> 16\<close> by (auto simp: B_def)
  define A1 where "A1 = to_int (word_of_int B AND mask (nat ts))"
  have A1: "0 \<le> A1" "A1 < 2 ^ 17" using take_bit_le [OF B(1), of "nat ts"] ts B by (simp_all add: A1_def to_int_mask uint_word_of_int_small)
  define A2 where "A2 = drop_bit (nat ts) B"
  have A2: "0 \<le> A2" "A2 \<le> B" using drop_bit_le [OF B(1), of "nat ts"] by (simp_all add: A2_def)
  have "push_bit bank A2 \<le> push_bit (nat ts) A2" using ts A2 by (simp add: push_bit_eq_mult mult_left_mono power_increasing)
  also have "\<dots> \<le> B" by (simp add: A2_def push_bit_eq_mult drop_bit_eq_div minus_mod_eq_div_mult [symmetric])
  finally have p: "push_bit bank A2 < 2 ^ 16" using B by linarith
  define x2 where "x2 = to_int ((word_of_int (push_bit bank A2) AND mask (nat ts)) + word_of_int (drop_bit (nat (ts - int bank)) A2))"
  have d: "0 \<le> drop_bit (nat (ts - int bank)) A2" "drop_bit (nat (ts - int bank)) A2 < 2 ^ 16"
    using drop_bit_le [OF A2(1), of "nat (ts - int bank)"] A2 B by linarith+
  have "0 \<le> push_bit bank A2" using A2(1) by (simp add: push_bit_eq_mult)
  then have x2: "0 \<le> x2" "x2 < 2 ^ 17" unfolding x2_def by (rule F_sum_small [OF _ p d])+
  have X: "0 \<le> A1 XOR x2" "A1 XOR x2 < 2 ^ 17" using A1 x2 XOR_upper [of A1 17 x2] by simp_all
  have m: "ull_mask sz = Some (mask (nat sz))" "ull_mask ts = Some (mask (nat ts))" using assms(4,5) ts by (simp_all add: ull_mask_eq)
  have s: "shr_int B ts = Some A2" "shr_int A2 (ts - int bank) = Some (drop_bit (nat (ts - int bank)) A2)"
    "shr_int (A1 XOR x2) (ts - int bank) = Some (drop_bit (nat (ts - int bank)) (A1 XOR x2))"
    using ts by (simp_all add: shr_int_def A2_def)
  have l: "shl_int A2 (int bank) = Some (push_bit bank A2)" "shl_int (A1 XOR x2) (int bank) = Some (push_bit bank (A1 XOR x2))"
    using A2 B X b(2) by (simp_all add: shl_int_small)
  show ?thesis
    by (simp only: lt_F_def m vt Option.bind.simps Let_def B_def [symmetric] A1_def [symmetric] s l x2_def [symmetric]) (rule exI, rule refl)
qed

lemma lt_gindex_ok:
  assumes "lt_cfg_ok c" and "lt_folds_ok c cl (lth_computeIndices th)" and "1 \<le> i" and "i \<le> lt_n c"
  shows "\<exists>j. lt_gindex c th pc i = Some j \<and> lt_slot_ok c i j"
proof -
  note b = lt_bank [OF assms(1,3,4)]
  define hl ts f where "hl = lt_histLengths c ! i" and "ts = lt_tagTableSizes c ! i" and "f = lth_computeIndices th ! i"
  have r: "int i \<le> ts" "ts \<le> 30" "0 \<le> hl" using b(1) by (simp_all add: lt_bank_ok_def ts_def hl_def)
  have v: "vec_at (lt_histLengths c) i = Some hl" "vec_at (lt_tagTableSizes c) i = Some ts" "vec_at (lth_computeIndices th) i = Some f"
    using b(3-5) assms(2,4) by (simp_all add: vec_at_Some lt_folds_ok_def hl_def ts_def f_def)
  define p where "p = drop_bit (nat (\<bar>ts - int i\<bar> + 1)) pc"
  have p: "shr_addr pc (\<bar>ts - int i\<bar> + 1) = Some p" using r by (simp add: shr_addr_def p_def)
  have "0 \<le> (if hl > 16 then 16 else hl)" "(if hl > 16 then 16 else hl) \<le> 16" using r(3) by simp_all
  from lt_F_ok [OF assms(1,3,4) this] obtain x where x: "lt_F c (lth_pathHist th) (if hl > 16 then 16 else hl) i = Some x" by blast
  have m: "ull_mask ts = Some (mask (nat ts))" using r by (intro ull_mask_eq) linarith+
  define j where "j = to_int (word_of_int (to_int (pc XOR p XOR ucast (fh_comp f) XOR word_of_int x)) AND mask (nat ts))"
  have "lt_gindex c th pc i = Some j"
    by (simp only: lt_gindex_def v p x m Option.bind.simps Let_def j_def)
  moreover have "0 \<le> j \<and> j < 2 ^ nat ts" unfolding j_def by (rule to_int_mask_range) (use r in simp)
  ultimately show ?thesis using assms(4) by (simp add: lt_slot_ok_def ts_def)
qed

lemma lt_gtag_ok:
  assumes "lt_cfg_ok c" and "lt_folds_ok c cl (lth_computeTags0 th)" and "lt_folds_ok c cl' (lth_computeTags1 th)"
    and "1 \<le> i" and "i \<le> lt_n c"
  shows "\<exists>tag. lt_gtag c th pc i = Some tag"
proof -
  note b = lt_bank [OF assms(1,4,5)]
  define tw where "tw = lt_tagWidths c ! i"
  have "0 \<le> tw" "tw < 64" using b(1) by (simp_all add: lt_bank_ok_def tw_def)
  then have m: "ull_mask tw = Some (mask (nat tw))" by (rule ull_mask_eq)
  have v: "vec_at (lt_tagWidths c) i = Some tw" "vec_at (lth_computeTags0 th) i = Some (lth_computeTags0 th ! i)"
    "vec_at (lth_computeTags1 th) i = Some (lth_computeTags1 th ! i)"
    using b(3) assms(2,3,5) by (simp_all add: vec_at_Some lt_folds_ok_def tw_def)
  show ?thesis by (simp only: lt_gtag_def v m Option.bind.simps Let_def) (rule exI, rule refl)
qed

subsection \<open>Access to the tagged tables\<close>

lemma lt_gtable_range:
  assumes "lt_gtable_ok c g" and "1 \<le> i" and "lt_slot_ok c i j"
  shows "i < length g" and "0 \<le> j" and "nat j < length (g ! i)"
proof -
  have i: "i \<le> lt_n c" "0 \<le> j" "j < 2 ^ nat (lt_tagTableSizes c ! i)" using assms(2,3) by (auto simp: lt_slot_ok_def)
  then show "i < length g" "0 \<le> j" using assms(1) by (simp_all add: lt_gtable_ok_def)
  have "nat j < 2 ^ nat (lt_tagTableSizes c ! i)" using i(2,3) by (simp add: nat_less_iff)
  then show "nat j < length (g ! i)" using assms(1,2) i(1) by (simp add: lt_gtable_ok_def)
qed

lemma lt_entry_ok: "lt_gtable_ok c g \<Longrightarrow> 1 \<le> i \<Longrightarrow> lt_slot_ok c i j \<Longrightarrow> lt_entry g i j = Some (g ! i ! nat j)"
  using lt_gtable_range [of c g i j] by (simp add: lt_entry_def fault_simps)

lemma lt_entry_upd_eq:
  assumes "lt_gtable_ok c g" and "1 \<le> i" and "lt_slot_ok c i j" and "f (g ! i ! nat j) = Some e"
  shows "lt_entry_upd f i j g = Some (g[i := (g ! i)[nat j := e]])"
  using lt_gtable_range [OF assms(1-3)] assms(4) by (simp add: lt_entry_upd_def fault_simps)

lemma lt_gtable_ok_update: "lt_gtable_ok c g \<Longrightarrow> lt_gtable_ok c (g[i := (g ! i)[j := e]])"
  by (cases "i < length g") (auto simp: lt_gtable_ok_def nth_list_update)

lemma lt_entry_upd_ok:
  assumes "lt_gtable_ok c g" and "1 \<le> i" and "lt_slot_ok c i j" and "\<And>e. \<exists>e'. f e = Some e'"
  shows "\<exists>g'. lt_entry_upd f i j g = Some g' \<and> lt_gtable_ok c g'"
proof -
  obtain e where "f (g ! i ! nat j) = Some e" using assms(4) by blast
  then show ?thesis using lt_entry_upd_eq [OF assms(1-3)] lt_gtable_ok_update [OF assms(1)] by blast
qed

lemma lt_match_ok:
  assumes "lt_gtable_ok c g" and "k \<le> lt_n c" and "length is = lt_n c + 1" and "length tags = lt_n c + 1"
    and "\<And>i. 1 \<le> i \<Longrightarrow> i \<le> lt_n c \<Longrightarrow> lt_slot_ok c i (is ! i)"
  shows "\<exists>r. lt_match g is tags k = Some r \<and> r \<le> k"
  using assms(2)
proof (induction k)
  case (Suc k)
  have "lt_entry g (Suc k) (is ! Suc k) = Some (g ! Suc k ! nat (is ! Suc k))"
    using Suc.prems assms(5) [of "Suc k"] by (intro lt_entry_ok [OF assms(1)]) auto
  moreover obtain r where "lt_match g is tags k = Some r" "r \<le> k" using Suc by auto
  ultimately show ?case using Suc.prems assms(3,4) by (simp add: fault_simps)
qed simp

subsection \<open>Prediction\<close>

lemma those_map_ok:
  assumes "\<And>x. x \<in> set xs \<Longrightarrow> \<exists>y. f x = Some y \<and> P x y"
  shows "\<exists>ys. those (map f xs) = Some ys \<and> list_all2 P xs ys"
  using assms
proof (induction xs)
  case (Cons x xs)
  obtain y where "f x = Some y" "P x y" using Cons.prems [of x] by auto
  moreover obtain ys where "those (map f xs) = Some ys" "list_all2 P xs ys" using Cons.IH Cons.prems by auto
  ultimately show ?case by simp
qed simp

text \<open>An array filled for the banks 1 to \<open>n\<close>, with an unused slot 0.\<close>

lemma those_banks_ok:
  assumes "\<And>i. 1 \<le> i \<Longrightarrow> i \<le> n \<Longrightarrow> \<exists>y. f i = Some y \<and> P i y"
  shows "\<exists>ys. those (map f [1..<Suc n]) = Some ys \<and> length (z # ys) = n + 1 \<and> (\<forall>i. 1 \<le> i \<longrightarrow> i \<le> n \<longrightarrow> P i ((z # ys) ! i))"
proof -
  have "\<exists>y. f i = Some y \<and> P i y" if "i \<in> set [1..<Suc n]" for i using that by (intro assms) auto
  from those_map_ok [of "[1..<Suc n]" f P, OF this] obtain ys where ys: "those (map f [1..<Suc n]) = Some ys"
    "list_all2 P [1..<Suc n] ys" by blast
  have l: "length ys = n" using list_all2_lengthD [OF ys(2)] by (simp del: upt_Suc)
  have "P i ((z # ys) ! i)" if "1 \<le> i" "i \<le> n" for i
    using list_all2_nthD [OF ys(2), of "i - 1"] that by (simp del: upt_Suc add: nth_Cons')
  then show ?thesis using ys(1) l by auto
qed

lemma lt_getBimodePred_ok: "lt_ok s \<Longrightarrow> 0 \<le> bi_bimodalIndex bi \<Longrightarrow> bi_bimodalIndex bi < 2 ^ unat (lt_logSizeBiMP (lt_cfg s)) \<Longrightarrow>
    \<exists>b. lt_getBimodePred s bi = Some b"
  by (simp add: lt_getBimodePred_def lt_ok_def fault_simps nat_less_iff)

lemma lt_tage_predict_ok:
  assumes s: "lt_ok s" and th: "lt_th_ok (lt_cfg s) th"
  shows "\<exists>bi'. lt_tage_predict s th pc bi = Some bi' \<and> lt_tage_ok (lt_cfg s) bi'"
proof -
  let ?c = "lt_cfg s" and ?n = "lt_n (lt_cfg s)"
  have c: "lt_cfg_ok ?c" and g: "lt_gtable_ok ?c (lt_gtable s)" using s by (simp_all add: lt_ok_def)
  have f: "lt_folds_ok ?c (\<lambda>i. lt_tagTableSizes ?c ! i) (lth_computeIndices th)" "lt_folds_ok ?c (\<lambda>i. lt_tagWidths ?c ! i) (lth_computeTags0 th)"
    "lt_folds_ok ?c (\<lambda>i. lt_tagWidths ?c ! i - 1) (lth_computeTags1 th)"
    using th by (simp_all add: lt_th_ok_def)
  obtain js where js: "those (map (lt_gindex ?c th pc) [1..<Suc ?n]) = Some js" "length (0 # js) = ?n + 1"
    and slot: "\<And>i. 1 \<le> i \<Longrightarrow> i \<le> ?n \<Longrightarrow> lt_slot_ok ?c i ((0 # js) ! i)"
    using those_banks_ok [of ?n "lt_gindex ?c th pc" "lt_slot_ok ?c" 0] lt_gindex_ok [OF c f(1)] by blast
  obtain tags where tags: "those (map (lt_gtag ?c th pc) [1..<Suc ?n]) = Some tags" "length (0 # tags) = ?n + 1"
    using those_banks_ok [of ?n "lt_gtag ?c th pc" "\<lambda>_ _. True" 0] lt_gtag_ok [OF c f(2,3)] by blast
  obtain bx where bx: "lt_bindex ?c pc = Some bx" "0 \<le> bx" "bx < 2 ^ unat (lt_logSizeBiMP ?c)" using lt_bindex_ok [OF c] by blast
  obtain hit where hit: "lt_match (lt_gtable s) (0 # js) (0 # tags) ?n = Some hit" "hit \<le> ?n"
    using lt_match_ok [OF g order_refl js(2) tags(2) slot] by blast
  have "hit - 1 \<le> ?n" using hit(2) by simp
  then obtain alt where alt: "lt_match (lt_gtable s) (0 # js) (0 # tags) (hit - 1) = Some alt" "alt \<le> hit - 1"
    using lt_match_ok [OF g _ js(2) tags(2) slot] by blast
  define bi1 where "bi1 = bi\<lparr>bi_tableIndices := 0 # js, bi_tableTags := 0 # tags, bi_bimodalIndex := bx\<rparr>"
  define bi2 where "bi2 = bi1\<lparr>bi_hitBank := hit, bi_hitBankIndex := (if hit > 0 then (0 # js) ! hit else bi_hitBankIndex bi1),
       bi_altBank := alt, bi_altBankIndex := (if alt > 0 then (0 # js) ! alt else bi_altBankIndex bi1)\<rparr>"
  have hs: "lt_slot_ok ?c hit (bi_hitBankIndex bi2)" using slot [of hit] hit(2) by (cases "hit = 0") (auto simp: bi2_def lt_slot_ok_def)
  have as: "lt_slot_ok ?c alt (bi_altBankIndex bi2)" using slot [of alt] alt(2) hit(2) by (cases "alt = 0") (auto simp: bi2_def lt_slot_ok_def)
  have ok: "lt_tage_ok ?c bi2" using js(2) tags(2) slot bx(2,3) hit(2) hs as by (simp add: lt_tage_ok_def bi2_def bi1_def)
  have keep: "lt_tage_ok ?c (bi2\<lparr>bi_altTaken := x, bi_longestMatchPred := y, bi_pseudoNewAlloc := z, bi_tagePred := w\<rparr>)"
    "lt_tage_ok ?c (bi2\<lparr>bi_altTaken := x, bi_tagePred := w, bi_longestMatchPred := y\<rparr>)" for x y z w
    using ok by (simp_all add: lt_tage_ok_def)
  obtain b where b: "lt_getBimodePred s bi2 = Some b" using lt_getBimodePred_ok [OF s, of bi2] bx(2,3) by (auto simp: bi2_def bi1_def)
  have he: "hit > 0 \<Longrightarrow> lt_entry (lt_gtable s) hit (bi_hitBankIndex bi2) = Some (lt_gtable s ! hit ! nat (bi_hitBankIndex bi2))"
    and ae: "alt > 0 \<Longrightarrow> lt_entry (lt_gtable s) alt (bi_altBankIndex bi2) = Some (lt_gtable s ! alt ! nat (bi_altBankIndex bi2))"
    using lt_entry_ok [OF g _ hs] lt_entry_ok [OF g _ as] by simp_all
  have e: "lt_tage_predict s th pc bi = (if hit > 0 then do {
       altTaken \<leftarrow> (if alt > 0 then do { e \<leftarrow> lt_entry (lt_gtable s) alt (bi_altBankIndex bi2); Some (sint (te_ctr e) \<ge> 0) }
                   else lt_getBimodePred s bi2);
       e \<leftarrow> lt_entry (lt_gtable s) hit (bi_hitBankIndex bi2);
       let longest = (sint (te_ctr e) \<ge> 0);
       Some (bi2\<lparr>bi_altTaken := altTaken, bi_longestMatchPred := longest, bi_pseudoNewAlloc := (ctr_strength e \<le> 1),
         bi_tagePred := (if sint (lt_useAltPredForNewlyAllocated s) < 0 \<or> ctr_strength e > 1 then longest else altTaken)\<rparr>) }
     else do {
       altTaken \<leftarrow> lt_getBimodePred s bi2;
       Some (bi2\<lparr>bi_altTaken := altTaken, bi_tagePred := altTaken, bi_longestMatchPred := altTaken\<rparr>) })"
    by (simp only: lt_tage_predict_def js(1) tags(1) bx(1) hit(1) alt(1) Option.bind.simps Let_def bi1_def [symmetric] bi2_def [symmetric])
  show ?thesis
    unfolding e using he ae b keep by (cases "hit > 0"; cases "alt > 0") (auto simp: Let_def)
qed

subsection \<open>The loop predictor\<close>

lemma lt_ok_tables:
  "lt_ok s \<Longrightarrow> length lt = length (lt_ltable s) \<Longrightarrow> lt_ok (s\<lparr>lt_ltable := lt\<rparr>)"
  "lt_ok s \<Longrightarrow> length bt = length (lt_btable s) \<Longrightarrow> lt_ok (s\<lparr>lt_btable := bt\<rparr>)"
  "lt_ok s \<Longrightarrow> lt_gtable_ok (lt_cfg s) g \<Longrightarrow> lt_ok (s\<lparr>lt_gtable := g\<rparr>)"
  "lt_ok s \<Longrightarrow> lt_ok (s\<lparr>lt_draws := d\<rparr>)" "lt_ok s \<Longrightarrow> lt_ok (s\<lparr>lt_loopUseCounter := v\<rparr>)"
  "lt_ok s \<Longrightarrow> lt_ok (s\<lparr>lt_useAltPredForNewlyAllocated := v\<rparr>)" "lt_ok s \<Longrightarrow> lt_ok (s\<lparr>lt_tCounter := w\<rparr>)"
  by (simp_all add: lt_ok_def)

lemma lt_loop_range:
  assumes "lt_ok s" and "0 \<le> i" and "i + 3 < 2 ^ unat (lt_logSizeLoopPred (lt_cfg s))" and "0 \<le> k" and "k < 4"
  shows "0 \<le> i + k" and "nat (i + k) < length (lt_ltable s)"
proof -
  show "0 \<le> i + k" using assms by simp
  then show "nat (i + k) < length (lt_ltable s)" using assms by (simp add: lt_ok_def nat_less_iff)
qed

lemma loop_search_ok:
  assumes "\<And>i. i \<in> set ways \<Longrightarrow> i < 4" and "bi_loopHit bi < 4"
    and "\<And>i. i < 4 \<Longrightarrow> 0 \<le> bi_loopIndex bi + int i \<and> nat (bi_loopIndex bi + int i) < length lt"
  shows "\<exists>b h v it. loop_search lt bi ways = Some (b, bi\<lparr>bi_loopHit := h, bi_loopPredValid := v, bi_currentIter := it\<rparr>) \<and> h < 4"
  using assms(1)
proof (induction ways)
  case Nil
  have "bi = bi\<lparr>bi_loopHit := bi_loopHit bi, bi_loopPredValid := bi_loopPredValid bi, bi_currentIter := bi_currentIter bi\<rparr>" by simp
  then show ?case using assms(2) by (metis loop_search.simps(1))
next
  case (Cons i ways)
  have i: "i < 4" using Cons.prems by simp
  have IH: "\<exists>b h v it. loop_search lt bi ways = Some (b, bi\<lparr>bi_loopHit := h, bi_loopPredValid := v, bi_currentIter := it\<rparr>) \<and> h < 4"
    using Cons by simp
  let ?e = "lt ! nat (bi_loopIndex bi + int i)"
  show ?case
  proof (cases "uint (le_tag ?e) = bi_loopTag bi")
    case True
    then have "loop_search lt bi (i # ways) = Some (if uint (le_currentIterSpec ?e) + 1 = uint (le_numIter ?e) then \<not> le_dir ?e else le_dir ?e,
        bi\<lparr>bi_loopHit := int i, bi_loopPredValid := (le_confidence ?e \<ge> 3), bi_currentIter := le_currentIterSpec ?e\<rparr>)"
      using assms(3) [OF i] by (simp add: fault_simps)
    moreover have "int i < 4" using i by simp
    ultimately show ?thesis by blast
  next
    case False
    then show ?thesis using IH assms(3) [OF i] by (simp add: fault_simps)
  qed
qed

lemma lt_getLoop_ok:
  assumes "lt_ok s"
  shows "\<exists>b bi'. lt_getLoop s pc bi = Some (b, bi') \<and> lt_loop_ok (lt_cfg s) bi' \<and>
    (lt_tage_ok (lt_cfg s) bi \<longrightarrow> lt_tage_ok (lt_cfg s) bi')"
proof -
  have c: "lt_cfg_ok (lt_cfg s)" using assms by (simp add: lt_ok_def)
  obtain j where j: "lt_lindex (lt_cfg s) pc = Some j" "0 \<le> j" "j + 3 < 2 ^ unat (lt_logSizeLoopPred (lt_cfg s))"
    using lt_lindex_ok [OF c] by blast
  have "2 \<le> unat (lt_logSizeLoopPred (lt_cfg s))" "unat (lt_logSizeLoopPred (lt_cfg s)) \<le> 31" using c by (simp_all add: lt_cfg_ok_def)
  then have "unat (lt_logSizeLoopPred (lt_cfg s) - 2) < 64" by (simp add: unat_sub word_le_nat_alt)
  then obtain tag where tag: "shr64 pc (lt_logSizeLoopPred (lt_cfg s) - 2) = Some tag" by (simp add: shr64_Some)
  let ?bi = "bi\<lparr>bi_loopHit := - 1, bi_loopPredValid := False, bi_loopIndex := j, bi_loopTag := to_int tag\<rparr>"
  have r: "0 \<le> bi_loopIndex ?bi + int i \<and> nat (bi_loopIndex ?bi + int i) < length (lt_ltable s)" if "i < 4" for i
    using lt_loop_range [OF assms j(2,3), of "int i"] that by simp
  have w: "i < 4" if "i \<in> set [0, 1, 2, 3]" for i :: nat using that by auto
  have "bi_loopHit ?bi < 4" by simp
  then obtain b h v it where l: "loop_search (lt_ltable s) ?bi [0, 1, 2, 3] =
      Some (b, ?bi\<lparr>bi_loopHit := h, bi_loopPredValid := v, bi_currentIter := it\<rparr>)" "h < 4"
    using loop_search_ok [of "[0, 1, 2, 3]" ?bi, OF w _ r] by blast
  have "lt_getLoop s pc bi = Some (b, ?bi\<lparr>bi_loopHit := h, bi_loopPredValid := v, bi_currentIter := it\<rparr>)"
    by (simp only: lt_getLoop_def j(1) tag l(1) Option.bind.simps)
  then show ?thesis using j(2,3) l(2) by (simp add: lt_loop_ok_def lt_tage_ok_def)
qed

text \<open>What an operation on the tables leaves alone.\<close>

definition lt_frame :: "LTAGE \<Rightarrow> LTAGE \<Rightarrow> bool" where
  "lt_frame s s' \<longleftrightarrow> lt_ok s' \<and> lt_cfg s' = lt_cfg s \<and> lt_threadHistory s' = lt_threadHistory s"

lemma lt_frame_trans: "lt_frame s s' \<Longrightarrow> lt_frame s' s'' \<Longrightarrow> lt_frame s s''"
  by (simp add: lt_frame_def)

lemma lt_specLoopUpdate_ok:
  assumes "lt_ok s"
  shows "\<exists>s'. lt_specLoopUpdate s pc taken bi = Some s' \<and> lt_frame s s'"
proof -
  obtain j where j: "lt_lindex (lt_cfg s) pc = Some j" "0 \<le> j" "j + 3 < 2 ^ unat (lt_logSizeLoopPred (lt_cfg s))"
    using lt_lindex_ok assms by (auto simp: lt_ok_def)
  have "nat j < length (lt_ltable s)" using lt_loop_range [OF assms j(2,3), of 0] by simp
  then show ?thesis using assms j(1,2) by (auto simp: lt_specLoopUpdate_def fault_simps lt_frame_def lt_ok_tables)
qed

lemma lt_squash_loop_ok:
  assumes "lt_ok s" and "bi_condBranch bi \<longrightarrow> lt_loop_ok (lt_cfg s) bi"
  shows "\<exists>s'. lt_squash_loop s bi = Some s' \<and> lt_frame s s'"
proof (cases "bi_condBranch bi \<and> bi_loopHit bi \<ge> 0")
  case True
  have b: "0 \<le> bi_loopIndex bi" "bi_loopIndex bi + 3 < 2 ^ unat (lt_logSizeLoopPred (lt_cfg s))" "bi_loopHit bi < 4"
    using assms(2) True by (simp_all add: lt_loop_ok_def)
  show ?thesis
    using lt_loop_range [OF assms(1) b(1,2) conjunct2 [OF True] b(3)] assms(1) True
    by (simp add: lt_squash_loop_def fault_simps Let_def lt_frame_def lt_ok_tables)
next
  case False
  then show ?thesis using assms(1) by (simp only: lt_squash_loop_def if_False lt_frame_def) simp
qed

lemma loop_alloc_ok:
  assumes "\<And>k. 0 \<le> k \<Longrightarrow> k < 4 \<Longrightarrow> 0 \<le> bi_loopIndex bi + k \<and> nat (bi_loopIndex bi + k) < length lt"
  shows "\<exists>lt'. loop_alloc lt taken bi nrand ways = Some lt' \<and> length lt' = length lt"
  using assms
proof (induction ways arbitrary: lt)
  case (Cons i ways)
  let ?k = "(nrand + int i) AND 3"
  have "?k = (nrand + int i) mod 4" using take_bit_eq_mask [of 2 "nrand + int i"] by (simp add: take_bit_eq_mod mask_eq_exp_minus_1)
  then have "0 \<le> ?k" "?k < 4" by simp_all
  then have r: "0 \<le> bi_loopIndex bi + ?k" "nat (bi_loopIndex bi + ?k) < length lt" using Cons.prems by simp_all
  have "\<exists>lt'. loop_alloc (lt[nat (bi_loopIndex bi + ?k) := e]) taken bi nrand ways = Some lt' \<and> length lt' = length lt" for e
    using Cons.IH [of "lt[nat (bi_loopIndex bi + ?k) := e]"] Cons.prems by simp
  then show ?case using r by (simp add: fault_simps Let_def)
qed simp

lemma lt_loopUpdate_ok:
  assumes "lt_ok s" and "lt_loop_ok (lt_cfg s) bi"
  shows "\<exists>s'. lt_loopUpdate s taken bi = Some s' \<and> lt_frame s s'"
proof -
  have b: "0 \<le> bi_loopIndex bi" "bi_loopIndex bi + 3 < 2 ^ unat (lt_logSizeLoopPred (lt_cfg s))" "bi_loopHit bi < 4"
    using assms(2) by (simp_all add: lt_loop_ok_def)
  note r = lt_loop_range [OF assms(1) b(1,2)]
  obtain lt where "loop_alloc (lt_ltable s) taken bi (lt_rand (lt_cfg s) (lt_draws s)) [0, 1, 2, 3] = Some lt" "length lt = length (lt_ltable s)"
    using loop_alloc_ok [of bi "lt_ltable s"] r by blast
  then show ?thesis
    using assms(1) r [OF _ b(3)] by (cases taken) (auto simp: lt_loopUpdate_def fault_simps Let_def lt_frame_def lt_ok_tables simp del: loop_alloc.simps)
qed

lemma lt_predict_ok:
  assumes s: "lt_ok s" and t: "tid_index t < length (lt_threadHistory s)"
  shows "\<exists>b bi s'. lt_predict s t pc cond = Some (b, bi, s') \<and> lt_frame s s' \<and> bi_condBranch bi = cond \<and>
    (cond \<longrightarrow> lt_loop_ok (lt_cfg s) bi \<and> lt_tage_ok (lt_cfg s) bi)"
proof -
  have th: "lt_th_ok (lt_cfg s) (lt_threadHistory s ! tid_index t)" using s t by (simp add: lt_ok_def list_all_length)
  obtain bi1 where bi1: "lt_tage_predict s (lt_threadHistory s ! tid_index t) pc (BranchInfo_new\<lparr>bi_loopHit := - 1\<rparr>) = Some bi1"
    "lt_tage_ok (lt_cfg s) bi1"
    using lt_tage_predict_ok [OF s th] by blast
  obtain b bi2 where bi2: "lt_getLoop s pc bi1 = Some (b, bi2)" "lt_loop_ok (lt_cfg s) bi2" "lt_tage_ok (lt_cfg s) bi2"
    using lt_getLoop_ok [OF s] bi1(2) by blast
  let ?f = "\<lambda>bi. bi\<lparr>bi_branchPC := pc, bi_condBranch := cond\<rparr>"
  let ?p = "if sint (lt_loopUseCounter s) \<ge> 0 \<and> bi_loopPredValid bi2 then b else bi_tagePred bi2"
  obtain s1 s2 where sp: "lt_specLoopUpdate s pc ?p (?f (bi2\<lparr>bi_loopPred := b\<rparr>)) = Some s1" "lt_frame s s1"
    "lt_specLoopUpdate s pc True (?f (BranchInfo_new\<lparr>bi_loopHit := - 1\<rparr>)) = Some s2" "lt_frame s s2"
    using lt_specLoopUpdate_ok [OF s] by metis
  show ?thesis
  proof (cases cond)
    case True
    have "lt_predict s t pc cond = Some (?p, ?f (bi2\<lparr>bi_loopPred := b\<rparr>), s1)"
      using True t bi1(1) bi2(1) sp(1) by (simp add: lt_predict_def fault_simps Let_def cong: if_cong split del: if_split)
    then show ?thesis using sp(2) bi2(2,3) True by (simp add: lt_loop_ok_def lt_tage_ok_def)
  next
    case False
    then show ?thesis using sp(3,4) by (auto simp: lt_predict_def Let_def)
  qed
qed

end
