(* ===== verification/Ltage_Hist.thy ===== *)
theory Ltage_Hist
  imports Ltage_Safety
begin

text \<open>
  The speculative histories of L-TAGE: the operations that change them keep their dimensions, the
  folded registers stay equal to the fold of the outcomes in the buffer, also when the buffer
  rolls over, and the repair of a misprediction leaves the histories a correct prediction would
  have left.
\<close>

subsection \<open>Loops over the banks\<close>

lemma for_up_pointwise:
  assumes "\<And>j. i \<le> j \<Longrightarrow> j < i + n \<Longrightarrow> j < length fs \<and> g j (fs ! j) = Some (k j)"
  shows "for_up n i (\<lambda>j fs. do { f \<leftarrow> vec_at fs j; f \<leftarrow> g j f; vec_put fs j f }) fs =
    Some (map (\<lambda>j. if i \<le> j \<and> j < i + n then k j else fs ! j) [0..<length fs])"
  using assms
proof (induction n arbitrary: i fs)
  case 0
  have "map (\<lambda>j. if i \<le> j \<and> j < i + 0 then k j else fs ! j) [0..<length fs] = fs" by (rule nth_equalityI) auto
  then show ?case by simp
next
  case (Suc n)
  have i: "i < length fs" "g i (fs ! i) = Some (k i)" using Suc.prems [of i] by simp_all
  have IH: "for_up n (Suc i) (\<lambda>j fs. do { f \<leftarrow> vec_at fs j; f \<leftarrow> g j f; vec_put fs j f }) (fs[i := k i]) =
    Some (map (\<lambda>j. if Suc i \<le> j \<and> j < Suc i + n then k j else fs[i := k i] ! j) [0..<length (fs[i := k i])])"
    by (rule Suc.IH) (use Suc.prems in auto)
  have "map (\<lambda>j. if Suc i \<le> j \<and> j < Suc i + n then k j else fs[i := k i] ! j) [0..<length (fs[i := k i])] =
      map (\<lambda>j. if i \<le> j \<and> j < i + Suc n then k j else fs ! j) [0..<length fs]"
    using i(1) by (auto simp: nth_list_update)
  then show ?case using IH i by (simp add: fault_simps)
qed

text \<open>The value of a folded register after one update.\<close>

definition fh_next :: "uint8 list \<Rightarrow> int \<Rightarrow> FoldedHistory \<Rightarrow> FoldedHistory" where
  "fh_next tab h f = f\<lparr>fh_comp := of_bool (outcome_at tab h 0) XOR rot (nat (fh_compLength f)) (fh_comp f) XOR
     push_bit (nat (fh_outpoint f)) (of_bool (outcome_at tab h (nat (fh_origLength f))))\<rparr>"

definition fh_next_all :: "nat \<Rightarrow> uint8 list \<Rightarrow> int \<Rightarrow> FoldedHistory list \<Rightarrow> FoldedHistory list" where
  "fh_next_all n tab h fs = map (\<lambda>j. if 1 \<le> j \<and> j < 1 + n then fh_next tab h (fs ! j) else fs ! j) [0..<length fs]"

text \<open>The registers of \<open>fs\<close> set back to saved values.\<close>

definition fh_reset_all :: "nat \<Rightarrow> unsigned list \<Rightarrow> FoldedHistory list \<Rightarrow> FoldedHistory list" where
  "fh_reset_all n saved fs = map (\<lambda>j. if 1 \<le> j \<and> j < 1 + n then (fs ! j)\<lparr>fh_comp := saved ! j\<rparr> else fs ! j) [0..<length fs]"

lemma fh_update_next:
  "fh_ok len L f \<Longrightarrow> bits_ok tab \<Longrightarrow> 0 \<le> h \<Longrightarrow> nat (h + len) < length tab \<Longrightarrow> fh_update tab h f = Some (fh_next tab h f)"
  by (simp add: fh_update_eq fh_next_def fh_ok_def)

text \<open>The buffer and the position in it.\<close>

definition lt_buf_ok :: "LTAGECfg \<Rightarrow> uint8 list \<Rightarrow> int \<Rightarrow> bool" where
  "lt_buf_ok c tab pt \<longleftrightarrow> length tab = unat (lt_histBufferSize c) \<and> bits_ok tab \<and> lt_pt_ok c pt"

lemma lt_buf_pos:
  assumes "lt_buf_ok c tab pt"
  shows "0 \<le> pt" and "nat pt < length tab"
proof -
  have b: "0 \<le> pt" "pt + uint (lt_maxHist c) < uint (lt_histBufferSize c)" "length tab = unat (lt_histBufferSize c)"
    using assms by (simp_all add: lt_buf_ok_def lt_pt_ok_def)
  have "pt \<le> pt + uint (lt_maxHist c)" by simp
  then have "pt < uint (lt_histBufferSize c)" using b(2) by linarith
  then show "0 \<le> pt" "nat pt < length tab" using b(1,3) by (simp_all add: nat_less_iff)
qed

lemma lt_buf_range:
  assumes "lt_cfg_ok c" and "lt_buf_ok c tab pt" and "1 \<le> i" and "i \<le> lt_n c"
  shows "0 \<le> pt" and "nat (pt + lt_histLengths c ! i) < length tab"
proof -
  have "lt_histLengths c ! i \<le> uint (lt_maxHist c)" "0 \<le> lt_histLengths c ! i"
    using lt_bank(1) [OF assms(1,3,4)] by (simp_all add: lt_bank_ok_def)
  moreover show "0 \<le> pt" using assms(2) by (simp add: lt_buf_ok_def lt_pt_ok_def)
  ultimately show "nat (pt + lt_histLengths c ! i) < length tab"
    using assms(2) by (simp add: lt_buf_ok_def lt_pt_ok_def nat_less_iff)
qed

lemma lt_fold_all_eq:
  assumes "lt_cfg_ok c" and "lt_buf_ok c tab pt" and "lt_folds_ok c cl fs"
  shows "lt_fold_all (lt_n c) tab pt fs = Some (fh_next_all (lt_n c) tab pt fs)"
  unfolding lt_fold_all_def fh_next_all_def
proof (rule for_up_pointwise)
  fix j assume j: "1 \<le> j" "j < 1 + lt_n c"
  then have "fh_ok (lt_histLengths c ! j) (cl j) (fs ! j)" "j < length fs" using assms(3) by (simp_all add: lt_folds_ok_def)
  then show "j < length fs \<and> fh_update tab pt (fs ! j) = Some (fh_next tab pt (fs ! j))"
    using lt_buf_range [OF assms(1,2) j(1)] j(2) assms(2) by (auto simp: lt_buf_ok_def intro: fh_update_next)
qed

lemma lt_refold_all_eq:
  assumes "lt_cfg_ok c" and "lt_buf_ok c tab pt" and "lt_folds_ok c cl fs" and "length saved = lt_n c + 1"
  shows "lt_refold_all (lt_n c) tab pt saved fs = Some (fh_next_all (lt_n c) tab pt (fh_reset_all (lt_n c) saved fs))"
proof -
  have "lt_refold_all (lt_n c) tab pt saved fs =
    for_up (lt_n c) 1 (\<lambda>j fs. do { f \<leftarrow> vec_at fs j; f \<leftarrow> (do { v \<leftarrow> vec_at saved j; fh_update tab pt (f\<lparr>fh_comp := v\<rparr>) }); vec_put fs j f }) fs"
    by (simp add: lt_refold_all_def)
  also have "\<dots> = Some (map (\<lambda>j. if 1 \<le> j \<and> j < 1 + lt_n c then fh_next tab pt ((fs ! j)\<lparr>fh_comp := saved ! j\<rparr>) else fs ! j) [0..<length fs])"
  proof (rule for_up_pointwise)
    fix j assume j: "1 \<le> j" "j < 1 + lt_n c"
    then have "fh_ok (lt_histLengths c ! j) (cl j) ((fs ! j)\<lparr>fh_comp := saved ! j\<rparr>)" "j < length fs"
      using assms(3) by (simp_all add: lt_folds_ok_def fh_ok_def)
    moreover have "vec_at saved j = Some (saved ! j)" using j assms(4) by (simp add: vec_at_Some)
    ultimately show "j < length fs \<and> (do { v \<leftarrow> vec_at saved j; fh_update tab pt ((fs ! j)\<lparr>fh_comp := v\<rparr>) }) =
        Some (fh_next tab pt ((fs ! j)\<lparr>fh_comp := saved ! j\<rparr>))"
      using lt_buf_range [OF assms(1,2) j(1)] j(2) assms(2) by (auto simp: lt_buf_ok_def intro: fh_update_next)
  qed
  finally show ?thesis by (simp add: fh_next_all_def fh_reset_all_def)
qed

lemma fh_all_nth:
  "j < length fs \<Longrightarrow> fh_next_all n tab h fs ! j = (if 1 \<le> j \<and> j \<le> n then fh_next tab h (fs ! j) else fs ! j)"
  "j < length fs \<Longrightarrow> fh_reset_all n saved fs ! j = (if 1 \<le> j \<and> j \<le> n then (fs ! j)\<lparr>fh_comp := saved ! j\<rparr> else fs ! j)"
  "length (fh_next_all n tab h fs) = length fs" "length (fh_reset_all n saved fs) = length fs"
  by (auto simp: fh_next_all_def fh_reset_all_def)

lemma fh_next_all_ok: "lt_folds_ok c cl fs \<Longrightarrow> lt_folds_ok c cl (fh_next_all (lt_n c) tab pt fs)"
  by (simp add: lt_folds_ok_def fh_all_nth fh_next_def fh_ok_def)

lemma fh_reset_all_ok: "lt_folds_ok c cl fs \<Longrightarrow> lt_folds_ok c cl (fh_reset_all (lt_n c) saved fs)"
  by (simp add: lt_folds_ok_def fh_all_nth fh_ok_def)

text \<open>The saved registers undo an update.\<close>

lemma fh_reset_next: "length fs = n + 1 \<Longrightarrow> fh_reset_all n (map fh_comp fs) (fh_next_all n tab h fs) = fs"
  by (rule nth_equalityI) (auto simp: fh_all_nth fh_next_def)

subsection \<open>Shifting an outcome into the buffer\<close>

lemma bits_ok_update: "bits_ok tab \<Longrightarrow> x = 0 \<or> x = 1 \<Longrightarrow> bits_ok (tab[i := x])"
  by (simp add: bits_ok_def list_all_list_update)

lemma lt_cfg_buffer:
  assumes "lt_cfg_ok c"
  shows "2 * unat (lt_maxHist c) < unat (lt_histBufferSize c)" and "unat (lt_histBufferSize c) < 2 ^ 31"
    and "sint (lt_histBufferSize c - lt_maxHist c) = int (unat (lt_histBufferSize c) - unat (lt_maxHist c))"
    and "i < unat (lt_maxHist c) \<Longrightarrow>
      unat (lt_histBufferSize c - lt_maxHist c + of_nat i) = unat (lt_histBufferSize c) - unat (lt_maxHist c) + i"
proof -
  let ?B = "lt_histBufferSize c" and ?M = "lt_maxHist c"
  have "2 * uint ?M < uint ?B" "uint ?B < 2 ^ 31" using assms by (simp_all add: lt_cfg_ok_def)
  then have "2 * int (unat ?M) < int (unat ?B)" "int (unat ?B) < 2 ^ 31" by simp_all
  then show b: "2 * unat ?M < unat ?B" "unat ?B < 2 ^ 31"
    unfolding of_nat_less_iff [symmetric, where 'a = int] by simp_all
  then have le: "?M \<le> ?B" by (simp add: word_le_nat_alt)
  have d: "unat (?B - ?M) = unat ?B - unat ?M" using le by (rule unat_sub)
  have "uint (?B - ?M) = int (unat (?B - ?M))" by simp
  then have u: "uint (?B - ?M) = int (unat ?B - unat ?M)" by (simp only: d)
  have "unat ?B - unat ?M < 2 ^ 31" using b(2) by (rule le_less_trans [OF diff_le_self])
  then have "int (unat ?B - unat ?M) < 2 ^ 31" unfolding of_nat_less_iff [symmetric, where 'a = int] by simp
  with u show "sint (?B - ?M) = int (unat ?B - unat ?M)" using sint_small [of "?B - ?M"] by simp
  assume i: "i < unat ?M"
  have oi: "unat (of_nat i :: unsigned) = i" using i b by (simp add: unat_of_nat take_bit_nat_eq_self)
  have "unat (?B - ?M) + unat (of_nat i :: unsigned) < 2 ^ 32" using b i by (simp add: d oi)
  then have "unat (?B - ?M + of_nat i) = unat (?B - ?M) + unat (of_nat i :: unsigned)" by (simp add: unat_word_ariths(1))
  then show "unat (?B - ?M + of_nat i) = unat ?B - unat ?M + i" by (simp only: d oi)
qed

text \<open>The copy of the newest outcomes to the end of the buffer when it rolls over.\<close>

lemma rollover_copy:
  assumes "lt_cfg_ok c" and "length tab = unat (lt_histBufferSize c)" and "bits_ok tab"
  shows "\<exists>tab'. for_up (unat (lt_maxHist c)) 0
      (\<lambda>i tab. do { x \<leftarrow> vec_at tab i; vec_put tab (unat (lt_histBufferSize c - lt_maxHist c + of_nat i)) x }) tab = Some tab' \<and>
    length tab' = length tab \<and> bits_ok tab' \<and>
    (\<forall>k < unat (lt_histBufferSize c) - unat (lt_maxHist c). tab' ! k = tab ! k) \<and>
    (\<forall>i < unat (lt_maxHist c). tab' ! (unat (lt_histBufferSize c) - unat (lt_maxHist c) + i) = tab ! i)"
proof -
  let ?B = "unat (lt_histBufferSize c)" and ?M = "unat (lt_maxHist c)"
  note b = lt_cfg_buffer [OF assms(1)]
  define I where "I = (\<lambda>j tab'. length tab' = length tab \<and> bits_ok tab' \<and> (\<forall>k < ?B - ?M. tab' ! k = tab ! k) \<and>
    (\<forall>i < j. tab' ! (?B - ?M + i) = tab ! i))"
  have "\<exists>s'. for_up ?M 0 (\<lambda>i tab. do { x \<leftarrow> vec_at tab i; vec_put tab (unat (lt_histBufferSize c - lt_maxHist c + of_nat i)) x }) tab = Some s'
      \<and> I (0 + ?M) s'"
  proof (rule for_up_invariant)
    show "I 0 tab" using assms(3) by (simp add: I_def)
  next
    fix j s assume j: "j < 0 + ?M" and I: "I j s"
    have l: "j < length s" "?B - ?M + j < length s" "length s = length tab" using I j b(1) assms(2) by (simp_all add: I_def)
    have "s ! j = 0 \<or> s ! j = 1" using I l(1) by (simp add: I_def bits_ok_def list_all_length)
    then have "I (Suc j) (s[?B - ?M + j := s ! j])"
      using I j b(1) l by (auto simp: I_def bits_ok_update nth_list_update less_Suc_eq)
    then show "\<exists>s'. (do { x \<leftarrow> vec_at s j; vec_put s (unat (lt_histBufferSize c - lt_maxHist c + of_nat j)) x }) = Some s' \<and> I (Suc j) s'"
      using l b(4) [of j] j by (simp add: fault_simps)
  qed
  then show ?thesis by (auto simp: I_def)
qed

lemma lt_updateGHist_ok:
  assumes "lt_cfg_ok c" and "lt_buf_ok c (lth_globalHistory th) (lth_ptGhist th)" and "lth_gHist th = lth_ptGhist th"
  obtains tab pt where "\<And>b. lt_updateGHist c b th =
      Some (th\<lparr>lth_globalHistory := tab[nat pt := if b then 1 else 0], lth_ptGhist := pt, lth_gHist := pt\<rparr>)"
    and "lt_buf_ok c tab pt"
    and "\<And>i. i < unat (lt_maxHist c) \<Longrightarrow> outcome_at tab (pt + 1) i = outcome_at (lth_globalHistory th) (lth_ptGhist th) i"
proof (cases "lth_ptGhist th = 0")
  case True
  let ?B = "unat (lt_histBufferSize c)" and ?M = "unat (lt_maxHist c)"
  note b = lt_cfg_buffer [OF assms(1)]
  have o: "length (lth_globalHistory th) = ?B" "bits_ok (lth_globalHistory th)" using assms(2) by (simp_all add: lt_buf_ok_def)
  obtain tab where tab: "for_up ?M 0 (\<lambda>i tab. do { x \<leftarrow> vec_at tab i; vec_put tab (unat (lt_histBufferSize c - lt_maxHist c + of_nat i)) x })
      (lth_globalHistory th) = Some tab" "length tab = ?B" "bits_ok tab" "\<And>i. i < ?M \<Longrightarrow> tab ! (?B - ?M + i) = lth_globalHistory th ! i"
    using rollover_copy [OF assms(1) o] o(1) by auto
  define pt where "pt = int (?B - ?M) - 1"
  have pt: "0 \<le> pt" "nat pt < length tab" unfolding pt_def tab(2) using b(1) by linarith+
  have "lt_buf_ok c tab pt" using tab(2,3) pt(1) b(1) by (simp add: lt_buf_ok_def lt_pt_ok_def pt_def)
  moreover have "outcome_at tab (pt + 1) i = outcome_at (lth_globalHistory th) (lth_ptGhist th) i" if "i < ?M" for i
    using tab(4) [OF that] by (simp add: outcome_at_def pt_def True nat_add_distrib)
  moreover have "lt_updateGHist c x th =
      Some (th\<lparr>lth_globalHistory := tab[nat pt := if x then 1 else 0], lth_ptGhist := pt, lth_gHist := pt\<rparr>)" for x
  proof -
    have d: "sint (lt_histBufferSize c - lt_maxHist c) = pt + 1" unfolding b(3) pt_def by simp
    have "arr_put tab pt v = Some (tab[nat pt := v])" for v using pt by (rule arr_put_Some)
    then show ?thesis by (simp add: lt_updateGHist_def True tab(1) d Let_def)
  qed
  ultimately show ?thesis using that by blast
next
  case False
  define pt where "pt = lth_ptGhist th - 1"
  let ?tab = "lth_globalHistory th"
  have ok: "lt_buf_ok c ?tab pt" and pt: "0 \<le> pt" using assms(2) False by (simp_all add: lt_buf_ok_def lt_pt_ok_def pt_def)
  have "nat pt < length ?tab" using ok by (rule lt_buf_pos)
  then have "lt_updateGHist c x th =
      Some (th\<lparr>lth_globalHistory := ?tab[nat pt := if x then 1 else 0], lth_ptGhist := pt, lth_gHist := pt\<rparr>)" for x
    using pt False assms(3) by (simp add: lt_updateGHist_def Let_def arr_put_Some pt_def)
  moreover have "outcome_at ?tab (pt + 1) i = outcome_at ?tab (lth_ptGhist th) i" for i by (simp add: pt_def)
  ultimately show ?thesis using that ok by blast
qed


lemma lt_buf_ok_update: "lt_buf_ok c tab pt \<Longrightarrow> lt_buf_ok c (tab[i := if b then 1 else 0]) pt"
  by (simp add: lt_buf_ok_def bits_ok_update)

lemma outcome_at_update:
  assumes "0 \<le> pt" and "nat pt < length tab"
  shows "outcome_at (tab[nat pt := if b then 1 else 0]) pt 0 = b"
    and "outcome_at (tab[nat pt := x]) (pt + 1) i = outcome_at tab (pt + 1) i"
  using assms by (auto simp: outcome_at_def nth_list_update)

subsection \<open>The histories after a prediction\<close>

text \<open>The thread history \<open>th\<close> moved on to the outcome at \<open>pt\<close> of the buffer \<open>tab\<close>.\<close>

definition lt_advance :: "LTAGECfg \<Rightarrow> ThreadHistory \<Rightarrow> uint8 list \<Rightarrow> int \<Rightarrow> int \<Rightarrow> ThreadHistory" where
  "lt_advance c th tab pt ph = th\<lparr>lth_globalHistory := tab, lth_ptGhist := pt, lth_gHist := pt, lth_pathHist := ph,
     lth_computeIndices := fh_next_all (lt_n c) tab pt (lth_computeIndices th),
     lth_computeTags0 := fh_next_all (lt_n c) tab pt (lth_computeTags0 th),
     lth_computeTags1 := fh_next_all (lt_n c) tab pt (lth_computeTags1 th)\<rparr>"

definition lt_next_path :: "ThreadHistory \<Rightarrow> Addr \<Rightarrow> int" where
  "lt_next_path th pc = (push_bit 1 (lth_pathHist th) + of_bool (bit pc 0)) AND mask 16"

definition lt_save :: "ThreadHistory \<Rightarrow> int \<Rightarrow> int \<Rightarrow> BranchInfo \<Rightarrow> BranchInfo" where
  "lt_save th pt ph bi = bi\<lparr>bi_ptGhist := pt, bi_pathHist := ph, bi_ci := map fh_comp (lth_computeIndices th),
     bi_ct0 := map fh_comp (lth_computeTags0 th), bi_ct1 := map fh_comp (lth_computeTags1 th)\<rparr>"

lemma lt_next_path_range: "0 \<le> lt_next_path th pc" "lt_next_path th pc < 2 ^ 16"
  unfolding lt_next_path_def take_bit_eq_mask [symmetric] by (rule take_bit_nonnegative take_bit_int_less_exp)+

lemma lt_th_parts:
  assumes "lt_th_ok c th"
  shows "lt_buf_ok c (lth_globalHistory th) (lth_ptGhist th)" and "lth_gHist th = lth_ptGhist th"
    and "lt_folds_ok c (\<lambda>i. lt_tagTableSizes c ! i) (lth_computeIndices th)"
    and "lt_folds_ok c (\<lambda>i. lt_tagWidths c ! i) (lth_computeTags0 th)"
    and "lt_folds_ok c (\<lambda>i. lt_tagWidths c ! i - 1) (lth_computeTags1 th)"
  using assms by (simp_all add: lt_th_ok_def lt_buf_ok_def)

lemma lt_advance_ok:
  assumes "lt_th_ok c th" and "lt_buf_ok c tab pt" and "0 \<le> ph" and "ph < 2 ^ 16"
  shows "lt_th_ok c (lt_advance c th tab pt ph)"
  using assms by (simp add: lt_th_ok_def lt_buf_ok_def lt_advance_def fh_next_all_ok)

lemma lt_updateHistories_ok:
  assumes s: "lt_ok s" and t: "tid_index t < length (lt_threadHistory s)" and th: "th = lt_threadHistory s ! tid_index t"
  obtains tab pt where "\<And>b bi. lt_updateHistories s t pc b bi = Some (lt_save th pt (lt_next_path th pc) bi,
      s\<lparr>lt_threadHistory := (lt_threadHistory s)[tid_index t :=
        lt_advance (lt_cfg s) th (tab[nat pt := if b then 1 else 0]) pt (lt_next_path th pc)]\<rparr>)"
    and "lt_buf_ok (lt_cfg s) tab pt"
    and "\<And>i. i < unat (lt_maxHist (lt_cfg s)) \<Longrightarrow> outcome_at tab (pt + 1) i = outcome_at (lth_globalHistory th) (lth_ptGhist th) i"
proof -
  let ?c = "lt_cfg s"
  have c: "lt_cfg_ok ?c" and ok: "lt_th_ok ?c th" using s t by (simp_all add: lt_ok_def list_all_length th)
  note p = lt_th_parts [OF ok]
  show ?thesis
  proof (rule lt_updateGHist_ok [OF c p(1,2)])
    fix tab pt
    assume u: "\<And>b. lt_updateGHist ?c b th =
        Some (th\<lparr>lth_globalHistory := tab[nat pt := if b then 1 else 0], lth_ptGhist := pt, lth_gHist := pt\<rparr>)"
      and buf: "lt_buf_ok ?c tab pt"
      and old: "\<And>i. i < unat (lt_maxHist ?c) \<Longrightarrow> outcome_at tab (pt + 1) i = outcome_at (lth_globalHistory th) (lth_ptGhist th) i"
    note f = lt_fold_all_eq [OF c lt_buf_ok_update [OF buf]]
    have v: "vec_at (lt_threadHistory s) (tid_index t) = Some th" using t by (simp add: vec_at_Some th)
    have "lt_updateHistories s t pc b bi = Some (lt_save th pt (lt_next_path th pc) bi,
        s\<lparr>lt_threadHistory := (lt_threadHistory s)[tid_index t :=
          lt_advance ?c th (tab[nat pt := if b then 1 else 0]) pt (lt_next_path th pc)]\<rparr>)" for b bi
      using t by (simp add: lt_updateHistories_def v u f [OF p(3)] f [OF p(4)] f [OF p(5)] Let_def vec_put_Some
          lt_save_def lt_next_path_def lt_advance_def cong: if_cong split del: if_split)
    then show ?thesis by (rule that [OF _ buf old])
  qed
qed

lemma lt_refold_advance:
  assumes c: "lt_cfg_ok c" and th: "lt_th_ok c th" and buf: "lt_buf_ok c tab' pt"
    and n: "th1 = lt_advance c th tab pt ph"
    and bi: "bi_ci bi = map fh_comp (lth_computeIndices th)" "bi_ct0 bi = map fh_comp (lth_computeTags0 th)"
      "bi_ct1 bi = map fh_comp (lth_computeTags1 th)"
  shows "lt_refold c bi (th1\<lparr>lth_globalHistory := tab'\<rparr>) = Some (lt_advance c th tab' pt ph)"
proof -
  note p = lt_th_parts [OF th]
  have l: "length (lth_computeIndices th) = lt_n c + 1" "length (lth_computeTags0 th) = lt_n c + 1" "length (lth_computeTags1 th) = lt_n c + 1"
    using p(3-5) by (simp_all add: lt_folds_ok_def)
  note r = lt_refold_all_eq [OF c buf fh_next_all_ok]
  show ?thesis
    by (simp add: lt_refold_def Let_def n lt_advance_def bi r [OF p(3)] r [OF p(4)] r [OF p(5)] l fh_reset_next)
qed

end
