(* ===== verification/Ltage_Contract.thy ===== *)
theory Ltage_Contract
  imports Ltage_Hist
begin

text \<open>
  L-TAGE fulfils the contract of the base class (\<open>direction_predictor\<close>), and its constructor
  establishes the invariant for parameters that keep all shifts in range.
\<close>

subsection \<open>The contract of the base class\<close>

lemma lt_ok_thread:
  "lt_ok s \<Longrightarrow> tid_index t < length (lt_threadHistory s) \<Longrightarrow> lt_th_ok (lt_cfg s) (lt_threadHistory s ! tid_index t)"
  "lt_ok s \<Longrightarrow> lt_th_ok (lt_cfg s) th \<Longrightarrow> lt_ok (s\<lparr>lt_threadHistory := (lt_threadHistory s)[i := th]\<rparr>)"
  by (simp add: lt_ok_def list_all_nth) (simp add: lt_ok_def list_all_list_update)

lemma lt_threads_length: "lt_ok s \<Longrightarrow> lt_threads (lt_cfg s) = length (lt_threadHistory s)"
  by (simp add: lt_ok_def lt_threads_def)

lemma lt_frame_thread: "lt_frame s s' \<Longrightarrow> tid_index t < length (lt_threadHistory s) \<Longrightarrow> tid_index t < length (lt_threadHistory s')"
  by (simp add: lt_frame_def)

lemma lt_save_ok:
  "lt_th_ok c th \<Longrightarrow> lt_buf_ok c tab pt \<Longrightarrow> (bi_condBranch bi \<Longrightarrow> lt_loop_ok c bi \<and> lt_tage_ok c bi) \<Longrightarrow>
    lt_hist_ok c (Some (lt_save th pt (lt_next_path th pc) bi))"
  using lt_next_path_range by (simp add: lt_hist_ok_def lt_saved_ok_def lt_save_def lt_th_ok_def lt_buf_ok_def lt_folds_ok_def
      lt_loop_ok_def lt_tage_ok_def)

text \<open>A prediction, whatever the direction: the outcome is shifted into the histories of the thread.\<close>

lemma lt_predict_histories:
  assumes s: "lt_ok s" and t: "tid_index t < length (lt_threadHistory s)" and p: "lt_predict s t pc cond = Some (b, bi, s1)"
    and f: "lt_frame s s1" and bi: "bi_condBranch bi = cond" "cond \<longrightarrow> lt_loop_ok (lt_cfg s) bi \<and> lt_tage_ok (lt_cfg s) bi"
    and th: "th = lt_threadHistory s ! tid_index t"
  obtains tab pt where "\<And>x. lt_updateHistories s1 t pc x bi = Some (lt_save th pt (lt_next_path th pc) bi,
      s1\<lparr>lt_threadHistory := (lt_threadHistory s)[tid_index t :=
        lt_advance (lt_cfg s) th (tab[nat pt := if x then 1 else 0]) pt (lt_next_path th pc)]\<rparr>)"
    and "\<And>x. lt_th_ok (lt_cfg s) (lt_advance (lt_cfg s) th (tab[nat pt := if x then 1 else 0]) pt (lt_next_path th pc))"
    and "lt_hist_ok (lt_cfg s) (Some (lt_save th pt (lt_next_path th pc) bi))"
    and "lt_buf_ok (lt_cfg s) tab pt"
    and "\<And>i. i < unat (lt_maxHist (lt_cfg s)) \<Longrightarrow> outcome_at tab (pt + 1) i = outcome_at (lth_globalHistory th) (lth_ptGhist th) i"
proof -
  have s1: "lt_ok s1" "lt_cfg s1 = lt_cfg s" "lt_threadHistory s1 = lt_threadHistory s" using f by (simp_all add: lt_frame_def)
  have thok: "lt_th_ok (lt_cfg s) th" using lt_ok_thread(1) [OF s t] by (simp add: th)
  show ?thesis
  proof (rule lt_updateHistories_ok [OF s1(1), of t th pc])
    show "tid_index t < length (lt_threadHistory s1)" "th = lt_threadHistory s1 ! tid_index t" using t s1(3) th by simp_all
  next
    fix tab pt
    assume u: "\<And>b bi. lt_updateHistories s1 t pc b bi = Some (lt_save th pt (lt_next_path th pc) bi,
      s1\<lparr>lt_threadHistory := (lt_threadHistory s1)[tid_index t :=
        lt_advance (lt_cfg s1) th (tab[nat pt := if b then 1 else 0]) pt (lt_next_path th pc)]\<rparr>)"
      and buf: "lt_buf_ok (lt_cfg s1) tab pt"
      and old: "\<And>i. i < unat (lt_maxHist (lt_cfg s1)) \<Longrightarrow>
        outcome_at tab (pt + 1) i = outcome_at (lth_globalHistory th) (lth_ptGhist th) i"
    note r = u buf old
    note r = r [unfolded s1(2,3)]
    have h: "lt_hist_ok (lt_cfg s) (Some (lt_save th pt (lt_next_path th pc) bi))" by (rule lt_save_ok [OF thok r(2)]) (use bi in auto)
    have a: "lt_th_ok (lt_cfg s) (lt_advance (lt_cfg s) th (tab[nat pt := if x then 1 else 0]) pt (lt_next_path th pc))" for x
      by (rule lt_advance_ok [OF thok lt_buf_ok_update [OF r(2)] lt_next_path_range])
    show ?thesis by (rule that [OF r(1) a h r(2,3)])
  qed
qed

lemma lt_frame_threads:
  "lt_frame s s1 \<Longrightarrow> lt_th_ok (lt_cfg s) th \<Longrightarrow>
    lt_ok (s1\<lparr>lt_threadHistory := (lt_threadHistory s)[i := th]\<rparr>) \<and> lt_cfg (s1\<lparr>lt_threadHistory := (lt_threadHistory s)[i := th]\<rparr>) = lt_cfg s"
  using lt_ok_thread(2) [of s1 th i] by (simp add: lt_frame_def)

text \<open>What \<open>lookup\<close> and \<open>uncondBranch\<close> return; \<open>x\<close> is the outcome they shift in.\<close>

lemma lt_lookup_eq:
  assumes s: "lt_ok s" and t: "tid_index t < length (lt_threadHistory s)" and th: "th = lt_threadHistory s ! tid_index t"
  obtains b bi s1 tab pt where
      "lt_lookup s t pc = Some (b, Some (lt_save th pt (lt_next_path th pc) bi),
        s1\<lparr>lt_threadHistory := (lt_threadHistory s)[tid_index t := lt_advance (lt_cfg s) th (tab[nat pt := if b then 1 else 0]) pt (lt_next_path th pc)]\<rparr>)"
    and "lt_frame s s1" and "lt_hist_ok (lt_cfg s) (Some (lt_save th pt (lt_next_path th pc) bi))"
    and "lt_buf_ok (lt_cfg s) tab pt"
    and "\<And>i. i < unat (lt_maxHist (lt_cfg s)) \<Longrightarrow> outcome_at tab (pt + 1) i = outcome_at (lth_globalHistory th) (lth_ptGhist th) i"
proof -
  obtain b bi s1 where p: "lt_predict s t pc True = Some (b, bi, s1)" "lt_frame s s1" "bi_condBranch bi = True"
    "True \<longrightarrow> lt_loop_ok (lt_cfg s) bi \<and> lt_tage_ok (lt_cfg s) bi"
    using lt_predict_ok [OF s t, of pc True] by blast
  show ?thesis
  proof (rule lt_predict_histories [OF s t p th])
    fix tab pt
    assume u: "\<And>x. lt_updateHistories s1 t pc x bi = Some (lt_save th pt (lt_next_path th pc) bi,
        s1\<lparr>lt_threadHistory := (lt_threadHistory s)[tid_index t :=
          lt_advance (lt_cfg s) th (tab[nat pt := if x then 1 else 0]) pt (lt_next_path th pc)]\<rparr>)"
      and h: "lt_hist_ok (lt_cfg s) (Some (lt_save th pt (lt_next_path th pc) bi))" "lt_buf_ok (lt_cfg s) tab pt"
      and o: "\<And>i. i < unat (lt_maxHist (lt_cfg s)) \<Longrightarrow> outcome_at tab (pt + 1) i = outcome_at (lth_globalHistory th) (lth_ptGhist th) i"
    have "lt_lookup s t pc = Some (b, Some (lt_save th pt (lt_next_path th pc) bi),
        s1\<lparr>lt_threadHistory := (lt_threadHistory s)[tid_index t := lt_advance (lt_cfg s) th (tab[nat pt := if b then 1 else 0]) pt (lt_next_path th pc)]\<rparr>)"
      using t by (simp add: lt_lookup_def p(1) u fault_simps lt_advance_def split del: if_split)
    then show ?thesis by (rule that [OF _ p(2) h o])
  qed
qed

lemma lt_uncondBranch_eq:
  assumes s: "lt_ok s" and t: "tid_index t < length (lt_threadHistory s)" and th: "th = lt_threadHistory s ! tid_index t"
  obtains bi s1 tab pt where
      "lt_uncondBranch s t pc = Some (Some (lt_save th pt (lt_next_path th pc) bi),
        s1\<lparr>lt_threadHistory := (lt_threadHistory s)[tid_index t := lt_advance (lt_cfg s) th (tab[nat pt := if True then 1 else 0]) pt (lt_next_path th pc)]\<rparr>)"
    and "lt_frame s s1" and "lt_hist_ok (lt_cfg s) (Some (lt_save th pt (lt_next_path th pc) bi))"
    and "lt_buf_ok (lt_cfg s) tab pt"
    and "\<And>i. i < unat (lt_maxHist (lt_cfg s)) \<Longrightarrow> outcome_at tab (pt + 1) i = outcome_at (lth_globalHistory th) (lth_ptGhist th) i"
proof -
  obtain b bi s1 where p: "lt_predict s t pc False = Some (b, bi, s1)" "lt_frame s s1" "bi_condBranch bi = False"
    "False \<longrightarrow> lt_loop_ok (lt_cfg s) bi \<and> lt_tage_ok (lt_cfg s) bi"
    using lt_predict_ok [OF s t, of pc False] by blast
  show ?thesis
  proof (rule lt_predict_histories [OF s t p th])
    fix tab pt
    assume u: "\<And>x. lt_updateHistories s1 t pc x bi = Some (lt_save th pt (lt_next_path th pc) bi,
        s1\<lparr>lt_threadHistory := (lt_threadHistory s)[tid_index t :=
          lt_advance (lt_cfg s) th (tab[nat pt := if x then 1 else 0]) pt (lt_next_path th pc)]\<rparr>)"
      and h: "lt_hist_ok (lt_cfg s) (Some (lt_save th pt (lt_next_path th pc) bi))" "lt_buf_ok (lt_cfg s) tab pt"
      and o: "\<And>i. i < unat (lt_maxHist (lt_cfg s)) \<Longrightarrow> outcome_at tab (pt + 1) i = outcome_at (lth_globalHistory th) (lth_ptGhist th) i"
    have "lt_uncondBranch s t pc = Some (Some (lt_save th pt (lt_next_path th pc) bi),
        s1\<lparr>lt_threadHistory := (lt_threadHistory s)[tid_index t := lt_advance (lt_cfg s) th (tab[nat pt := if True then 1 else 0]) pt (lt_next_path th pc)]\<rparr>)"
      using t by (simp add: lt_uncondBranch_def p(1) u fault_simps lt_advance_def)
    then show ?thesis by (rule that [OF _ p(2) h o])
  qed
qed

text \<open>Refolding from saved registers.\<close>

lemma lt_refold_eq:
  assumes c: "lt_cfg_ok c" and th: "lt_th_ok c th" and bi: "lt_saved_ok c bi"
  shows "lt_refold c bi th = Some (th\<lparr>
      lth_computeIndices := fh_next_all (lt_n c) (lth_globalHistory th) (lth_ptGhist th) (fh_reset_all (lt_n c) (bi_ci bi) (lth_computeIndices th)),
      lth_computeTags0 := fh_next_all (lt_n c) (lth_globalHistory th) (lth_ptGhist th) (fh_reset_all (lt_n c) (bi_ct0 bi) (lth_computeTags0 th)),
      lth_computeTags1 := fh_next_all (lt_n c) (lth_globalHistory th) (lth_ptGhist th) (fh_reset_all (lt_n c) (bi_ct1 bi) (lth_computeTags1 th))\<rparr>)"
proof -
  note p = lt_th_parts [OF th]
  have l: "length (bi_ci bi) = lt_n c + 1" "length (bi_ct0 bi) = lt_n c + 1" "length (bi_ct1 bi) = lt_n c + 1"
    using bi by (simp_all add: lt_saved_ok_def)
  note r = lt_refold_all_eq [OF c p(1)]
  show ?thesis by (simp add: lt_refold_def Let_def p(2) r [OF p(3) l(1)] r [OF p(4) l(2)] r [OF p(5) l(3)])
qed

lemma lt_refold_ok:
  assumes "lt_cfg_ok c" and th: "lt_th_ok c th" and "lt_saved_ok c bi"
  shows "\<exists>th'. lt_refold c bi th = Some th' \<and> lt_th_ok c th'"
proof -
  have "lt_th_ok c (th\<lparr>lth_computeIndices := fh_next_all (lt_n c) tab h (fh_reset_all (lt_n c) v0 (lth_computeIndices th)),
      lth_computeTags0 := fh_next_all (lt_n c) tab h (fh_reset_all (lt_n c) v1 (lth_computeTags0 th)),
      lth_computeTags1 := fh_next_all (lt_n c) tab h (fh_reset_all (lt_n c) v2 (lth_computeTags1 th))\<rparr>)" for tab h v0 v1 v2
    using th by (simp add: lt_th_ok_def fh_next_all_ok fh_reset_all_ok)
  then show ?thesis unfolding lt_refold_eq [OF assms] by blast
qed

lemma lt_th_ok_outcome:
  "lt_th_ok c th \<Longrightarrow> lt_th_ok c (th\<lparr>lth_globalHistory := (lth_globalHistory th)[i := if b then 1 else 0]\<rparr>)"
  by (simp add: lt_th_ok_def bits_ok_update)

lemma lt_btbUpdate_ok:
  assumes s: "lt_ok s" and t: "tid_index t < length (lt_threadHistory s)" and h: "lt_hist_ok (lt_cfg s) h"
  shows "\<exists>s'. lt_btbUpdate s t pc h = Some s' \<and> lt_ok s' \<and> lt_cfg s' = lt_cfg s"
proof -
  let ?th = "lt_threadHistory s ! tid_index t"
  obtain bi where bi: "h = Some bi" "lt_saved_ok (lt_cfg s) bi" using h by (auto simp: lt_hist_ok_def split: option.splits)
  have c: "lt_cfg_ok (lt_cfg s)" using s by (simp add: lt_ok_def)
  note th = lt_ok_thread(1) [OF s t]
  note pos = lt_buf_pos [OF lt_th_parts(1) [OF th]] and g = lt_th_parts(2) [OF th]
  have "lt_th_ok (lt_cfg s) (?th\<lparr>lth_globalHistory := (lth_globalHistory ?th)[nat (lth_ptGhist ?th) := 0]\<rparr>)"
    using lt_th_ok_outcome [OF th, of "nat (lth_ptGhist ?th)" False] by simp
  from lt_refold_ok [OF c this bi(2)] obtain th' where th': "lt_refold (lt_cfg s) bi
      (?th\<lparr>lth_globalHistory := (lth_globalHistory ?th)[nat (lth_ptGhist ?th) := 0]\<rparr>) = Some th'" "lt_th_ok (lt_cfg s) th'" by blast
  have "lt_btbUpdate s t pc h = Some (s\<lparr>lt_threadHistory := (lt_threadHistory s)[tid_index t := th']\<rparr>)"
    using t pos by (simp add: lt_btbUpdate_def bi(1) fault_simps g th'(1))
  then show ?thesis using lt_ok_thread(2) [OF s th'(2)] by simp
qed

lemma lt_squash_taken_ok:
  assumes s: "lt_ok s" and t: "tid_index t < length (lt_threadHistory s)" and h: "lt_hist_ok (lt_cfg s) (Some bi)"
  shows "\<exists>s'. lt_squash_taken s t taken bi = Some s' \<and> lt_ok s' \<and> lt_cfg s' = lt_cfg s"
proof -
  let ?th = "lt_threadHistory s ! tid_index t" and ?c = "lt_cfg s"
  have bi: "lt_saved_ok ?c bi" "bi_condBranch bi \<longrightarrow> lt_loop_ok ?c bi" using h by (simp_all add: lt_hist_ok_def)
  have c: "lt_cfg_ok ?c" using s by (simp add: lt_ok_def)
  note th = lt_ok_thread(1) [OF s t]
  define th1 where "th1 = ?th\<lparr>lth_pathHist := bi_pathHist bi, lth_ptGhist := bi_ptGhist bi, lth_gHist := bi_ptGhist bi\<rparr>"
  have th1: "lt_th_ok ?c th1" using th bi(1) by (simp add: lt_th_ok_def lt_saved_ok_def th1_def)
  note pos = lt_buf_pos [OF lt_th_parts(1) [OF th1]] and g = lt_th_parts(2) [OF th1]
  obtain th2 where th2: "lt_refold ?c bi (th1\<lparr>lth_globalHistory := (lth_globalHistory th1)[nat (lth_gHist th1) := if taken then 1 else 0]\<rparr>) = Some th2"
    "lt_th_ok ?c th2"
    using lt_refold_ok [OF c lt_th_ok_outcome [OF th1] bi(1)] by blast
  let ?s = "s\<lparr>lt_threadHistory := (lt_threadHistory s)[tid_index t := th2]\<rparr>"
  have ok: "lt_ok ?s" by (rule lt_ok_thread(2) [OF s th2(2)])
  have v: "vec_at (lt_threadHistory s) (tid_index t) = Some ?th" "vec_put (lt_threadHistory s) (tid_index t) th2 = Some ((lt_threadHistory s)[tid_index t := th2])"
    "\<And>x. arr_put (lth_globalHistory th1) (lth_gHist th1) x = Some ((lth_globalHistory th1)[nat (lth_gHist th1) := x])"
    using t pos g by (simp_all add: fault_simps)
  have e: "lt_squash_taken s t taken bi = lt_squash_loop ?s bi"
    by (simp only: lt_squash_taken_def v Option.bind.simps Let_def th1_def [symmetric] th2(1))
  obtain s' where "lt_squash_loop ?s bi = Some s'" "lt_frame ?s s'" using lt_squash_loop_ok [OF ok] bi(2) by auto
  then show ?thesis by (simp add: e lt_frame_def)
qed

lemma lt_getGHR_ok:
  assumes s: "lt_ok s" and t: "tid_index t < length (lt_threadHistory s)" and h: "lt_hist_ok (lt_cfg s) h"
  shows "\<exists>g. lt_getGHR s t h = Some g"
proof -
  let ?th = "lt_threadHistory s ! tid_index t" and ?c = "lt_cfg s"
  obtain bi where bi: "h = Some bi" "lt_pt_ok ?c (bi_ptGhist bi)" using h by (auto simp: lt_hist_ok_def lt_saved_ok_def split: option.splits)
  have m: "31 \<le> uint (lt_maxHist ?c)" using s by (simp add: lt_ok_def lt_cfg_ok_def)
  have l: "length (lth_globalHistory ?th) = unat (lt_histBufferSize ?c)" using lt_ok_thread(1) [OF s t] by (simp add: lt_th_ok_def)
  have "\<exists>g. for_up 32 0 (\<lambda>i val. do {
       let gh_offset = bi_ptGhist bi + int i;
       assert_that (gh_offset < uint (lt_histBufferSize ?c));
       x \<leftarrow> arr_at (lth_globalHistory ?th) gh_offset;
       Some (val OR push_bit i (ucast x AND 1)) }) (0 :: unsigned) = Some g \<and> True"
  proof (rule for_up_invariant [where I = "\<lambda>_ _. True"])
    fix j :: nat and v :: unsigned assume "j < 0 + 32"
    then have b: "0 \<le> bi_ptGhist bi + int j" "bi_ptGhist bi + int j < uint (lt_histBufferSize ?c)"
      using bi(2) m by (simp_all add: lt_pt_ok_def)
    then have "nat (bi_ptGhist bi + int j) < length (lth_globalHistory ?th)" by (simp add: l nat_less_iff)
    with b show "\<exists>s'. (do {
       let gh_offset = bi_ptGhist bi + int j;
       assert_that (gh_offset < uint (lt_histBufferSize ?c));
       x \<leftarrow> arr_at (lth_globalHistory ?th) gh_offset;
       Some (v OR push_bit j (ucast x AND 1)) }) = Some s' \<and> True" by (simp add: fault_simps Let_def)
  qed simp
  then show ?thesis using t by (simp add: lt_getGHR_def bi(1) fault_simps)
qed

subsection \<open>The commit of a branch\<close>

lemma ctrUpdate_ok: "1 \<le> n \<Longrightarrow> n \<le> 8 \<Longrightarrow> \<exists>v. ctrUpdate c b n = Some v"
proof -
  assume n: "1 \<le> n" "n \<le> 8"
  then have "shl_int 1 (int (nat (n - 1))) = Some (push_bit (nat (n - 1)) 1)" by (intro shl_int_small) simp_all
  then show ?thesis using n by (simp add: ctrUpdate_def fault_simps)
qed

lemma lt_baseUpdate_ok:
  assumes "lt_ok s" and "lt_tage_ok (lt_cfg s) bi"
  shows "\<exists>s'. lt_baseUpdate s taken bi = Some s' \<and> lt_frame s s'"
proof -
  have r: "0 \<le> bi_bimodalIndex bi" "nat (bi_bimodalIndex bi) < length (lt_btable s)"
    using assms by (simp_all add: lt_tage_ok_def lt_ok_def nat_less_iff)
  show ?thesis
    unfolding lt_baseUpdate_def arr_at_Some [OF r] arr_put_Some [OF r] Option.bind.simps Let_def
    using assms(1) by (simp add: lt_frame_def lt_ok_tables(2))
qed

lemma lt_slot_nth: "lt_tage_ok c bi \<Longrightarrow> 1 \<le> i \<Longrightarrow> i \<le> lt_n c \<Longrightarrow>
    vec_at (bi_tableIndices bi) i = Some (bi_tableIndices bi ! i) \<and> vec_at (bi_tableTags bi) i = Some (bi_tableTags bi ! i) \<and>
    lt_slot_ok c i (bi_tableIndices bi ! i)"
  by (simp add: lt_tage_ok_def fault_simps)

lemma lt_min_u_ok:
  assumes "lt_gtable_ok c g" and "lt_tage_ok c bi" and "\<forall>i \<in> set banks. 1 \<le> i \<and> i \<le> lt_n c"
  shows "\<exists>m'. lt_min_u g bi banks m = Some m'"
  using assms(3)
proof (induction banks arbitrary: m)
  case (Cons i banks)
  have i: "1 \<le> i" "i \<le> lt_n c" using Cons.prems by simp_all
  note b = lt_slot_nth [OF assms(2) i]
  have "lt_entry g i (bi_tableIndices bi ! i) = Some (g ! i ! nat (bi_tableIndices bi ! i))"
    using b i by (intro lt_entry_ok [OF assms(1)]) auto
  then show ?case using b Cons by simp
qed simp

lemma lt_start_bank_ok:
  assumes "hit < n" and "n \<le> 12"
  shows "\<exists>X. lt_start_bank n hit r = Some X \<and> hit < X \<and> X \<le> n"
proof -
  define d where "d = n - hit - 1"
  have d: "int n - int hit - 1 = int d" "d < 64" using assms by (simp_all add: d_def)
  have m: "ull_mask (int d) = Some (mask d)" using d(2) by (simp add: ull_mask_eq)
  have u: "uint (mask d :: Addr) = mask d" using d(2) by (simp add: uint_mask_eq min_def)
  have b: "(r AND mask d) AND 1 \<noteq> 0 \<longrightarrow> 1 \<le> d" "(r AND mask d) AND 2 \<noteq> 0 \<longrightarrow> 2 \<le> d"
  proof -
    show "(r AND mask d) AND 1 \<noteq> 0 \<longrightarrow> 1 \<le> d" by (cases d) simp_all
    consider "d = 0" | "d = 1" | "2 \<le> d" by linarith
    then show "(r AND mask d) AND 2 \<noteq> 0 \<longrightarrow> 2 \<le> d" by cases (simp_all add: and.assoc mask_eq_exp_minus_1)
  qed
  let ?Y = "r AND mask d"
  have "lt_start_bank n hit r = Some (if ?Y AND 1 \<noteq> 0 then (if ?Y AND 2 \<noteq> 0 then hit + 3 else hit + 2) else hit + 1)"
    by (simp only: lt_start_bank_def d(1) m u Option.bind.simps Let_def)
  moreover have "n = hit + 1 + d" using assms(1) by (simp add: d_def)
  ultimately show ?thesis using b by simp
qed

lemma lt_allocate_ok:
  assumes g: "lt_gtable_ok c g" and bi: "lt_tage_ok c bi" and hit: "bi_hitBank bi < lt_n c" and n: "lt_n c \<le> 12"
  shows "\<exists>g'. lt_allocate (lt_n c) taken bi r g = Some g' \<and> lt_gtable_ok c g'"
proof -
  have banks: "\<forall>i \<in> set (rev [Suc (bi_hitBank bi)..<Suc (lt_n c)]). 1 \<le> i \<and> i \<le> lt_n c" by (auto simp del: upt_Suc)
  obtain m where m: "lt_min_u g bi (rev [Suc (bi_hitBank bi)..<Suc (lt_n c)]) 1 = Some m"
    using lt_min_u_ok [OF g bi banks] by blast
  obtain X where X: "lt_start_bank (lt_n c) (bi_hitBank bi) r = Some X" "bi_hitBank bi < X" "X \<le> lt_n c"
    using lt_start_bank_ok [OF hit n] by blast
  have X1: "1 \<le> X" using X(2) by simp
  note bX = lt_slot_nth [OF bi X1 X(3)]
  obtain g1 where g1: "(if sint m > 0 then do {
         j \<leftarrow> vec_at (bi_tableIndices bi) X;
         lt_entry_upd (\<lambda>e. Some (e\<lparr>te_u := 0\<rparr>)) X j g }
       else Some g) = Some g1" "lt_gtable_ok c g1"
    using lt_entry_upd_ok [OF g X1, of "bi_tableIndices bi ! X" "\<lambda>e. Some (e\<lparr>te_u := 0\<rparr>)"] bX g by (cases "sint m > 0") auto
  let ?f = "\<lambda>tag e. Some (if te_u e = 0 then e\<lparr>te_tag := tag, te_ctr := (if taken then 0 else - 1), te_u := 0\<rparr> else e)"
  have "\<exists>g'. for_up (Suc (lt_n c) - X) X (\<lambda>i g. do { j \<leftarrow> vec_at (bi_tableIndices bi) i; tag \<leftarrow> vec_at (bi_tableTags bi) i; lt_entry_upd (?f tag) i j g }) g1 = Some g' \<and>
    lt_gtable_ok c g'"
  proof (rule for_up_invariant [where I = "\<lambda>_. lt_gtable_ok c"])
    fix j g' assume j: "X \<le> j" "j < X + (Suc (lt_n c) - X)" and g': "lt_gtable_ok c g'"
    have r: "1 \<le> j" "j \<le> lt_n c" using j X1 X(3) by linarith+
    note b = lt_slot_nth [OF bi r]
    show "\<exists>s'. (do { i \<leftarrow> vec_at (bi_tableIndices bi) j; tag \<leftarrow> vec_at (bi_tableTags bi) j; lt_entry_upd (?f tag) j i g' }) = Some s' \<and> lt_gtable_ok c s'"
      using lt_entry_upd_ok [OF g' r(1), of "bi_tableIndices bi ! j" "?f (bi_tableTags bi ! j)"] b by simp
  qed (fact g1(2))
  then show ?thesis by (simp only: lt_allocate_def m X(1) g1(1) Option.bind.simps)
qed

lemma unat_mask64:
  assumes "k < 64"
  shows "unat (mask k :: Addr) + 1 = 2 ^ k"
proof -
  have "uint (mask k :: Addr) = mask k" using assms by (simp add: uint_mask_eq min_def)
  also have "\<dots> = 2 ^ k - 1" by (rule mask_eq_exp_minus_1)
  finally have "int (unat (mask k :: Addr) + 1) = int (2 ^ k)" by simp
  then show ?thesis by (simp only: of_nat_eq_iff)
qed

lemma lt_age_u_ok:
  assumes c: "lt_cfg_ok c" and g: "lt_gtable_ok c g"
  shows "\<exists>g'. lt_age_u c g = Some g' \<and> lt_gtable_ok c g'"
  unfolding lt_age_u_def
proof (rule for_up_invariant [where I = "\<lambda>_. lt_gtable_ok c"])
  fix i g1 assume i: "1 \<le> i" "i < 1 + lt_n c" and g1: "lt_gtable_ok c g1"
  have n: "i \<le> lt_n c" using i by simp
  note b = lt_bank [OF c i(1) n]
  define ts where "ts = lt_tagTableSizes c ! i"
  have ts: "0 \<le> ts" "ts \<le> 30" using b(1) i by (simp_all add: lt_bank_ok_def ts_def)
  have m: "ull_mask ts = Some (mask (nat ts))" using ts by (intro ull_mask_eq) simp_all
  have k: "unat (mask (nat ts) :: Addr) + 1 = 2 ^ nat ts" using ts by (intro unat_mask64) simp
  let ?f = "\<lambda>e. Some (e\<lparr>te_u := signed_drop_bit 1 (te_u e)\<rparr>)"
  have "\<exists>g'. for_up (2 ^ nat ts) 0 (\<lambda>j. lt_entry_upd ?f i (int j)) g1 = Some g' \<and> lt_gtable_ok c g'"
  proof (rule for_up_invariant [where I = "\<lambda>_. lt_gtable_ok c"])
    fix j :: nat and g2 assume j: "j < 0 + 2 ^ nat ts" and g2: "lt_gtable_ok c g2"
    have "int j < int (2 ^ nat ts)" using j unfolding of_nat_less_iff by simp
    then have "lt_slot_ok c i (int j)" using n by (simp add: lt_slot_ok_def ts_def)
    then show "\<exists>s'. lt_entry_upd ?f i (int j) g2 = Some s' \<and> lt_gtable_ok c s'" by (rule lt_entry_upd_ok [OF g2 i(1)]) simp
  qed (fact g1)
  then show "\<exists>s'. (do { ts \<leftarrow> vec_at (lt_tagTableSizes c) i; m \<leftarrow> ull_mask ts; for_up (unat m + 1) 0 (\<lambda>j. lt_entry_upd ?f i (int j)) g1 }) = Some s' \<and>
      lt_gtable_ok c s'"
    using b(4) by (simp only: vec_at_Some ts_def [symmetric] m k Option.bind.simps)
qed (fact g)

lemma lt_frame_refl: "lt_ok s \<Longrightarrow> lt_frame s s"
  by (simp add: lt_frame_def)

lemma lt_frame_gtable_ok: "lt_frame s s' \<Longrightarrow> lt_gtable_ok (lt_cfg s) (lt_gtable s')"
  unfolding lt_frame_def lt_ok_def by metis

lemma lt_frame_gtable: "lt_frame s s' \<Longrightarrow> lt_gtable_ok (lt_cfg s) g \<Longrightarrow> lt_frame s (s'\<lparr>lt_gtable := g\<rparr>)"
  by (simp add: lt_frame_def lt_ok_tables(3))

lemma lt_use_alt_ok:
  assumes "lt_ok s"
  shows "\<exists>s'. lt_use_alt s taken bi = Some s' \<and> lt_frame s s'"
proof -
  obtain v where "ctrUpdate (lt_useAltPredForNewlyAllocated s) (bi_altTaken bi = taken) 4 = Some v"
    using ctrUpdate_ok [of 4] by fastforce
  then show ?thesis using assms by (simp add: lt_use_alt_def lt_frame_def lt_ok_tables)
qed

lemma lt_train_ok:
  assumes s: "lt_ok s" and bi: "lt_tage_ok (lt_cfg s) bi"
  shows "\<exists>s'. lt_train s taken bi = Some s' \<and> lt_frame s s'"
proof (cases "bi_hitBank bi > 0")
  case False
  then show ?thesis using lt_baseUpdate_ok [OF s bi] by (simp add: lt_train_def)
next
  case True
  let ?c = "lt_cfg s"
  define upd where "upd = (\<lambda>e :: TageEntry. do { v \<leftarrow> ctrUpdate (te_ctr e) taken (sint (lt_tagTableCounterBits ?c)); Some (e\<lparr>te_ctr := v\<rparr>) })"
  define useful where "useful = (\<lambda>e :: TageEntry. Some (if sint (te_u e) < 1 then e\<lparr>te_u := te_u e + 1\<rparr> else e))"
  have cb: "1 \<le> uint (lt_tagTableCounterBits ?c)" "uint (lt_tagTableCounterBits ?c) \<le> 8" using s by (simp_all add: lt_ok_def lt_cfg_ok_def)
  then have "sint (lt_tagTableCounterBits ?c) = uint (lt_tagTableCounterBits ?c)" by (intro sint_small) simp
  then have upd: "\<exists>e'. upd e = Some e'" for e using ctrUpdate_ok [OF cb, of "te_ctr e" taken] by (clarsimp simp: upd_def)
  have use: "\<exists>e'. useful e = Some e'" for e by (simp add: useful_def)
  have b: "1 \<le> bi_hitBank bi" "lt_slot_ok ?c (bi_hitBank bi) (bi_hitBankIndex bi)" "lt_slot_ok ?c (bi_altBank bi) (bi_altBankIndex bi)"
    using True bi by (simp_all add: lt_tage_ok_def)
  have g: "lt_gtable_ok ?c (lt_gtable s)" using s by (simp add: lt_ok_def)
  obtain g1 where g1: "lt_entry_upd upd (bi_hitBank bi) (bi_hitBankIndex bi) (lt_gtable s) = Some g1" "lt_gtable_ok ?c g1"
    using lt_entry_upd_ok [of ?c _ _ _ upd, OF g b(1,2) upd] by blast
  let ?s1 = "s\<lparr>lt_gtable := g1\<rparr>"
  have s1: "lt_frame s ?s1" by (rule lt_frame_gtable [OF lt_frame_refl [OF s] g1(2)])
  obtain e where e: "lt_entry g1 (bi_hitBank bi) (bi_hitBankIndex bi) = Some e" using lt_entry_ok [OF g1(2) b(1,2)] by blast
  obtain s2 where s2: "(if te_u e = 0 then if bi_altBank bi > 0 then do {
        g \<leftarrow> lt_entry_upd upd (bi_altBank bi) (bi_altBankIndex bi) (lt_gtable ?s1);
        Some (?s1\<lparr>lt_gtable := g\<rparr>) } else lt_baseUpdate ?s1 taken bi else Some ?s1) = Some s2" "lt_frame s s2"
  proof -
    obtain g2 where g2: "bi_altBank bi > 0 \<longrightarrow> lt_entry_upd upd (bi_altBank bi) (bi_altBankIndex bi) g1 = Some g2 \<and> lt_gtable_ok ?c g2"
      using lt_entry_upd_ok [of ?c _ _ _ upd, OF g1(2) _ b(3) upd] by fastforce
    obtain s3 where "lt_baseUpdate ?s1 taken bi = Some s3" "lt_frame ?s1 s3"
      using lt_baseUpdate_ok [of ?s1 bi taken] s1 bi by (auto simp: lt_frame_def)
    then show ?thesis using that g2 s1 lt_frame_trans [OF s1] lt_frame_gtable [OF s1, of g2]
      by (cases "te_u e = 0"; cases "bi_altBank bi > 0") auto
  qed
  have "lt_gtable_ok ?c (lt_gtable s2)" using s2(2) by (rule lt_frame_gtable_ok)
  then obtain g3 where g3: "lt_entry_upd useful (bi_hitBank bi) (bi_hitBankIndex bi) (lt_gtable s2) = Some g3" "lt_gtable_ok ?c g3"
    using lt_entry_upd_ok [of ?c _ _ _ useful, OF _ b(1,2) use] by blast
  have "lt_train s taken bi = (if bi_longestMatchPred bi \<noteq> bi_altTaken bi \<and> bi_longestMatchPred bi = taken then Some (s2\<lparr>lt_gtable := g3\<rparr>) else Some s2)"
    unfolding lt_train_def Let_def upd_def [symmetric] useful_def [symmetric]
    by (simp only: True if_True g1(1) e s2(1) g3(1) Option.bind.simps)
  then show ?thesis using s2(2) lt_frame_gtable [OF s2(2) g3(2)] by simp
qed

lemma lt_commit_ok:
  assumes s: "lt_ok s" and h: "lt_hist_ok (lt_cfg s) (Some bi)"
  shows "\<exists>s'. lt_update s t pc taken (Some bi) False = Some s' \<and> lt_frame s s'"
proof (cases "bi_condBranch bi")
  case False
  then show ?thesis using s by (simp add: lt_update_def Let_def lt_frame_def lt_ok_tables(4))
next
  case True
  let ?c = "lt_cfg s" and ?r = "lt_rand (lt_cfg s) (lt_draws s) mod 4" and ?s0 = "s\<lparr>lt_draws := lt_draws s + 1\<rparr>"
  have bi: "lt_loop_ok ?c bi" "lt_tage_ok ?c bi" using h True by (simp_all add: lt_hist_ok_def)
  have c: "lt_cfg_ok ?c" using s by (simp add: lt_ok_def)
  have n: "lt_n ?c \<le> 12" "lt_logTick ?c = 19" using c by (simp_all add: lt_cfg_ok_def)
  have s0: "lt_frame s ?s0" using s by (simp add: lt_frame_def lt_ok_tables(4))
  obtain s1 where s1: "lt_loopUpdate ?s0 taken bi = Some s1" "lt_frame s s1"
    using lt_loopUpdate_ok [of ?s0 bi taken] s0 bi(1) by (auto simp: lt_frame_def)
  obtain s2 where s2: "(if bi_loopPredValid bi \<and> bi_tagePred bi \<noteq> bi_loopPred bi then do {
      v \<leftarrow> ctrUpdate (lt_loopUseCounter s1) (bi_loopPred bi = taken) 7; Some (s1\<lparr>lt_loopUseCounter := v\<rparr>) } else Some s1) = Some s2"
    "lt_frame s s2"
    using s1(2) ctrUpdate_ok [of 7 "lt_loopUseCounter s1" "bi_loopPred bi = taken"]
    by (cases "bi_loopPredValid bi \<and> bi_tagePred bi \<noteq> bi_loopPred bi") (auto simp: lt_frame_def lt_ok_tables(5))
  obtain s3 where s3: "lt_use_alt s2 taken bi = Some s3" "lt_frame s s3"
    using lt_use_alt_ok [of s2 taken bi] s2(2) by (auto simp: lt_frame_def)
  define alloc where "alloc = (bi_tagePred bi \<noteq> taken \<and> bi_hitBank bi < lt_n ?c \<and>
    \<not> (bi_hitBank bi > 0 \<and> bi_pseudoNewAlloc bi \<and> bi_longestMatchPred bi = taken))"
  have g: "lt_gtable_ok ?c (lt_gtable s3)" using s3(2) by (rule lt_frame_gtable_ok)
  obtain g1 where g1: "(if alloc then lt_allocate (lt_n ?c) taken bi ?r (lt_gtable s3) else Some (lt_gtable s3)) = Some g1" "lt_gtable_ok ?c g1"
  proof (cases alloc)
    case True
    then show ?thesis using that lt_allocate_ok [OF g bi(2) _ n(1), of taken ?r] by (auto simp: alloc_def)
  qed (use that g in auto)
  define s4 where "s4 = s3\<lparr>lt_gtable := g1, lt_tCounter := lt_tCounter s3 + 1\<rparr>"
  have s4: "lt_frame s s4" "lt_gtable s4 = g1" using lt_frame_gtable [OF s3(2) g1(2)] by (simp_all add: s4_def lt_frame_def lt_ok_tables(7))
  obtain g2 where g2: "(if (signed (lt_tCounter s4) :: Addr) AND mask 19 = 0 then lt_age_u ?c (lt_gtable s4) else Some (lt_gtable s4)) = Some g2"
    "lt_gtable_ok ?c g2"
    using lt_age_u_ok [OF c g1(2)] g1(2) unfolding s4(2) by (metis (full_types))
  have s5: "lt_frame s (s4\<lparr>lt_gtable := g2\<rparr>)" by (rule lt_frame_gtable [OF s4(1) g2(2)])
  obtain s6 where s6: "lt_train (s4\<lparr>lt_gtable := g2\<rparr>) taken bi = Some s6" "lt_frame (s4\<lparr>lt_gtable := g2\<rparr>) s6"
    using lt_train_ok [of "s4\<lparr>lt_gtable := g2\<rparr>" bi taken] s5 bi(2) by (auto simp: lt_frame_def)
  have m: "ull_mask 19 = Some (mask 19)" by (simp add: ull_mask_eq)
  have "lt_update s t pc taken (Some bi) False = Some s6"
    by (simp only: lt_update_def Option.bind.simps if_False True if_True Let_def s1(1) s2(1) s3(1) alloc_def [symmetric] g1(1)
        s4_def [symmetric] n(2) m g2(1) s6(1))
  then show ?thesis using lt_frame_trans [OF s5 s6(2)] by blast
qed

interpretation ltage: direction_predictor LTAGEDir lt_ok lt_cfg lt_threads lt_hist_ok
proof unfold_locales
  fix s :: LTAGE and t :: ThreadID and a b q and h :: "BranchInfo option"
  assume s: "lt_ok s" and "tid_index t < lt_threads (lt_cfg s)"
  then have t: "tid_index t < length (lt_threadHistory s)" by (simp add: lt_threads_length)
  define th where "th = lt_threadHistory s ! tid_index t"
  have th: "lt_th_ok (lt_cfg s) th" using lt_ok_thread(1) [OF s t] by (simp add: th_def)
  have adv: "lt_ok (s1\<lparr>lt_threadHistory := (lt_threadHistory s)[tid_index t := lt_advance (lt_cfg s) th (tab[nat pt := if x then 1 else 0]) pt (lt_next_path th a)]\<rparr>) \<and>
      lt_cfg (s1\<lparr>lt_threadHistory := (lt_threadHistory s)[tid_index t := lt_advance (lt_cfg s) th (tab[nat pt := if x then 1 else 0]) pt (lt_next_path th a)]\<rparr>) = lt_cfg s"
    if "lt_frame s s1" "lt_buf_ok (lt_cfg s) tab pt" for s1 tab pt x
    by (rule lt_frame_threads [OF that(1) lt_advance_ok [OF th lt_buf_ok_update [OF that(2)] lt_next_path_range]])
  show "\<exists>b h s'. dp_lookup LTAGEDir s t a = Some (b, h, s') \<and> lt_ok s' \<and> lt_cfg s' = lt_cfg s \<and> lt_hist_ok (lt_cfg s) h"
    unfolding LTAGEDir_simps by (rule lt_lookup_eq [OF s t th_def]) (use adv in blast)
  show "\<exists>h s'. dp_uncondBranch LTAGEDir s t a = Some (h, s') \<and> lt_ok s' \<and> lt_cfg s' = lt_cfg s \<and> lt_hist_ok (lt_cfg s) h"
    unfolding LTAGEDir_simps by (rule lt_uncondBranch_eq [OF s t th_def]) (use adv in blast)
  assume h: "lt_hist_ok (lt_cfg s) h"
  then obtain bi where bi: "h = Some bi" by (cases h) (simp_all add: lt_hist_ok_def)
  show "\<exists>s'. dp_btbUpdate LTAGEDir s t a h = Some s' \<and> lt_ok s' \<and> lt_cfg s' = lt_cfg s" using lt_btbUpdate_ok [OF s t h] by simp
  show "\<exists>g. dp_getGHR LTAGEDir s t h = Some g" using lt_getGHR_ok [OF s t h] by simp
  show "\<exists>s'. dp_update LTAGEDir s t a b h q = Some s' \<and> lt_ok s' \<and> lt_cfg s' = lt_cfg s"
    using lt_commit_ok [OF s h [unfolded bi], of t a b] lt_squash_taken_ok [OF s t h [unfolded bi], of b]
    by (cases q) (auto simp: bi lt_update_def [of s t a b "Some bi" True] lt_frame_def)
  show "\<exists>s'. dp_squash LTAGEDir s t h = Some s' \<and> lt_ok s' \<and> lt_cfg s' = lt_cfg s"
    using lt_squash_loop_ok [OF s, of bi] h by (auto simp: bi lt_hist_ok_def lt_squash_def lt_frame_def)
qed

subsection \<open>Construction\<close>

text \<open>
  Parameters for which the constructor returns, and those for which moreover no shift of \<open>F\<close> is out
  of range: the table of each bank has an index of at least as many bits as the number of the bank.
  The floating-point expression for the history lengths is the parameter \<open>geom\<close>; \<open>geom_ok\<close> is what
  the code relies on: the lengths lie between 0 and \<open>maxHist\<close>.
\<close>

definition ltage_bank_ok :: "LTAGEParams \<Rightarrow> nat \<Rightarrow> bool" where
  "ltage_bank_ok p i \<longleftrightarrow> 1 \<le> lt_tag_table_sizes 0 p ! i \<and> lt_tag_table_sizes 0 p ! i \<le> 30 \<and>
     2 \<le> lt_tag_widths 0 p ! i \<and> lt_tag_widths 0 p ! i \<le> 31"

definition ltage_params_ok :: "LTAGEParams \<Rightarrow> bool" where
  "ltage_params_ok p \<longleftrightarrow> 1 \<le> unat (ltp_nHistoryTables p) \<and> unat (ltp_nHistoryTables p) \<le> 12 \<and>
     list_all (ltage_bank_ok p) [1..<Suc (unat (ltp_nHistoryTables p))] \<and>
     unat (ltp_logSizeBiMP p) \<le> 31 \<and> 2 \<le> unat (ltp_logSizeLoopPred p) \<and> unat (ltp_logSizeLoopPred p) \<le> 31 \<and>
     1 \<le> uint (ltp_tagTableCounterBits p) \<and> uint (ltp_tagTableCounterBits p) \<le> 8 \<and>
     31 \<le> uint (ltp_maxHist p) \<and> uint (ltp_minHist p) \<le> uint (ltp_maxHist p) \<and>
     2 * uint (ltp_maxHist p) < uint (ltp_histBufferSize p) \<and> uint (ltp_histBufferSize p) < 2 ^ 31"

definition ltage_shifts_ok :: "LTAGEParams \<Rightarrow> bool" where
  "ltage_shifts_ok p \<longleftrightarrow> list_all (\<lambda>i. int i \<le> lt_tag_table_sizes 0 p ! i) [1..<Suc (unat (ltp_nHistoryTables p))]"

definition geom_ok :: "(unsigned \<Rightarrow> unsigned \<Rightarrow> unsigned \<Rightarrow> nat \<Rightarrow> int) \<Rightarrow> LTAGEParams \<Rightarrow> bool" where
  "geom_ok geom p \<longleftrightarrow> list_all (\<lambda>i. 0 \<le> geom (ltp_minHist p) (ltp_maxHist p) (ltp_nHistoryTables p) i \<and>
     geom (ltp_minHist p) (ltp_maxHist p) (ltp_nHistoryTables p) i \<le> uint (ltp_maxHist p)) [2..<Suc (unat (ltp_nHistoryTables p))]"

lemma lt_lists_junk:
  assumes "1 \<le> i" and "i \<le> 12"
  shows "lt_tag_widths junk p ! i = lt_tag_widths 0 p ! i" and "lt_tag_table_sizes junk p ! i = lt_tag_table_sizes 0 p ! i"
proof -
  have "i = 1 \<or> i = 2 \<or> i = 3 \<or> i = 4 \<or> i = 5 \<or> i = 6 \<or> i = 7 \<or> i = 8 \<or> i = 9 \<or> i = 10 \<or> i = 11 \<or> i = 12"
    using assms by presburger
  then show "lt_tag_widths junk p ! i = lt_tag_widths 0 p ! i" "lt_tag_table_sizes junk p ! i = lt_tag_table_sizes 0 p ! i"
    by (auto simp: lt_tag_widths_def lt_tag_table_sizes_def Let_def)
qed

lemma lt_hist_lengths_ok:
  assumes p: "ltage_params_ok p" and g: "geom_ok geom p"
  shows "\<exists>hl. lt_hist_lengths (geom (ltp_minHist p) (ltp_maxHist p) (ltp_nHistoryTables p)) p = Some hl \<and>
    length hl = unat (ltp_nHistoryTables p) + 1 \<and> (\<forall>i \<le> unat (ltp_nHistoryTables p). 0 \<le> hl ! i \<and> hl ! i \<le> uint (ltp_maxHist p))"
proof -
  let ?n = "unat (ltp_nHistoryTables p)" and ?g = "geom (ltp_minHist p) (ltp_maxHist p) (ltp_nHistoryTables p)"
  have n: "1 \<le> ?n" and m: "uint (ltp_minHist p) \<le> uint (ltp_maxHist p)" "2 * uint (ltp_maxHist p) < 2 ^ 31"
    using p by (simp_all add: ltage_params_ok_def)
  have "uint (ltp_maxHist p) < 2 ^ 31" "uint (ltp_minHist p) < 2 ^ 31" using m uint_ge_0 [of "ltp_maxHist p"] by linarith+
  then have s: "sint (ltp_maxHist p) = uint (ltp_maxHist p)" "sint (ltp_minHist p) = uint (ltp_minHist p)" by (simp_all only: sint_small)
  define I where "I = (\<lambda>(_ :: nat) hl. length hl = ?n + 1 \<and> (\<forall>i \<le> ?n. 0 \<le> hl ! i \<and> hl ! i \<le> uint (ltp_maxHist p)))"
  define z where "z = replicate (?n + 1) (0 :: int)"
  have z: "length z = ?n + 1" "\<And>i. i \<le> ?n \<Longrightarrow> z ! i = 0" unfolding z_def by (simp_all only: length_replicate nth_replicate less_Suc_eq_le Suc_eq_plus1 [symmetric])
  define hl where "hl = list_update (list_update z 1 (uint (ltp_minHist p))) ?n (uint (ltp_maxHist p))"
  have "\<exists>hl'. for_up (?n - 1) 2 (\<lambda>i hl. vec_put hl i (?g i)) hl = Some hl' \<and> I (2 + (?n - 1)) hl'"
  proof (rule for_up_invariant)
    show "I 2 hl" using m(1) z by (auto simp: I_def hl_def nth_list_update)
  next
    fix j xs assume j: "2 \<le> j" "j < 2 + (?n - 1)" and I: "I j xs"
    have "0 \<le> ?g j \<and> ?g j \<le> uint (ltp_maxHist p)" using g j n by (simp add: geom_ok_def list_all_iff del: upt_Suc)
    then show "\<exists>xs'. vec_put xs j (?g j) = Some xs' \<and> I (Suc j) xs'" using I j n by (auto simp: I_def fault_simps nth_list_update)
  qed
  moreover have v: "vec_put z 1 x = Some (list_update z 1 x)" "vec_put (list_update z 1 x) ?n y = Some (list_update (list_update z 1 x) ?n y)" for x y
    using n z(1) by (simp_all add: vec_put_Some)
  have "lt_hist_lengths ?g p = for_up (?n - 1) 2 (\<lambda>i hl. vec_put hl i (?g i)) hl"
    by (simp only: lt_hist_lengths_def Let_def z_def [symmetric] s v Option.bind.simps hl_def)
  ultimately show ?thesis by (simp add: I_def)
qed

lemma ltage_bank:
  assumes "ltage_params_ok p" and "1 \<le> i" and "i \<le> unat (ltp_nHistoryTables p)"
  shows "1 \<le> lt_tag_table_sizes junk p ! i" and "lt_tag_table_sizes junk p ! i \<le> 30"
    and "2 \<le> lt_tag_widths junk p ! i" and "lt_tag_widths junk p ! i \<le> 31"
    and "ltage_shifts_ok p \<Longrightarrow> int i \<le> lt_tag_table_sizes junk p ! i"
proof -
  have n: "unat (ltp_nHistoryTables p) \<le> 12" and l: "list_all (ltage_bank_ok p) [1..<Suc (unat (ltp_nHistoryTables p))]"
    using assms(1) by (simp_all only: ltage_params_ok_def)
  have i: "i \<le> 12" using n assms(3) by simp
  have m: "i \<in> set [1..<Suc (unat (ltp_nHistoryTables p))]" using assms(2,3) by (auto simp del: upt_Suc)
  then have "ltage_bank_ok p i" using l by (simp only: list_all_iff)
  then show "1 \<le> lt_tag_table_sizes junk p ! i" "lt_tag_table_sizes junk p ! i \<le> 30"
    "2 \<le> lt_tag_widths junk p ! i" "lt_tag_widths junk p ! i \<le> 31"
    unfolding lt_lists_junk [OF assms(2) i, of junk] by (simp_all add: ltage_bank_ok_def)
  show "int i \<le> lt_tag_table_sizes junk p ! i" if "ltage_shifts_ok p"
    unfolding lt_lists_junk [OF assms(2) i, of junk] using that m by (simp only: ltage_shifts_ok_def list_all_iff)
qed

lemma lt_lists_length: "length (lt_tag_widths junk p) = 15" "length (lt_tag_table_sizes junk p) = 15"
  by (simp_all add: lt_tag_widths_def lt_tag_table_sizes_def Let_def)

lemma lt_fold_inits_ok:
  assumes "length hl = n + 1" and "n < length cl"
    and "\<And>i. 1 \<le> i \<Longrightarrow> i \<le> n \<Longrightarrow> 0 \<le> hl ! i \<and> 0 < cl ! i - d \<and> cl ! i - d < 32"
  shows "\<exists>fs. lt_fold_inits z hl cl d n = Some fs \<and> length fs = n + 1 \<and>
    (\<forall>i. 1 \<le> i \<longrightarrow> i \<le> n \<longrightarrow> fh_ok (hl ! i) (cl ! i - d) (fs ! i) \<and> fh_comp (fs ! i) = 0)"
proof -
  have "\<exists>f. (do { len \<leftarrow> vec_at hl i; l \<leftarrow> vec_at cl i; fh_init len (l - d) }) = Some f \<and> fh_ok (hl ! i) (cl ! i - d) f \<and> fh_comp f = 0"
    if "1 \<le> i" "i \<le> n" for i
    using fh_init_ok [of "cl ! i - d" "hl ! i"] assms(3) [OF that] assms(1,2) that by (simp add: vec_at_Some)
  from those_banks_ok [of n _ "\<lambda>i f. fh_ok (hl ! i) (cl ! i - d) f \<and> fh_comp f = 0" z, OF this]
  show ?thesis by (auto simp: lt_fold_inits_def simp del: upt_Suc)
qed

text \<open>The registers of a thread are the folds of its buffer.\<close>

definition lt_folded :: "LTAGECfg \<Rightarrow> ThreadHistory \<Rightarrow> bool" where
  "lt_folded c th \<longleftrightarrow> (let h = outcome_at (lth_globalHistory th) (lth_ptGhist th) in
     \<forall>i. 1 \<le> i \<longrightarrow> i \<le> lt_n c \<longrightarrow> (let len = nat (lt_histLengths c ! i) in
       fh_comp (lth_computeIndices th ! i) = hist_fold (nat (lt_tagTableSizes c ! i)) h len \<and>
       fh_comp (lth_computeTags0 th ! i) = hist_fold (nat (lt_tagWidths c ! i)) h len \<and>
       fh_comp (lth_computeTags1 th ! i) = hist_fold (nat (lt_tagWidths c ! i - 1)) h len))"

lemma hist_fold_zero: "(\<And>i. i < n \<Longrightarrow> \<not> f i) \<Longrightarrow> hist_fold L f n = 0"
  by (induction n) simp_all

text \<open>The configuration and the thread history a constructed predictor has.\<close>

definition ltage_cfg :: "int \<Rightarrow> (nat \<Rightarrow> int) \<Rightarrow> LTAGEParams \<Rightarrow> int list \<Rightarrow> LTAGECfg" where
  "ltage_cfg junk rand p hl = \<lparr>lt_numThreads = ltp_numThreads p, lt_logSizeBiMP = ltp_logSizeBiMP p,
      lt_logSizeTagTables = ltp_logSizeTagTables p, lt_logSizeLoopPred = ltp_logSizeLoopPred p,
      lt_nHistoryTables = ltp_nHistoryTables p, lt_tagTableCounterBits = ltp_tagTableCounterBits p,
      lt_histBufferSize = ltp_histBufferSize p, lt_minHist = ltp_minHist p, lt_maxHist = ltp_maxHist p,
      lt_minTagWidth = ltp_minTagWidth p, lt_tagWidths = lt_tag_widths junk p, lt_tagTableSizes = lt_tag_table_sizes junk p,
      lt_histLengths = hl, lt_logTick = 19, lt_rand = rand\<rparr>"

definition ltage_thread :: "LTAGEParams \<Rightarrow> FoldedHistory list \<Rightarrow> FoldedHistory list \<Rightarrow> FoldedHistory list \<Rightarrow> ThreadHistory" where
  "ltage_thread p ci ct0 ct1 = \<lparr>lth_pathHist = 0, lth_globalHistory = replicate (unat (ltp_histBufferSize p)) 0, lth_gHist = 0,
      lth_ptGhist = 0, lth_computeIndices = ci, lth_computeTags0 = ct0, lth_computeTags1 = ct1\<rparr>"

definition ltage_state :: "LTAGECfg \<Rightarrow> LTAGEParams \<Rightarrow> TageEntry list list \<Rightarrow> ThreadHistory \<Rightarrow> LTAGE" where
  "ltage_state c p gt th = \<lparr>lt_cfg = c, lt_btable = replicate (2 ^ unat (ltp_logSizeBiMP p)) BimodalEntry_default, lt_gtable = [] # gt,
      lt_ltable = replicate (2 ^ unat (ltp_logSizeLoopPred p)) LoopEntry_default,
      lt_threadHistory = replicate (unat (ltp_numThreads p)) th, lt_loopUseCounter = 0, lt_useAltPredForNewlyAllocated = 0,
      lt_tCounter = push_bit (nat (19 - 1)) 1, lt_draws = 0\<rparr>"

definition fresh_folds :: "int list \<Rightarrow> (nat \<Rightarrow> int) \<Rightarrow> nat \<Rightarrow> FoldedHistory list \<Rightarrow> bool" where
  "fresh_folds hl cl n fs \<longleftrightarrow> length fs = n + 1 \<and> (\<forall>i. 1 \<le> i \<longrightarrow> i \<le> n \<longrightarrow> fh_ok (hl ! i) (cl i) (fs ! i) \<and> fh_comp (fs ! i) = 0)"

lemma ltage_folds_exist:
  assumes p: "ltage_params_ok p" and hl: "length hl = unat (ltp_nHistoryTables p) + 1" "\<And>i. i \<le> unat (ltp_nHistoryTables p) \<Longrightarrow> 0 \<le> hl ! i"
  obtains ci ct0 ct1 where
    "lt_fold_inits z hl (lt_tag_table_sizes junk p) 0 (unat (ltp_nHistoryTables p)) = Some ci"
    "lt_fold_inits z hl (lt_tag_widths junk p) 0 (unat (ltp_nHistoryTables p)) = Some ct0"
    "lt_fold_inits z hl (lt_tag_widths junk p) 1 (unat (ltp_nHistoryTables p)) = Some ct1"
    "fresh_folds hl (\<lambda>i. lt_tag_table_sizes junk p ! i) (unat (ltp_nHistoryTables p)) ci"
    "fresh_folds hl (\<lambda>i. lt_tag_widths junk p ! i) (unat (ltp_nHistoryTables p)) ct0"
    "fresh_folds hl (\<lambda>i. lt_tag_widths junk p ! i - 1) (unat (ltp_nHistoryTables p)) ct1"
proof -
  let ?n = "unat (ltp_nHistoryTables p)" and ?ts = "lt_tag_table_sizes junk p" and ?tw = "lt_tag_widths junk p"
  note b = ltage_bank(1-4) [OF p, of _ junk]
  have "?n \<le> 12" using p by (simp add: ltage_params_ok_def)
  then have len: "?n < length ?ts" "?n < length ?tw" by (simp_all add: lt_lists_length)
  have r: "0 \<le> hl ! i \<and> 0 < ?ts ! i - 0 \<and> ?ts ! i - 0 < 32" "0 \<le> hl ! i \<and> 0 < ?tw ! i - 0 \<and> ?tw ! i - 0 < 32"
    "0 \<le> hl ! i \<and> 0 < ?tw ! i - 1 \<and> ?tw ! i - 1 < 32" if "1 \<le> i" "i \<le> ?n" for i
    using b [OF that] hl(2) [OF that(2)] by simp_all
  obtain ci ct0 ct1 where "lt_fold_inits z hl ?ts 0 ?n = Some ci" "fresh_folds hl (\<lambda>i. ?ts ! i - 0) ?n ci"
    "lt_fold_inits z hl ?tw 0 ?n = Some ct0" "fresh_folds hl (\<lambda>i. ?tw ! i - 0) ?n ct0"
    "lt_fold_inits z hl ?tw 1 ?n = Some ct1" "fresh_folds hl (\<lambda>i. ?tw ! i - 1) ?n ct1"
    unfolding fresh_folds_def
    using lt_fold_inits_ok [OF hl(1) len(1) r(1)] lt_fold_inits_ok [OF hl(1) len(2) r(2)] lt_fold_inits_ok [OF hl(1) len(2) r(3)] by blast
  then show ?thesis using that by simp
qed

lemma ltage_tables_exist:
  assumes p: "ltage_params_ok p"
  shows "\<exists>gt. those (map (\<lambda>i. do { l \<leftarrow> vec_at (lt_tag_table_sizes junk p) i; sz \<leftarrow> shl_int 1 l; Some (replicate (nat sz) TageEntry_default) })
      [1..<Suc (unat (ltp_nHistoryTables p))]) = Some gt \<and> length ([] # gt) = unat (ltp_nHistoryTables p) + 1 \<and>
    (\<forall>i. 1 \<le> i \<longrightarrow> i \<le> unat (ltp_nHistoryTables p) \<longrightarrow> length (([] # gt) ! i) = 2 ^ nat (lt_tag_table_sizes junk p ! i))"
proof (rule those_banks_ok)
  fix i assume i: "1 \<le> i" "i \<le> unat (ltp_nHistoryTables p)"
  have "i < length (lt_tag_table_sizes junk p)" using i p by (simp add: lt_lists_length ltage_params_ok_def)
  then show "\<exists>t. (do { l \<leftarrow> vec_at (lt_tag_table_sizes junk p) i; sz \<leftarrow> shl_int 1 l; Some (replicate (nat sz) TageEntry_default) }) = Some t \<and>
      length t = 2 ^ nat (lt_tag_table_sizes junk p ! i)"
    using shl_bit [of "lt_tag_table_sizes junk p ! i" True] ltage_bank(1,2) [OF p i, of junk] by (simp add: vec_at_Some nat_power_eq)
qed

lemma LTAGE_new_eq:
  assumes p: "ltage_params_ok p" and g: "geom_ok geom p"
  obtains hl ci ct0 ct1 gt where
    "LTAGE_new junk junkf geom rand p = Some (ltage_state (ltage_cfg junk rand p hl) p gt (ltage_thread p ci ct0 ct1))"
    "length hl = unat (ltp_nHistoryTables p) + 1" "\<And>i. i \<le> unat (ltp_nHistoryTables p) \<Longrightarrow> 0 \<le> hl ! i \<and> hl ! i \<le> uint (ltp_maxHist p)"
    "fresh_folds hl (\<lambda>i. lt_tag_table_sizes junk p ! i) (unat (ltp_nHistoryTables p)) ci"
    "fresh_folds hl (\<lambda>i. lt_tag_widths junk p ! i) (unat (ltp_nHistoryTables p)) ct0"
    "fresh_folds hl (\<lambda>i. lt_tag_widths junk p ! i - 1) (unat (ltp_nHistoryTables p)) ct1"
    "lt_gtable_ok (ltage_cfg junk rand p hl) ([] # gt)"
proof -
  let ?n = "unat (ltp_nHistoryTables p)" and ?ts = "lt_tag_table_sizes junk p" and ?tw = "lt_tag_widths junk p"
  obtain hl where hl: "lt_hist_lengths (geom (ltp_minHist p) (ltp_maxHist p) (ltp_nHistoryTables p)) p = Some hl"
    "length hl = ?n + 1" "\<And>i. i \<le> ?n \<Longrightarrow> 0 \<le> hl ! i \<and> hl ! i \<le> uint (ltp_maxHist p)"
    using lt_hist_lengths_ok [OF p g] by blast
  obtain ci ct0 ct1 where f: "lt_fold_inits junkf hl ?ts 0 ?n = Some ci" "lt_fold_inits junkf hl ?tw 0 ?n = Some ct0"
    "lt_fold_inits junkf hl ?tw 1 ?n = Some ct1" and fr: "fresh_folds hl (\<lambda>i. ?ts ! i) ?n ci" "fresh_folds hl (\<lambda>i. ?tw ! i) ?n ct0"
    "fresh_folds hl (\<lambda>i. ?tw ! i - 1) ?n ct1"
    by (rule ltage_folds_exist [OF p hl(2)]) (use hl(3) in auto)
  obtain gt where gt: "those (map (\<lambda>i. do { l \<leftarrow> vec_at ?ts i; sz \<leftarrow> shl_int 1 l; Some (replicate (nat sz) TageEntry_default) }) [1..<Suc ?n]) = Some gt"
    "length ([] # gt) = ?n + 1" "\<And>i. 1 \<le> i \<Longrightarrow> i \<le> ?n \<Longrightarrow> length (([] # gt) ! i) = 2 ^ nat (?ts ! i)"
    using ltage_tables_exist [OF p, of junk] by blast
  have "2 * uint (ltp_maxHist p) < uint (ltp_histBufferSize p)" using p by (simp add: ltage_params_ok_def)
  then have "unat (ltp_maxHist p) * 2 < unat (ltp_histBufferSize p)" unfolding of_nat_less_iff [symmetric, where 'a = int] by simp
  then have a: "ltp_histBufferSize p > ltp_maxHist p * 2"
    using unsigned_less [of "ltp_histBufferSize p", where ?'a = nat] by (simp add: word_less_nat_alt unat_word_ariths(2))
  have m: "ull_mask (uint (ltp_logSizeBiMP p)) = Some (mask (unat (ltp_logSizeBiMP p)))"
    "ull_mask (uint (ltp_logSizeLoopPred p)) = Some (mask (unat (ltp_logSizeLoopPred p)))"
    using p by (simp_all add: ull_mask_unat ltage_params_ok_def)
  have "LTAGE_new junk junkf geom rand p = Some (ltage_state (ltage_cfg junk rand p hl) p gt (ltage_thread p ci ct0 ct1))"
    by (simp only: LTAGE_new_def assert_that_True [OF a] hl(1) f gt(1) m Option.bind.simps Let_def ltage_state_def ltage_cfg_def ltage_thread_def)
  moreover have "lt_gtable_ok (ltage_cfg junk rand p hl) ([] # gt)" using gt(2,3) by (simp add: lt_gtable_ok_def ltage_cfg_def)
  ultimately show ?thesis using that hl(2,3) fr by blast
qed

lemma ltage_cfg_ok:
  assumes p: "ltage_params_ok p" and sh: "ltage_shifts_ok p" and "length hl = unat (ltp_nHistoryTables p) + 1"
    and hl: "\<And>i. i \<le> unat (ltp_nHistoryTables p) \<Longrightarrow> 0 \<le> hl ! i \<and> hl ! i \<le> uint (ltp_maxHist p)"
  shows "lt_cfg_ok (ltage_cfg junk rand p hl)"
proof -
  let ?c = "ltage_cfg junk rand p hl"
  have "list_all (lt_bank_ok ?c) [1..<Suc (lt_n ?c)]"
    unfolding list_all_iff using ltage_bank(2-4) [OF p, of _ junk] ltage_bank(5) [OF p _ _ sh, of _ junk] hl
    by (auto simp: ltage_cfg_def lt_bank_ok_def simp del: upt_Suc)
  then show ?thesis
    using p assms(3) by (simp add: lt_cfg_ok_def ltage_params_ok_def ltage_cfg_def lt_lists_length del: upt_Suc)
qed

lemma ltage_thread_ok:
  assumes p: "ltage_params_ok p" and hl: "\<And>i. i \<le> unat (ltp_nHistoryTables p) \<Longrightarrow> 0 \<le> hl ! i \<and> hl ! i \<le> uint (ltp_maxHist p)"
    and f: "fresh_folds hl (\<lambda>i. lt_tag_table_sizes junk p ! i) (unat (ltp_nHistoryTables p)) ci"
      "fresh_folds hl (\<lambda>i. lt_tag_widths junk p ! i) (unat (ltp_nHistoryTables p)) ct0"
      "fresh_folds hl (\<lambda>i. lt_tag_widths junk p ! i - 1) (unat (ltp_nHistoryTables p)) ct1"
  shows "lt_th_ok (ltage_cfg junk rand p hl) (ltage_thread p ci ct0 ct1)" and "lt_folded (ltage_cfg junk rand p hl) (ltage_thread p ci ct0 ct1)"
proof -
  have "2 * uint (ltp_maxHist p) < uint (ltp_histBufferSize p)" using p by (simp add: ltage_params_ok_def)
  then have mh: "uint (ltp_maxHist p) < uint (ltp_histBufferSize p)" using uint_ge_0 [of "ltp_maxHist p"] by linarith
  have "bits_ok (replicate k 0)" for k by (simp add: bits_ok_def list_all_replicate)
  then show "lt_th_ok (ltage_cfg junk rand p hl) (ltage_thread p ci ct0 ct1)"
    using f mh by (simp add: lt_th_ok_def ltage_thread_def ltage_cfg_def lt_folds_ok_def fresh_folds_def lt_pt_ok_def)
  have "hist_fold L (outcome_at (replicate (unat (ltp_histBufferSize p)) 0) 0) (nat (hl ! i)) = 0" if "i \<le> unat (ltp_nHistoryTables p)" for L i
  proof (rule hist_fold_zero)
    fix k assume "k < nat (hl ! i)"
    then have "int k < hl ! i" by linarith
    then have "int k < uint (ltp_histBufferSize p)" using hl [OF that] mh by linarith
    then have "int k < int (unat (ltp_histBufferSize p))" by simp
    then have "k < unat (ltp_histBufferSize p)" by (simp only: of_nat_less_iff)
    then show "\<not> outcome_at (replicate (unat (ltp_histBufferSize p)) 0) 0 k" by (simp add: outcome_at_def)
  qed
  then show "lt_folded (ltage_cfg junk rand p hl) (ltage_thread p ci ct0 ct1)"
    using f by (simp add: lt_folded_def ltage_thread_def ltage_cfg_def fresh_folds_def Let_def)
qed

lemma LTAGE_new_ok:
  assumes p: "ltage_params_ok p" and sh: "ltage_shifts_ok p" and g: "geom_ok geom p"
  shows "\<exists>s. LTAGE_new junk junkf geom rand p = Some s \<and> lt_ok s \<and> lt_numThreads (lt_cfg s) = ltp_numThreads p \<and>
    list_all (lt_folded (lt_cfg s)) (lt_threadHistory s)"
proof (rule LTAGE_new_eq [OF p g, of junk junkf rand])
  fix hl ci ct0 ct1 gt
  let ?c = "ltage_cfg junk rand p hl" and ?th = "ltage_thread p ci ct0 ct1"
  assume new: "LTAGE_new junk junkf geom rand p = Some (ltage_state ?c p gt ?th)"
    and hl: "length hl = unat (ltp_nHistoryTables p) + 1" "\<And>i. i \<le> unat (ltp_nHistoryTables p) \<Longrightarrow> 0 \<le> hl ! i \<and> hl ! i \<le> uint (ltp_maxHist p)"
    and f: "fresh_folds hl (\<lambda>i. lt_tag_table_sizes junk p ! i) (unat (ltp_nHistoryTables p)) ci"
      "fresh_folds hl (\<lambda>i. lt_tag_widths junk p ! i) (unat (ltp_nHistoryTables p)) ct0"
      "fresh_folds hl (\<lambda>i. lt_tag_widths junk p ! i - 1) (unat (ltp_nHistoryTables p)) ct1"
    and gt: "lt_gtable_ok ?c ([] # gt)"
  have c: "lt_cfg_ok ?c" by (rule ltage_cfg_ok [OF p sh hl])
  note th = ltage_thread_ok [OF p hl(2) f, of rand]
  have "lt_ok (ltage_state ?c p gt ?th)" using c th(1) gt by (simp add: lt_ok_def ltage_state_def list_all_replicate) (simp add: ltage_cfg_def)
  then show ?thesis using new th(2) by (simp add: ltage_state_def list_all_replicate) (simp add: ltage_cfg_def)
qed

end
