(* ===== verification/Ltage_Props.thy ===== *)
theory Ltage_Props
  imports Ltage_Contract
begin

text \<open>
  Properties of L-TAGE: a unit built with it never faults; the folded histories are the folds of
  the outcomes. And three points at which the code falls short of its purpose: a squash without
  a misprediction, the tags of the loop predictor, and the default sizes.
\<close>

subsection \<open>Folded histories along an operation\<close>

definition lt_all_folded :: "LTAGE \<Rightarrow> bool" where
  "lt_all_folded s \<longleftrightarrow> list_all (lt_folded (lt_cfg s)) (lt_threadHistory s)"

lemma fh_next_fold:
  assumes c: "lt_cfg_ok c" and buf: "lt_buf_ok c tab pt" and i: "1 \<le> i" "i \<le> lt_n c" and f: "fh_ok (lt_histLengths c ! i) L f"
    and old: "\<And>k. k < unat (lt_maxHist c) \<Longrightarrow> outcome_at tab (pt + 1) k = g k"
    and comp: "fh_comp f = hist_fold (nat L) g (nat (lt_histLengths c ! i))"
  shows "fh_comp (fh_next tab pt f) = hist_fold (nat L) (outcome_at tab pt) (nat (lt_histLengths c ! i))"
proof -
  note r = lt_buf_range [OF c buf i]
  have "0 \<le> lt_histLengths c ! i" "lt_histLengths c ! i \<le> uint (lt_maxHist c)" using lt_bank(1) [OF c i] by (simp_all add: lt_bank_ok_def)
  then have "nat (lt_histLengths c ! i) \<le> unat (lt_maxHist c)" by (simp add: nat_le_iff)
  then have "hist_fold (nat L) (outcome_at tab (pt + 1)) (nat (lt_histLengths c ! i)) = hist_fold (nat L) g (nat (lt_histLengths c ! i))"
    using old by (intro hist_fold_cong) simp
  moreover have "bits_ok tab" using buf by (simp add: lt_buf_ok_def)
  ultimately have "Some (fh_next tab pt f) = Some (f\<lparr>fh_comp := hist_fold (nat L) (outcome_at tab pt) (nat (lt_histLengths c ! i))\<rparr>)"
    using fh_update_fold [OF f _ r] fh_update_next [OF f _ r] comp by simp
  then have "fh_next tab pt f = f\<lparr>fh_comp := hist_fold (nat L) (outcome_at tab pt) (nat (lt_histLengths c ! i))\<rparr>" by (simp only: option.inject)
  then show ?thesis by simp
qed

lemma lt_advance_folded:
  assumes c: "lt_cfg_ok c" and th: "lt_th_ok c th" and f: "lt_folded c th" and buf: "lt_buf_ok c tab pt"
    and old: "\<And>k. k < unat (lt_maxHist c) \<Longrightarrow> outcome_at tab (pt + 1) k = outcome_at (lth_globalHistory th) (lth_ptGhist th) k"
  shows "lt_folded c (lt_advance c th (tab[nat pt := if b then 1 else 0]) pt ph)"
proof -
  define tab' where "tab' = tab[nat pt := if b then 1 else 0]"
  note p = lt_th_parts [OF th] and r = lt_buf_pos [OF buf]
  have buf': "lt_buf_ok c tab' pt" unfolding tab'_def by (rule lt_buf_ok_update [OF buf])
  have old': "outcome_at tab' (pt + 1) k = outcome_at (lth_globalHistory th) (lth_ptGhist th) k" if "k < unat (lt_maxHist c)" for k
    using outcome_at_update(2) [OF r] old [OF that] by (simp add: tab'_def)
  note n = fh_next_fold [OF c buf' _ _ _ old']
  show ?thesis
    using f p(3-5) unfolding lt_folded_def lt_folds_ok_def Let_def tab'_def [symmetric]
    by (auto simp: lt_advance_def fh_all_nth intro!: n)
qed

lemma lt_repair_eq:
  assumes s: "lt_ok s" and f: "lt_frame s s1" and t: "tid_index t < length (lt_threadHistory s)" and th: "th = lt_threadHistory s ! tid_index t"
    and buf: "lt_buf_ok (lt_cfg s) tab pt" and bi: "bi = lt_save th pt ph bi0"
    and s2: "s2 = s1\<lparr>lt_threadHistory := (lt_threadHistory s)[tid_index t := lt_advance (lt_cfg s) th (tab[nat pt := if b then 1 else 0]) pt ph]\<rparr>"
  shows "lt_squash_taken s2 t x bi =
      lt_squash_loop (s1\<lparr>lt_threadHistory := (lt_threadHistory s)[tid_index t := lt_advance (lt_cfg s) th (tab[nat pt := if x then 1 else 0]) pt ph]\<rparr>) bi"
    and "lt_btbUpdate s2 t pc (Some bi) =
      Some (s1\<lparr>lt_threadHistory := (lt_threadHistory s)[tid_index t := lt_advance (lt_cfg s) th (tab[nat pt := if False then 1 else 0]) pt ph]\<rparr>)"
proof -
  let ?c = "lt_cfg s" and ?adv = "\<lambda>x. lt_advance (lt_cfg s) th (tab[nat pt := if x then 1 else 0]) pt ph"
  have c: "lt_cfg_ok ?c" "lt_cfg s1 = ?c" using s f by (simp_all add: lt_ok_def lt_frame_def)
  have thok: "lt_th_ok ?c th" using lt_ok_thread(1) [OF s t] by (simp add: th)
  note r = lt_buf_pos [OF buf]
  have v: "vec_at (lt_threadHistory s2) (tid_index t) = Some (?adv b)" "\<And>y. vec_put (lt_threadHistory s2) (tid_index t) y = Some ((lt_threadHistory s)[tid_index t := y])"
    using t by (simp_all add: s2 fault_simps)
  have g: "lth_gHist (?adv b) = pt" "lth_ptGhist (?adv b) = pt"
    "(?adv b)\<lparr>lth_pathHist := bi_pathHist bi, lth_ptGhist := bi_ptGhist bi, lth_gHist := bi_ptGhist bi\<rparr> = ?adv b"
    by (simp_all add: lt_advance_def bi lt_save_def)
  have w: "arr_put (lth_globalHistory (?adv b)) pt y = Some (tab[nat pt := y])" for y using r by (simp add: lt_advance_def arr_put_Some)
  have rf: "lt_refold ?c bi ((?adv b)\<lparr>lth_globalHistory := tab[nat pt := if y then 1 else 0]\<rparr>) = Some (?adv y)" for y
    by (rule lt_refold_advance [OF c(1) thok lt_buf_ok_update [OF buf] refl]) (simp_all add: bi lt_save_def)
  have c2: "lt_cfg s2 = ?c" by (simp add: s2 c(2))
  show "lt_squash_taken s2 t x bi = lt_squash_loop (s1\<lparr>lt_threadHistory := (lt_threadHistory s)[tid_index t := ?adv x]\<rparr>) bi"
    by (simp only: lt_squash_taken_def v Option.bind.simps Let_def g w c2 rf) (simp add: s2)
  show "lt_btbUpdate s2 t pc (Some bi) = Some (s1\<lparr>lt_threadHistory := (lt_threadHistory s)[tid_index t := ?adv False]\<rparr>)"
    using rf [of False] by (simp only: lt_btbUpdate_def v Option.bind.simps Let_def g w c2 assert_that_True [OF refl] if_False) (simp add: s2)
qed

lemma lt_frame_folded:
  assumes "lt_frame s s1" and "lt_all_folded s" and "lt_folded (lt_cfg s) th"
  shows "lt_all_folded (s1\<lparr>lt_threadHistory := (lt_threadHistory s)[i := th]\<rparr>)"
  using assms by (simp add: lt_all_folded_def lt_frame_def list_all_list_update)

text \<open>The history \<open>th'\<close> is \<open>th\<close> with the outcome \<open>x\<close> of the branch at \<open>pc\<close> shifted in.\<close>

definition lt_shifted :: "LTAGECfg \<Rightarrow> Addr \<Rightarrow> bool \<Rightarrow> ThreadHistory \<Rightarrow> ThreadHistory \<Rightarrow> bool" where
  "lt_shifted c pc x th th' \<longleftrightarrow>
     outcome_at (lth_globalHistory th') (lth_ptGhist th') 0 = x \<and>
     (\<forall>i < unat (lt_maxHist c). outcome_at (lth_globalHistory th') (lth_ptGhist th') (Suc i) = outcome_at (lth_globalHistory th) (lth_ptGhist th) i) \<and>
     lth_pathHist th' = (2 * lth_pathHist th + of_bool (bit pc 0)) mod 2 ^ 16"

lemma lt_advance_shifted:
  assumes "lt_buf_ok c tab pt"
    and "\<And>i. i < unat (lt_maxHist c) \<Longrightarrow> outcome_at tab (pt + 1) i = outcome_at (lth_globalHistory th) (lth_ptGhist th) i"
  shows "lt_shifted c pc x th (lt_advance c th (tab[nat pt := if x then 1 else 0]) pt (lt_next_path th pc))"
proof -
  have "outcome_at (tab[nat pt := y]) pt (Suc i) = outcome_at (tab[nat pt := y]) (pt + 1) i" for y i
    by (simp add: outcome_at_def algebra_simps)
  moreover have "lt_next_path th pc = (2 * lth_pathHist th + of_bool (bit pc 0)) mod 2 ^ 16"
    unfolding lt_next_path_def take_bit_eq_mask [symmetric] take_bit_eq_mod by (simp add: mult.commute)
  ultimately show ?thesis
    using assms(2) outcome_at_update [OF lt_buf_pos [OF assms(1)]] by (simp add: lt_shifted_def lt_advance_def)
qed

text \<open>
  A prediction and what may follow it: \<open>S x\<close> is the state in which the outcome \<open>x\<close> is shifted in.
\<close>

lemma lt_lookup_then:
  assumes s: "lt_ok s" and "tid_index t < lt_threads (lt_cfg s)"
  obtains b h S where "lt_lookup s t pc = Some (b, h, S b)"
    and "\<And>x. \<exists>s2. lt_update (S b) t pc x h True = Some s2 \<and> lt_frame (S x) s2"
    and "\<exists>s2. lt_squash (S b) t h = Some s2 \<and> lt_frame (S b) s2"
    and "lt_btbUpdate (S b) t pc h = Some (S False)"
    and "\<And>x. lt_shifted (lt_cfg s) pc x (lt_threadHistory s ! tid_index t) (lt_threadHistory (S x) ! tid_index t)"
    and "\<And>x. lt_all_folded s \<Longrightarrow> lt_all_folded (S x)"
proof -
  have t: "tid_index t < length (lt_threadHistory s)" using assms(2) lt_threads_length [OF s] by simp
  let ?c = "lt_cfg s"
  define th where "th = lt_threadHistory s ! tid_index t"
  have c: "lt_cfg_ok ?c" using s by (simp add: lt_ok_def)
  have th: "lt_th_ok ?c th" "lt_all_folded s \<Longrightarrow> lt_folded ?c th"
    using lt_ok_thread(1) [OF s t] t by (simp_all add: th_def lt_all_folded_def list_all_nth)
  show ?thesis
  proof (rule lt_lookup_eq [OF s t th_def, of pc])
    fix b and bi :: BranchInfo and s1 :: LTAGE and tab pt
    define S where "S = (\<lambda>x. s1\<lparr>lt_threadHistory := (lt_threadHistory s)[tid_index t :=
      lt_advance ?c th (tab[nat pt := if x then 1 else 0]) pt (lt_next_path th pc)]\<rparr>)"
    let ?bi = "lt_save th pt (lt_next_path th pc) bi"
    assume "lt_lookup s t pc = Some (b, Some ?bi, s1\<lparr>lt_threadHistory := (lt_threadHistory s)[tid_index t :=
        lt_advance ?c th (tab[nat pt := if b then 1 else 0]) pt (lt_next_path th pc)]\<rparr>)"
      and fr: "lt_frame s s1" and h: "lt_hist_ok ?c (Some ?bi)" and buf: "lt_buf_ok ?c tab pt"
      and old: "\<And>i. i < unat (lt_maxHist ?c) \<Longrightarrow> outcome_at tab (pt + 1) i = outcome_at (lth_globalHistory th) (lth_ptGhist th) i"
    then have l: "lt_lookup s t pc = Some (b, Some ?bi, S b)" by (simp only: S_def)
    have ok: "lt_ok (S x)" "lt_cfg (S x) = ?c" for x
      using lt_frame_threads [OF fr lt_advance_ok [OF th(1) lt_buf_ok_update [OF buf] lt_next_path_range]] unfolding S_def by blast+
    have sq: "\<exists>s2. lt_squash_loop (S x) ?bi = Some s2 \<and> lt_frame (S x) s2" for x
      using lt_squash_loop_ok [OF ok(1) [of x], of ?bi] h by (auto simp: lt_hist_ok_def ok(2))
    have "lt_squash_taken (S b) t x ?bi = lt_squash_loop (S x) ?bi" for x
      unfolding S_def by (rule lt_repair_eq(1) [OF s fr t th_def buf refl refl])
    then have up: "\<exists>s2. lt_update (S b) t pc x (Some ?bi) True = Some s2 \<and> lt_frame (S x) s2" for x
      using sq [of x] by (simp add: lt_update_def)
    have bt: "lt_btbUpdate (S b) t pc (Some ?bi) = Some (S False)"
      unfolding S_def by (rule lt_repair_eq(2) [OF s fr t th_def buf refl refl])
    have sh: "lt_shifted ?c pc x (lt_threadHistory s ! tid_index t) (lt_threadHistory (S x) ! tid_index t)" for x
      using lt_advance_shifted [OF buf old] t by (simp add: S_def th_def)
    have fo: "lt_all_folded (S x)" if "lt_all_folded s" for x
      unfolding S_def by (rule lt_frame_folded [OF fr that lt_advance_folded [OF c th(1) th(2) [OF that] buf old]])
    have "\<exists>s2. lt_squash (S b) t (Some ?bi) = Some s2 \<and> lt_frame (S b) s2" using sq [of b] by (simp add: lt_squash_def)
    then show ?thesis using that [OF l up _ bt sh fo] by blast
  qed
qed

subsection \<open>A small predictor\<close>

definition sample_geom :: "unsigned \<Rightarrow> unsigned \<Rightarrow> unsigned \<Rightarrow> nat \<Rightarrow> int" where
  "sample_geom minHist maxHist n i = (if i = unat n then uint maxHist else uint minHist)"

definition sample_ltage_params :: LTAGEParams where
  "sample_ltage_params = \<lparr>ltp_numThreads = 1, ltp_logSizeBiMP = 2, ltp_logSizeTagTables = 3, ltp_logSizeLoopPred = 3,
     ltp_nHistoryTables = 2, ltp_tagTableCounterBits = 3, ltp_histBufferSize = 64, ltp_minHist = 4, ltp_maxHist = 31,
     ltp_minTagWidth = 3\<rparr>"

definition sample_fold :: FoldedHistory where
  "sample_fold = \<lparr>fh_comp = 0, fh_compLength = 0, fh_origLength = 0, fh_outpoint = 0\<rparr>"

definition sample_ltage :: LTAGE where
  "sample_ltage = the (LTAGE_new 0 sample_fold sample_geom int sample_ltage_params)"

definition sample_ltage_unit :: "(LTAGE, BranchInfo, Addr) BPredUnit" where
  "sample_ltage_unit = projr (BPredUnit_new sample_isa 0 sample_bp sample_ltage)"

lemma sample_ltage_params_ok: "ltage_params_ok sample_ltage_params" "ltage_shifts_ok sample_ltage_params" "geom_ok sample_geom sample_ltage_params"
  by code_simp+

lemma sample_ltage_new: "LTAGE_new 0 sample_fold sample_geom int sample_ltage_params = Some sample_ltage"
  and sample_ltage_ok: "lt_ok sample_ltage" "lt_all_folded sample_ltage" "lt_threads (lt_cfg sample_ltage) = 1"
proof -
  obtain s where s: "LTAGE_new 0 sample_fold sample_geom int sample_ltage_params = Some s" "lt_ok s" "lt_all_folded s"
    "lt_numThreads (lt_cfg s) = ltp_numThreads sample_ltage_params"
    using LTAGE_new_ok [OF sample_ltage_params_ok, of 0 sample_fold int] by (auto simp: lt_all_folded_def)
  have e: "sample_ltage = s" by (simp add: sample_ltage_def s(1))
  show "LTAGE_new 0 sample_fold sample_geom int sample_ltage_params = Some sample_ltage" "lt_ok sample_ltage" "lt_all_folded sample_ltage"
    "lt_threads (lt_cfg sample_ltage) = 1"
    using s by (simp_all add: e lt_threads_def sample_ltage_params_def)
qed

lemma sample_ltage_unit_new: "BPredUnit_new sample_isa 0 sample_bp sample_ltage = Inr sample_ltage_unit"
proof -
  have "\<not> isl (BPredUnit_new sample_isa 0 sample_bp sample_ltage :: bp_error + (LTAGE, BranchInfo, Addr) BPredUnit)" by code_simp
  then show ?thesis by (simp add: sample_ltage_unit_def)
qed

subsection \<open>Properties\<close>



text \<open>
  \<^bold>\<open>C10.\<close> The folded histories are what their name says: if every register is the exclusive or of
  the outcomes in its history window, shifted to their age modulo the width, then this also holds
  after a prediction, after the repair of its misprediction with any outcome, and after the
  correction for a BTB miss. The registers are updated in constant time, also across a roll-over
  of the circular buffer.
\<close>

theorem ltage_folded_histories:
  assumes "lt_ok s" and "lt_all_folded s" and "tid_index t < lt_threads (lt_cfg s)"
  shows "\<exists>b h s1. lt_lookup s t pc = Some (b, h, s1) \<and> lt_all_folded s1 \<and>
      (\<forall>x. \<exists>s2. lt_update s1 t pc x h True = Some s2 \<and> lt_all_folded s2) \<and>
      (\<exists>s3. lt_btbUpdate s1 t pc h = Some s3 \<and> lt_all_folded s3)"
proof (rule lt_lookup_then [OF assms(1,3), of pc])
  fix b h S
  assume l: "lt_lookup s t pc = Some (b, h, S b)" "\<And>x. \<exists>s2. lt_update (S b) t pc x h True = Some s2 \<and> lt_frame (S x) s2"
    "lt_btbUpdate (S b) t pc h = Some (S False)" and f: "\<And>x. lt_all_folded s \<Longrightarrow> lt_all_folded (S x)"
  have "\<exists>s2. lt_update (S b) t pc x h True = Some s2 \<and> lt_all_folded s2" for x
    using l(2) [of x] f [OF assms(2), of x] by (auto simp: lt_all_folded_def lt_frame_def)
  then show ?thesis using l(1,3) f [OF assms(2)] by blast
qed

theorem ltage_folded_histories_witness:
  "\<exists>b h s1. lt_lookup sample_ltage 0 0x40 = Some (b, h, s1) \<and> lt_all_folded s1 \<and>
      (\<forall>x. \<exists>s2. lt_update s1 0 0x40 x h True = Some s2 \<and> lt_all_folded s2) \<and>
      (\<exists>s3. lt_btbUpdate s1 0 0x40 h = Some s3 \<and> lt_all_folded s3)"
  by (rule ltage_folded_histories [OF sample_ltage_ok(1,2)]) (simp add: sample_ltage_ok(3) tid_index_def)

text \<open>
  \<^bold>\<open>C38.\<close> A squash that is not caused by a misprediction leaves the histories as the wrong path made
  them: the outcome predicted for the squashed branch stays the newest one of the thread, in front
  of the outcomes from before, and every later prediction is made with it.
\<close>

theorem ltage_squash_keeps_wrong_path:
  assumes "lt_ok s" and "tid_index t < lt_threads (lt_cfg s)"
  shows "\<exists>b h s1 s2. lt_lookup s t pc = Some (b, h, s1) \<and> lt_squash s1 t h = Some s2 \<and>
    lt_shifted (lt_cfg s) pc b (lt_threadHistory s ! tid_index t) (lt_threadHistory s2 ! tid_index t)"
proof (rule lt_lookup_then [OF assms, of pc])
  fix b h S
  assume l: "lt_lookup s t pc = Some (b, h, S b)" "\<exists>s2. lt_squash (S b) t h = Some s2 \<and> lt_frame (S b) s2"
    and sh: "\<And>x. lt_shifted (lt_cfg s) pc x (lt_threadHistory s ! tid_index t) (lt_threadHistory (S x) ! tid_index t)"
  show ?thesis using l sh [of b] by (auto simp: lt_frame_def)
qed

theorem ltage_squash_keeps_wrong_path_witness:
  "\<exists>b h s1 s2. lt_lookup sample_ltage 0 0x40 = Some (b, h, s1) \<and> lt_squash s1 0 h = Some s2 \<and>
    lt_shifted (lt_cfg sample_ltage) 0x40 b (lt_threadHistory sample_ltage ! tid_index 0) (lt_threadHistory s2 ! tid_index 0)"
  by (rule ltage_squash_keeps_wrong_path [OF sample_ltage_ok(1)]) (simp add: sample_ltage_ok(3) tid_index_def)

subsection \<open>Tags of the loop predictor\<close>

lemma to_int_tag:
  assumes "2 ^ 16 \<le> unat w mod 2 ^ 32"
  shows "\<not> (0 \<le> to_int w \<and> to_int w < 2 ^ 16)"
proof
  let ?v = "ucast w :: 32 word"
  assume r: "0 \<le> to_int w \<and> to_int w < 2 ^ 16"
  have v: "unat ?v = take_bit 32 (unat w)" by (simp add: unsigned_ucast_eq)
  have "uint ?v = to_int w mod 2 ^ 32" by (simp add: to_int_def uint_sint [of ?v] take_bit_eq_mod)
  then have "uint ?v < 2 ^ 16" using r by simp
  then have "int (unat ?v) < int (2 ^ 16)" by simp
  then have "unat ?v < 2 ^ 16" unfolding of_nat_less_iff .
  moreover have "2 ^ 16 \<le> unat ?v" using assms unfolding v take_bit_nat_def .
  ultimately show False by linarith
qed

lemma loop_search_miss:
  assumes "\<And>i. i \<in> set ways \<Longrightarrow> 0 \<le> bi_loopIndex bi + int i \<and> nat (bi_loopIndex bi + int i) < length lt" and "\<not> (0 \<le> bi_loopTag bi \<and> bi_loopTag bi < 2 ^ 16)"
  shows "loop_search lt bi ways = Some (False, bi)"
  using assms(1)
proof (induction ways)
  case (Cons i ways)
  have "uint (le_tag e) \<noteq> bi_loopTag bi" for e :: LoopEntry
  proof
    assume e: "uint (le_tag e) = bi_loopTag bi"
    have "0 \<le> bi_loopTag bi" unfolding e [symmetric] by (rule uint_ge_0)
    moreover have "bi_loopTag bi < 2 ^ 16" unfolding e [symmetric] using unsigned_less [of "le_tag e", where ?'a = int] by simp
    ultimately show False using assms(2) by blast
  qed
  then show ?case using Cons by (simp add: fault_simps)
qed simp

text \<open>
  \<^bold>\<open>C39.\<close> The loop predictor misses for high addresses: \<open>getLoop\<close> compares the 16-bit tag of the
  entries with the address above the index bits, converted to an \<open>int\<close>, so an address with one of
  the 16 bits above the tag set never hits, even after \<open>loopUpdate\<close> has allocated an entry for it.
  With \<open>logSizeLoopPred = 8\<close>, the default, these are the bits 22 to 37, and all addresses from
  \<open>0x400000\<close> to \<open>0x3fffffffff\<close> miss.
\<close>

theorem ltage_loop_misses_high_addresses:
  assumes s: "lt_ok s" and hi: "2 ^ 16 \<le> unat pc div 2 ^ (unat (lt_logSizeLoopPred (lt_cfg s)) - 2) mod 2 ^ 32"
  shows "\<exists>bi'. lt_getLoop s pc bi = Some (False, bi') \<and> bi_loopHit bi' = - 1 \<and> \<not> bi_loopPredValid bi'"
proof -
  let ?l = "lt_logSizeLoopPred (lt_cfg s)"
  define k where "k = unat ?l - 2"
  have c: "lt_cfg_ok (lt_cfg s)" using s by (simp add: lt_ok_def)
  obtain j where j: "lt_lindex (lt_cfg s) pc = Some j" "0 \<le> j" "j + 3 < 2 ^ unat ?l" using lt_lindex_ok [OF c] by blast
  have l: "2 \<le> unat ?l" "unat ?l \<le> 31" using c by (simp_all add: lt_cfg_ok_def)
  then have k: "unat (?l - 2) = k" "k < 64" by (simp_all add: unat_sub word_le_nat_alt k_def)
  have tag: "shr64 pc (?l - 2) = Some (drop_bit k pc)" using k by (simp add: shr64_Some)
  have u: "unat (drop_bit k pc) = unat pc div 2 ^ k"
    by (simp add: unat_drop_bit_eq drop_bit_eq_div [of k "unat pc"] del: drop_bit_eq_div)
  have t: "\<not> (0 \<le> to_int (drop_bit k pc) \<and> to_int (drop_bit k pc) < 2 ^ 16)"
    by (rule to_int_tag) (unfold u, use hi in \<open>simp only: k_def\<close>)
  let ?bi = "bi\<lparr>bi_loopHit := - 1, bi_loopPredValid := False, bi_loopIndex := j, bi_loopTag := to_int (drop_bit k pc)\<rparr>"
  have "loop_search (lt_ltable s) ?bi [0, 1, 2, 3] = Some (False, ?bi)"
  proof (rule loop_search_miss)
    fix i :: nat assume "i \<in> set [0, 1, 2, 3]"
    then have "int i < 4" by auto
    then show "0 \<le> bi_loopIndex ?bi + int i \<and> nat (bi_loopIndex ?bi + int i) < length (lt_ltable s)"
      using lt_loop_range [OF s j(2,3), of "int i"] by simp
  qed (use t in simp)
  then have "lt_getLoop s pc bi = Some (False, ?bi)" by (simp only: lt_getLoop_def j(1) tag Option.bind.simps)
  then show ?thesis by simp
qed

theorem ltage_loop_misses_high_addresses_witness:
  "\<exists>bi'. lt_getLoop sample_ltage 0x400000 BranchInfo_new = Some (False, bi') \<and> bi_loopHit bi' = - 1 \<and> \<not> bi_loopPredValid bi'"
proof -
  have "lt_logSizeLoopPred (lt_cfg sample_ltage) = 3" by code_simp
  then show ?thesis by (intro ltage_loop_misses_high_addresses [OF sample_ltage_ok(1)]) simp_all
qed

subsection \<open>The default sizes\<close>

definition default_ltage_params :: "unsigned \<Rightarrow> LTAGEParams" where
  "default_ltage_params threads = \<lparr>ltp_numThreads = threads, ltp_logSizeBiMP = 14, ltp_logSizeTagTables = 11, ltp_logSizeLoopPred = 8,
     ltp_nHistoryTables = 12, ltp_tagTableCounterBits = 3, ltp_histBufferSize = 2097152, ltp_minHist = 4, ltp_maxHist = 640,
     ltp_minTagWidth = 7\<rparr>"

lemma lt_F_None: "vec_at (lt_tagTableSizes c) bank = Some ts \<Longrightarrow> ts < int bank \<Longrightarrow> lt_F c A sz bank = None"
  by (simp add: lt_F_def shr_int_def Let_def)

lemma lt_gindex_None: "vec_at (lt_tagTableSizes c) bank = Some ts \<Longrightarrow> ts < int bank \<Longrightarrow> lt_gindex c th pc bank = None"
  by (simp add: lt_gindex_def lt_F_None Let_def)

lemma those_None: "x \<in> set xs \<Longrightarrow> f x = None \<Longrightarrow> those (map f xs) = None"
  by (induction xs) (auto split: option.splits)

text \<open>
  \<^bold>\<open>C40.\<close> With the default sizes the constructor returns, but the first prediction shifts by a negative
  amount: for bank 11 the function \<open>F\<close> shifts right by \<open>tagTableSizes[11] - 11\<close>, which is \<open>9 - 11\<close>.
  The behaviour of the compiled code is undefined.
\<close>

theorem ltage_default_sizes_fault:
  assumes "geom_ok geom (default_ltage_params n)"
  shows "\<exists>s. LTAGE_new junk junkf geom rand (default_ltage_params n) = Some s \<and> lt_lookup s t pc = None"
proof -
  let ?p = "default_ltage_params n"
  have "ltage_params_ok ?p" unfolding default_ltage_params_def by code_simp
  then show ?thesis
  proof (rule LTAGE_new_eq [OF _ assms, of junk junkf rand])
    fix hl ci ct0 ct1 gt
    let ?c = "ltage_cfg junk rand ?p hl" and ?s = "ltage_state (ltage_cfg junk rand ?p hl) ?p gt (ltage_thread ?p ci ct0 ct1)"
    assume new: "LTAGE_new junk junkf geom rand ?p = Some ?s"
    have "vec_at (lt_tagTableSizes ?c) 11 = Some 9"
      by (simp add: ltage_cfg_def lt_tag_table_sizes_def Let_def default_ltage_params_def vec_at_def)
    then have "lt_gindex ?c th pc 11 = None" for th by (rule lt_gindex_None) simp
    then have "those (map (lt_gindex ?c th pc) [1..<Suc (lt_n ?c)]) = None" for th
      by (intro those_None [of 11]) (simp add: ltage_cfg_def default_ltage_params_def, simp)
    then have "lt_tage_predict ?s th pc bi = None" for th bi by (simp add: lt_tage_predict_def ltage_state_def Let_def)
    then have "lt_lookup ?s t pc = None" by (simp add: lt_lookup_def lt_predict_def Let_def)
    then show ?thesis using new by blast
  qed
qed

theorem ltage_default_sizes_fault_witness:
  "\<exists>s. LTAGE_new 0 sample_fold sample_geom int (default_ltage_params 1) = Some s \<and> lt_lookup s 0 0x40 = None"
  by (rule ltage_default_sizes_fault) code_simp

end
