(* ===== verification/Ltage_Types.thy ===== *)
theory Ltage_Types
  imports Ltage_Props
begin

text \<open>
  The widths the counters of L-TAGE are meant to have. The code stores them in bytes and keeps
  them in range by its updates: bimodal bits are 0 or 1, tag table counters have
  \<open>tagTableCounterBits\<close> bits, useful bits are 0 or 1, confidence and age of the loop entries are at
  most 7, and the two selector counters have 7 and 4 bits. This holds in every reachable state.
\<close>

subsection \<open>Signed counters\<close>

definition ctr_range :: "int \<Rightarrow> int8 \<Rightarrow> bool" where
  "ctr_range n c \<longleftrightarrow> - (2 ^ nat (n - 1)) \<le> sint c \<and> sint c < 2 ^ nat (n - 1)"

lemma sint8_step:
  fixes c :: int8
  shows "sint c < 127 \<Longrightarrow> sint (c + 1) = sint c + 1" and "- 128 < sint c \<Longrightarrow> sint (c - 1) = sint c - 1"
  using sint_greater_eq [of c] sint_less [of c] by (simp_all add: sint_word_ariths signed_take_bit_int_eq_self)

lemma ctrUpdate_value:
  assumes "1 \<le> n" and "n \<le> 8" and "ctr_range n c"
  shows "\<exists>v. ctrUpdate c taken n = Some v \<and>
    sint v = (if taken then min (2 ^ nat (n - 1) - 1) (sint c + 1) else max (- (2 ^ nat (n - 1))) (sint c - 1))"
proof -
  define b where "b = (2::int) ^ nat (n - 1)"
  have "nat (n - 1) \<le> 7" using assms(1,2) by simp
  then have "b \<le> 2 ^ 7" unfolding b_def by (intro power_increasing) auto
  then have b: "1 \<le> b" "b \<le> 128" by (simp_all add: b_def)
  have r: "- b \<le> sint c" "sint c < b" using assms(3) by (simp_all add: ctr_range_def b_def)
  have "shl_int 1 (int (nat (n - 1))) = Some (push_bit (nat (n - 1)) 1)" using assms(1,2) by (intro shl_int_small) simp_all
  then have "shl_int 1 (n - 1) = Some b" using assms(1) by (simp add: b_def)
  then have e: "ctrUpdate c taken n = Some (if taken then (if sint c < b - 1 then c + 1 else c) else (if sint c > - b then c - 1 else c))"
    using assms(1,2) by (simp add: ctrUpdate_def fault_simps)
  show ?thesis unfolding e b_def [symmetric] using b r sint8_step [of c] by auto
qed

lemma ctrUpdate_range:
  assumes "ctrUpdate c taken n = Some v" and "1 \<le> n" and "n \<le> 8" and "ctr_range n c"
  shows "ctr_range n v"
proof -
  have "(1::int) \<le> 2 ^ nat (n - 1)" by simp
  then show ?thesis using ctrUpdate_value [OF assms(2-4), of taken] assms(1,4) by (auto simp: ctr_range_def split: if_splits)
qed

text \<open>
  \<^bold>\<open>C22.\<close> \<open>ctrUpdate\<close> is saturating arithmetic on signed numbers of \<open>nbits\<close> bits: a counter in range moves
  by one towards the outcome and stays at the bound when it is there.
\<close>

theorem ctrUpdate_saturates:
  assumes "1 \<le> n" and "n \<le> 8" and "ctr_range n c"
  shows "\<exists>v. ctrUpdate c taken n = Some v \<and> ctr_range n v \<and>
    sint v = (if taken then min (2 ^ nat (n - 1) - 1) (sint c + 1) else max (- (2 ^ nat (n - 1))) (sint c - 1))"
  using ctrUpdate_value [OF assms] ctrUpdate_range [OF _ assms] by blast

theorem ctrUpdate_saturates_witness:
  "\<exists>v. ctrUpdate 3 True 3 = Some v \<and> ctr_range 3 v \<and>
    sint v = (if True then min (2 ^ nat (3 - 1) - 1) (sint (3 :: int8) + 1) else max (- (2 ^ nat (3 - 1))) (sint (3 :: int8) - 1))"
  by (rule ctrUpdate_saturates) (simp_all add: ctr_range_def)

subsection \<open>Well-typed tables\<close>

definition bim_typed :: "BimodalEntry \<Rightarrow> bool" where
  "bim_typed e \<longleftrightarrow> bim_pred e \<le> 1 \<and> bim_hyst e \<le> 1"

definition loop_typed :: "LoopEntry \<Rightarrow> bool" where
  "loop_typed e \<longleftrightarrow> le_confidence e \<le> 7 \<and> le_age e \<le> 7"

definition tage_typed :: "LTAGECfg \<Rightarrow> TageEntry \<Rightarrow> bool" where
  "tage_typed c e \<longleftrightarrow> ctr_range (uint (lt_tagTableCounterBits c)) (te_ctr e) \<and> (te_u e = 0 \<or> te_u e = 1)"

abbreviation tables_typed :: "LTAGECfg \<Rightarrow> TageEntry list list \<Rightarrow> bool" where
  "tables_typed c g \<equiv> list_all (list_all (tage_typed c)) g"

definition lt_typed :: "LTAGE \<Rightarrow> bool" where
  "lt_typed s \<longleftrightarrow> list_all bim_typed (lt_btable s) \<and> list_all loop_typed (lt_ltable s) \<and> tables_typed (lt_cfg s) (lt_gtable s) \<and>
     ctr_range 7 (lt_loopUseCounter s) \<and> ctr_range 4 (lt_useAltPredForNewlyAllocated s)"

lemma arr_put_typed: "arr_put xs i v = Some ys \<Longrightarrow> list_all P xs \<Longrightarrow> P v \<Longrightarrow> list_all P ys"
  by (auto simp: arr_put_def list_all_list_update split: if_splits)

lemma arr_at_typed: "arr_at xs i = Some v \<Longrightarrow> list_all P xs \<Longrightarrow> P v"
  by (auto simp: arr_at_def list_all_nth split: if_splits)

lemma vec_typed: "vec_at xs k = Some v \<Longrightarrow> list_all P xs \<Longrightarrow> P v" "vec_put xs k v = Some ys \<Longrightarrow> list_all P xs \<Longrightarrow> P v \<Longrightarrow> list_all P ys"
  by (auto simp: vec_at_def vec_put_def list_all_nth list_all_list_update split: if_splits)

lemma for_up_partial:
  assumes "for_up n i body s = Some s'" and "I s" and "\<And>j s s'. body j s = Some s' \<Longrightarrow> I s \<Longrightarrow> I s'"
  shows "I s'"
  using assms by (induction n arbitrary: i s) (auto simp: bind_eq_Some_conv)

lemma lt_entry_upd_typed:
  assumes "lt_entry_upd f i j g = Some g'" and "tables_typed c g" and "\<And>e e'. f e = Some e' \<Longrightarrow> tage_typed c e \<Longrightarrow> tage_typed c e'"
  shows "tables_typed c g'"
proof -
  obtain t e e' t' where v: "vec_at g i = Some t" "arr_at t j = Some e" "f e = Some e'" "arr_put t j e' = Some t'" "vec_put g i t' = Some g'"
    using assms(1) unfolding lt_entry_upd_def bind_eq_Some_conv by blast
  have t: "list_all (tage_typed c) t" by (rule vec_typed(1) [OF v(1) assms(2)])
  have "tage_typed c e'" by (rule assms(3) [OF v(3) arr_at_typed [OF v(2) t]])
  then have "list_all (tage_typed c) t'" by (rule arr_put_typed [OF v(4) t])
  then show ?thesis by (rule vec_typed(2) [OF v(5) assms(2)])
qed

lemma tage_typed_steps:
  assumes "tage_typed c e"
  shows "tage_typed c (e\<lparr>te_u := 0\<rparr>)" and "tage_typed c (e\<lparr>te_u := signed_drop_bit 1 (te_u e)\<rparr>)"
    and "tage_typed c (if te_u e = 0 then e\<lparr>te_tag := tag, te_ctr := (if taken then 0 else - 1), te_u := 0\<rparr> else e)"
    and "tage_typed c (if sint (te_u e) < 1 then e\<lparr>te_u := te_u e + 1\<rparr> else e)"
proof -
  have "(0::int) < 2 ^ nat (uint (lt_tagTableCounterBits c) - 1)" "(1::int) \<le> 2 ^ nat (uint (lt_tagTableCounterBits c) - 1)" by simp_all
  moreover from this have "(- 1 :: int) < 2 ^ nat (uint (lt_tagTableCounterBits c) - 1)" by linarith
  moreover have "signed_drop_bit 1 (1 :: int8) = 0" by code_simp
  ultimately show "tage_typed c (e\<lparr>te_u := 0\<rparr>)" "tage_typed c (e\<lparr>te_u := signed_drop_bit 1 (te_u e)\<rparr>)"
    "tage_typed c (if te_u e = 0 then e\<lparr>te_tag := tag, te_ctr := (if taken then 0 else - 1), te_u := 0\<rparr> else e)"
    "tage_typed c (if sint (te_u e) < 1 then e\<lparr>te_u := te_u e + 1\<rparr> else e)"
    using assms by (auto simp: tage_typed_def ctr_range_def)
qed

lemma lt_allocate_typed:
  assumes "lt_allocate n taken bi r g = Some g'" and "tables_typed c g"
  shows "tables_typed c g'"
proof -
  let ?f = "\<lambda>tag e. Some (if te_u e = 0 then e\<lparr>te_tag := tag, te_ctr := (if taken then 0 else - 1), te_u := 0\<rparr> else e)"
  obtain m X g1 where g1: "(if sint (m :: int8) > 0 then do { j \<leftarrow> vec_at (bi_tableIndices bi) X; lt_entry_upd (\<lambda>e. Some (e\<lparr>te_u := 0\<rparr>)) X j g } else Some g) = Some g1"
    and g': "for_up (Suc n - X) X (\<lambda>i gtable. do { j \<leftarrow> vec_at (bi_tableIndices bi) i; tag \<leftarrow> vec_at (bi_tableTags bi) i; lt_entry_upd (?f tag) i j gtable }) g1 = Some g'"
    using assms(1) unfolding lt_allocate_def bind_eq_Some_conv by blast
  have "tables_typed c g1"
  proof (cases "sint m > 0")
    case True
    then obtain j where "lt_entry_upd (\<lambda>e. Some (e\<lparr>te_u := 0\<rparr>)) X j g = Some g1" using g1 by (auto simp: bind_eq_Some_conv)
    then show ?thesis by (rule lt_entry_upd_typed [OF _ assms(2)]) (auto intro: tage_typed_steps)
  qed (use g1 assms(2) in simp)
  with g' show ?thesis
  proof (rule for_up_partial)
    fix i g2 g3
    assume "(do { j \<leftarrow> vec_at (bi_tableIndices bi) i; tag \<leftarrow> vec_at (bi_tableTags bi) i; lt_entry_upd (?f tag) i j g2 }) = Some g3" and t: "tables_typed c g2"
    then obtain j tag where "lt_entry_upd (?f tag) i j g2 = Some g3" unfolding bind_eq_Some_conv by blast
    then show "tables_typed c g3" by (rule lt_entry_upd_typed [OF _ t]) (use tage_typed_steps(3) in auto)
  qed
qed

lemma lt_age_u_typed:
  assumes "lt_age_u c g = Some g'" and "tables_typed c g"
  shows "tables_typed c g'"
  using assms unfolding lt_age_u_def
proof (rule for_up_partial)
  fix i g1 g2
  assume "(do { ts \<leftarrow> vec_at (lt_tagTableSizes c) i; m \<leftarrow> ull_mask ts;
      for_up (unat m + 1) 0 (\<lambda>j. lt_entry_upd (\<lambda>e. Some (e\<lparr>te_u := signed_drop_bit 1 (te_u e)\<rparr>)) i (int j)) g1 }) = Some g2" and t: "tables_typed c g1"
  then obtain m :: Addr where "for_up (unat m + 1) 0 (\<lambda>j. lt_entry_upd (\<lambda>e. Some (e\<lparr>te_u := signed_drop_bit 1 (te_u e)\<rparr>)) i (int j)) g1 = Some g2"
    unfolding bind_eq_Some_conv by blast
  then show "tables_typed c g2" using t
    by (rule for_up_partial) (rule lt_entry_upd_typed, assumption, assumption, use tage_typed_steps(2) in auto)
qed

subsection \<open>Every operation keeps the tables well-typed\<close>

lemma lt_typed_simps [simp]:
  "lt_typed (s\<lparr>lt_threadHistory := x\<rparr>) = lt_typed s" "lt_typed (s\<lparr>lt_draws := d\<rparr>) = lt_typed s" "lt_typed (s\<lparr>lt_tCounter := w\<rparr>) = lt_typed s"
  by (simp_all add: lt_typed_def)

lemma byte_le_1: "x \<le> 1 \<longleftrightarrow> x = 0 \<or> x = 1" for x :: uint8
proof
  assume "x \<le> 1"
  then have "unat x = unat (0 :: uint8) \<or> unat x = unat (1 :: uint8)" by (auto simp: word_le_nat_alt)
  then show "x = 0 \<or> x = 1" unfolding word_unat_eq_iff [symmetric] .
qed auto

lemma byte_pred_le: "x \<noteq> 0 \<Longrightarrow> x \<le> 7 \<Longrightarrow> x - 1 \<le> 7" for x :: uint8
  by (simp add: word_le_nat_alt unat_minus_one)

lemma lt_baseUpdate_typed:
  assumes "lt_baseUpdate s taken bi = Some s'" and "lt_typed s"
  shows "lt_typed s'"
proof -
  obtain e bt where e: "arr_at (lt_btable s) (bi_bimodalIndex bi) = Some e" and s': "s' = s\<lparr>lt_btable := bt\<rparr>"
    and bt: "arr_put (lt_btable s) (bi_bimodalIndex bi) (let inter = uint (bim_pred e) * 2 + uint (bim_hyst e);
       inter = (if taken then (if inter < 3 then inter + 1 else inter) else if inter > 0 then inter - 1 else inter)
       in \<lparr>bim_pred = word_of_int (inter div 2), bim_hyst = word_of_int (inter mod 2)\<rparr>) = Some bt"
    using assms(1) by (auto simp: lt_baseUpdate_def bind_eq_Some_conv Let_def)
  have t: "list_all bim_typed (lt_btable s)" using assms(2) by (simp add: lt_typed_def)
  have "bim_typed e" by (rule arr_at_typed [OF e t])
  then have "bim_typed (let inter = uint (bim_pred e) * 2 + uint (bim_hyst e);
       inter = (if taken then (if inter < 3 then inter + 1 else inter) else if inter > 0 then inter - 1 else inter)
       in \<lparr>bim_pred = word_of_int (inter div 2), bim_hyst = word_of_int (inter mod 2)\<rparr>)"
    by (auto simp: bim_typed_def byte_le_1 Let_def)
  from arr_put_typed [OF bt t this] show ?thesis using assms(2) by (simp add: s' lt_typed_def)
qed

lemma lt_ltable_typed:
  assumes "arr_at (lt_ltable s) i = Some e" and "arr_put (lt_ltable s) i e' = Some lt" and "lt_typed s" and "loop_typed e \<Longrightarrow> loop_typed e'"
  shows "lt_typed (s\<lparr>lt_ltable := lt\<rparr>)"
proof -
  have t: "list_all loop_typed (lt_ltable s)" using assms(3) by (simp add: lt_typed_def)
  have "list_all loop_typed lt" by (rule arr_put_typed [OF assms(2) t assms(4) [OF arr_at_typed [OF assms(1) t]]])
  then show ?thesis using assms(3) by (simp add: lt_typed_def)
qed

lemma lt_specLoopUpdate_typed:
  assumes "lt_specLoopUpdate s pc taken bi = Some s'" and "lt_typed s"
  shows "lt_typed s'"
proof (cases "bi_loopHit bi \<ge> 0")
  case True
  obtain i e lt where e: "arr_at (lt_ltable s) i = Some e" and lt: "arr_put (lt_ltable s) i
      (if taken \<noteq> le_dir e then e\<lparr>le_currentIterSpec := 0\<rparr> else e\<lparr>le_currentIterSpec := le_currentIterSpec e + 1\<rparr>) = Some lt"
    and s': "s' = s\<lparr>lt_ltable := lt\<rparr>"
    using assms(1) unfolding lt_specLoopUpdate_def if_P [OF True] bind_eq_Some_conv option.inject by blast
  show ?thesis unfolding s' by (rule lt_ltable_typed [OF e lt assms(2)]) (simp add: loop_typed_def)
qed (use assms in \<open>simp add: lt_specLoopUpdate_def\<close>)

lemma lt_squash_loop_typed:
  assumes "lt_squash_loop s bi = Some s'" and "lt_typed s"
  shows "lt_typed s'"
proof (cases "bi_condBranch bi \<and> bi_loopHit bi \<ge> 0")
  case True
  obtain i e lt where e: "arr_at (lt_ltable s) i = Some e" and lt: "arr_put (lt_ltable s) i (e\<lparr>le_currentIterSpec := bi_currentIter bi\<rparr>) = Some lt"
    and s': "s' = s\<lparr>lt_ltable := lt\<rparr>"
    using assms(1) unfolding lt_squash_loop_def if_P [OF True] bind_eq_Some_conv Let_def option.inject by blast
  show ?thesis unfolding s' by (rule lt_ltable_typed [OF e lt assms(2)]) (simp add: loop_typed_def)
next
  case False
  then show ?thesis using assms by (simp only: lt_squash_loop_def if_False) simp
qed

lemma loop_typed_Let: "loop_typed v \<Longrightarrow> (\<And>x. loop_typed x \<Longrightarrow> loop_typed (f x)) \<Longrightarrow> loop_typed (Let v f)"
  by (simp add: Let_def)

lemma loop_typed_if: "(b \<Longrightarrow> loop_typed x) \<Longrightarrow> (\<not> b \<Longrightarrow> loop_typed y) \<Longrightarrow> loop_typed (if b then x else y)"
  by simp

lemma loop_hit_update_typed: "loop_typed e \<Longrightarrow> loop_typed (loop_hit_update e taken bi)"
  unfolding loop_hit_update_def by (intro loop_typed_Let loop_typed_if; simp add: loop_typed_def inc_le)

lemma loop_alloc_typed:
  assumes "loop_alloc lt taken bi r ways = Some lt'" and "list_all loop_typed lt"
  shows "list_all loop_typed lt'"
  using assms
proof (induction ways arbitrary: lt)
  case (Cons i ways)
  let ?idx = "bi_loopIndex bi + ((r + int i) AND 3)"
  obtain e where e: "arr_at lt ?idx = Some e" using Cons.prems(1) by (auto simp: bind_eq_Some_conv Let_def)
  note te = arr_at_typed [OF e Cons.prems(2)]
  show ?case
  proof (cases "le_age e = 0")
    case True
    then have "arr_put lt ?idx (e\<lparr>le_dir := \<not> taken, le_tag := word_of_int (bi_loopTag bi), le_numIter := 0, le_age := 7,
        le_confidence := 0, le_currentIter := 1\<rparr>) = Some lt'" using Cons.prems(1) e by (simp add: Let_def)
    then show ?thesis by (rule arr_put_typed [OF _ Cons.prems(2)]) (simp add: loop_typed_def)
  next
    case False
    then obtain lt1 where lt1: "arr_put lt ?idx (e\<lparr>le_age := le_age e - 1\<rparr>) = Some lt1" "loop_alloc lt1 taken bi r ways = Some lt'"
      using Cons.prems(1) e by (auto simp: bind_eq_Some_conv Let_def)
    have "loop_typed (e\<lparr>le_age := le_age e - 1\<rparr>)" using te False by (simp add: loop_typed_def byte_pred_le)
    then have "list_all loop_typed lt1" by (rule arr_put_typed [OF lt1(1) Cons.prems(2)])
    then show ?thesis by (rule Cons.IH [OF lt1(2)])
  qed
qed simp

lemma lt_loopUpdate_typed:
  assumes "lt_loopUpdate s taken bi = Some s'" and "lt_typed s"
  shows "lt_typed s'"
proof (cases "bi_loopHit bi \<ge> 0")
  case True
  obtain i e lt where e: "arr_at (lt_ltable s) i = Some e" and lt: "arr_put (lt_ltable s) i (loop_hit_update e taken bi) = Some lt"
    and s': "s' = s\<lparr>lt_ltable := lt\<rparr>"
    using assms(1) unfolding lt_loopUpdate_def if_P [OF True] bind_eq_Some_conv Let_def option.inject by blast
  show ?thesis unfolding s' by (rule lt_ltable_typed [OF e lt assms(2) loop_hit_update_typed])
next
  case False
  show ?thesis
  proof (cases taken)
    case True
    obtain r lt where lt: "loop_alloc (lt_ltable s) taken bi r [0, 1, 2, 3] = Some lt" and s': "s' = s\<lparr>lt_ltable := lt, lt_draws := lt_draws s + 1\<rparr>"
      using assms(1) unfolding lt_loopUpdate_def if_not_P [OF False] if_P [OF True] bind_eq_Some_conv Let_def option.inject by blast
    have "list_all loop_typed lt" by (rule loop_alloc_typed [OF lt]) (use assms(2) in \<open>simp add: lt_typed_def\<close>)
    then show ?thesis using assms(2) by (simp add: s' lt_typed_def)
  qed (use assms False in \<open>simp add: lt_loopUpdate_def\<close>)
qed

lemma lt_use_alt_typed:
  assumes "lt_use_alt s taken bi = Some s'" and "lt_typed s"
  shows "lt_typed s'"
  using assms ctrUpdate_range [of "lt_useAltPredForNewlyAllocated s" "bi_altTaken bi = taken" 4]
  by (auto simp: lt_use_alt_def bind_eq_Some_conv lt_typed_def split: if_splits)

lemma lt_gtable_typed: "lt_typed s \<Longrightarrow> tables_typed (lt_cfg s) g \<Longrightarrow> lt_typed (s\<lparr>lt_gtable := g\<rparr>)"
  by (simp add: lt_typed_def)

lemma lt_typed_gtable: "lt_typed s \<Longrightarrow> tables_typed (lt_cfg s) (lt_gtable s)"
  by (simp add: lt_typed_def)

lemma lt_cfg_kept:
  "lt_baseUpdate s taken bi = Some s' \<Longrightarrow> lt_cfg s' = lt_cfg s" "lt_loopUpdate s taken bi = Some s' \<Longrightarrow> lt_cfg s' = lt_cfg s"
  "lt_use_alt s taken bi = Some s' \<Longrightarrow> lt_cfg s' = lt_cfg s" "lt_squash_loop s bi = Some s' \<Longrightarrow> lt_cfg s' = lt_cfg s"
  by (auto simp: lt_baseUpdate_def lt_loopUpdate_def lt_use_alt_def lt_squash_loop_def Let_def bind_eq_Some_conv simp del: loop_alloc.simps split: if_splits)

lemma lt_ctr_upd_typed:
  assumes "lt_cfg_ok c" and "(do { v \<leftarrow> ctrUpdate (te_ctr e) taken (sint (lt_tagTableCounterBits c)); Some (e\<lparr>te_ctr := v\<rparr>) }) = Some e'" and "tage_typed c e"
  shows "tage_typed c e'"
proof -
  have cb: "1 \<le> uint (lt_tagTableCounterBits c)" "uint (lt_tagTableCounterBits c) \<le> 8" using assms(1) by (simp_all add: lt_cfg_ok_def)
  then have "sint (lt_tagTableCounterBits c) = uint (lt_tagTableCounterBits c)" by (intro sint_small) simp
  then obtain v where "ctrUpdate (te_ctr e) taken (uint (lt_tagTableCounterBits c)) = Some v" "e' = e\<lparr>te_ctr := v\<rparr>"
    using assms(2) by (auto simp: bind_eq_Some_conv)
  then show ?thesis using ctrUpdate_range [OF _ cb] assms(3) by (simp add: tage_typed_def)
qed

lemma lt_train_typed:
  assumes "lt_train s taken bi = Some s'" and ty: "lt_typed s" and c: "lt_cfg_ok (lt_cfg s)"
  shows "lt_typed s'"
proof (cases "bi_hitBank bi > 0")
  case False
  then show ?thesis using assms(1) lt_baseUpdate_typed [OF _ ty] by (simp add: lt_train_def)
next
  case True
  let ?upd = "\<lambda>e. do { v \<leftarrow> ctrUpdate (te_ctr e) taken (sint (lt_tagTableCounterBits (lt_cfg s))); Some (e\<lparr>te_ctr := v\<rparr>) }"
  let ?use = "\<lambda>e. Some (if sint (te_u e) < 1 then e\<lparr>te_u := te_u e + 1\<rparr> else e)"
  obtain g e s2 where g: "lt_entry_upd ?upd (bi_hitBank bi) (bi_hitBankIndex bi) (lt_gtable s) = Some g"
    and s2: "(if te_u (e :: TageEntry) = 0 then if bi_altBank bi > 0 then do { g2 \<leftarrow> lt_entry_upd ?upd (bi_altBank bi) (bi_altBankIndex bi) (lt_gtable (s\<lparr>lt_gtable := g\<rparr>));
        Some (s\<lparr>lt_gtable := g, lt_gtable := g2\<rparr>) } else lt_baseUpdate (s\<lparr>lt_gtable := g\<rparr>) taken bi else Some (s\<lparr>lt_gtable := g\<rparr>)) = Some s2"
    and s': "(if bi_longestMatchPred bi \<noteq> bi_altTaken bi \<and> bi_longestMatchPred bi = taken
        then do { g \<leftarrow> lt_entry_upd ?use (bi_hitBank bi) (bi_hitBankIndex bi) (lt_gtable s2); Some (s2\<lparr>lt_gtable := g\<rparr>) } else Some s2) = Some s'"
    using assms(1) unfolding lt_train_def if_P [OF True] Let_def bind_eq_Some_conv by auto
  have g_ty: "tables_typed (lt_cfg s) g" by (rule lt_entry_upd_typed [OF g lt_typed_gtable [OF ty] lt_ctr_upd_typed [OF c]])
  have s1: "lt_typed (s\<lparr>lt_gtable := g\<rparr>)" by (rule lt_gtable_typed [OF ty g_ty])
  have s2_ty: "lt_typed s2 \<and> lt_cfg s2 = lt_cfg s"
  proof (cases "te_u e = 0 \<and> bi_altBank bi > 0")
    case True
    then obtain g2 where "lt_entry_upd ?upd (bi_altBank bi) (bi_altBankIndex bi) g = Some g2" "s2 = s\<lparr>lt_gtable := g2\<rparr>"
      using s2 by (auto simp: bind_eq_Some_conv)
    then show ?thesis using lt_gtable_typed [OF ty] lt_entry_upd_typed [OF _ g_ty lt_ctr_upd_typed [OF c]] by auto
  next
    case False
    then show ?thesis using s2 s1 lt_baseUpdate_typed [OF _ s1] lt_cfg_kept(1) [of "s\<lparr>lt_gtable := g\<rparr>" taken bi]
      by (cases "te_u e = 0") auto
  qed
  have "tables_typed (lt_cfg s2) g2" if "lt_entry_upd ?use (bi_hitBank bi) (bi_hitBankIndex bi) (lt_gtable s2) = Some g2" for g2
    by (rule lt_entry_upd_typed [OF that lt_typed_gtable]) (use s2_ty tage_typed_steps(4) in auto)
  then show ?thesis using s' s2_ty lt_gtable_typed [of s2] by (auto simp: bind_eq_Some_conv split: if_splits)
qed

lemma lt_commit_typed:
  assumes u: "lt_update s t pc taken (Some bi) False = Some s'" and ty: "lt_typed s" and c: "lt_cfg_ok (lt_cfg s)"
  shows "lt_typed s'"
proof (cases "bi_condBranch bi")
  case False
  then show ?thesis using u ty by (auto simp: lt_update_def Let_def)
next
  case True
  obtain s1 s2 s3 alloc r g1 b g2 where s1: "lt_loopUpdate (s\<lparr>lt_draws := lt_draws s + 1\<rparr>) taken bi = Some s1"
    and s2: "(if bi_loopPredValid bi \<and> bi_tagePred bi \<noteq> bi_loopPred bi then do {
        v \<leftarrow> ctrUpdate (lt_loopUseCounter s1) (bi_loopPred bi = taken) 7; Some (s1\<lparr>lt_loopUseCounter := v\<rparr>) } else Some s1) = Some s2"
    and s3: "lt_use_alt s2 taken bi = Some s3"
    and g1: "(if alloc then lt_allocate (lt_n (lt_cfg s)) taken bi r (lt_gtable s3) else Some (lt_gtable s3)) = Some g1"
    and g2: "(if b then lt_age_u (lt_cfg s) (lt_gtable (s3\<lparr>lt_gtable := g1, lt_tCounter := lt_tCounter s3 + 1\<rparr>))
        else Some (lt_gtable (s3\<lparr>lt_gtable := g1, lt_tCounter := lt_tCounter s3 + 1\<rparr>))) = Some g2"
    and s': "lt_train (s3\<lparr>lt_gtable := g1, lt_tCounter := lt_tCounter s3 + 1, lt_gtable := g2\<rparr>) taken bi = Some s'"
    using u unfolding lt_update_def Option.bind.simps Let_def if_P [OF True] if_False bind_eq_Some_conv by blast
  have 1: "lt_typed s1" "lt_cfg s1 = lt_cfg s" using lt_loopUpdate_typed [OF s1] lt_cfg_kept(2) [OF s1] ty by simp_all
  have 2: "lt_typed s2" "lt_cfg s2 = lt_cfg s"
    using s2 1 ctrUpdate_range [of "lt_loopUseCounter s1" "bi_loopPred bi = taken" 7]
    by (auto simp: bind_eq_Some_conv lt_typed_def split: if_splits)
  have 3: "lt_typed s3" "lt_cfg s3 = lt_cfg s" using lt_use_alt_typed [OF s3 2(1)] lt_cfg_kept(3) [OF s3] 2(2) by simp_all
  have "tables_typed (lt_cfg s) g1" using g1 lt_allocate_typed lt_typed_gtable [OF 3(1)] 3(2) by (auto split: if_splits)
  then have "tables_typed (lt_cfg s) g2" using g2 lt_age_u_typed by (auto split: if_splits)
  then have "lt_typed (s3\<lparr>lt_gtable := g1, lt_tCounter := lt_tCounter s3 + 1, lt_gtable := g2\<rparr>)"
    using 3 by (simp add: lt_typed_def)
  then show ?thesis using lt_train_typed [OF s'] c 3(2) by simp
qed

lemma those_typed: "those (map f xs) = Some ys \<Longrightarrow> (\<And>x y. f x = Some y \<Longrightarrow> P y) \<Longrightarrow> list_all P ys"
  by (induction xs arbitrary: ys) (auto split: option.splits)

lemma LTAGE_new_typed:
  assumes "LTAGE_new junk junkf geom rand p = Some s" and p: "ltage_params_ok p"
  shows "lt_typed s"
proof -
  have d: "bim_typed BimodalEntry_default" "loop_typed LoopEntry_default" "1 \<le> n \<Longrightarrow> ctr_range n 0" for n
    by (simp_all add: bim_typed_def BimodalEntry_default_def loop_typed_def LoopEntry_default_def ctr_range_def)
  have cb: "1 \<le> uint (ltp_tagTableCounterBits p)" using p by (simp add: ltage_params_ok_def)
  obtain gt f where gt: "those (map f [1..<Suc (unat (ltp_nHistoryTables p))]) = Some gt"
    and f: "f = (\<lambda>i. do { l \<leftarrow> vec_at (lt_tag_table_sizes junk p) i; sz \<leftarrow> shl_int 1 l; Some (replicate (nat sz) TageEntry_default) })"
    and s: "lt_gtable s = [] # gt" "lt_btable s = replicate (2 ^ unat (ltp_logSizeBiMP p)) BimodalEntry_default"
      "lt_ltable s = replicate (2 ^ unat (ltp_logSizeLoopPred p)) LoopEntry_default" "lt_loopUseCounter s = 0" "lt_useAltPredForNewlyAllocated s = 0"
      "lt_tagTableCounterBits (lt_cfg s) = ltp_tagTableCounterBits p"
    using assms(1) by (auto simp: LTAGE_new_def Let_def bind_eq_Some_conv simp del: upt_Suc)
  have "tables_typed (lt_cfg s) gt"
    by (rule those_typed [OF gt]) (auto simp: f bind_eq_Some_conv tage_typed_def TageEntry_default_def list_all_replicate s(6) d(3) [OF cb])
  then show ?thesis using d by (simp add: lt_typed_def s(1-5) list_all_replicate)
qed

subsection \<open>Predictions and repairs\<close>

lemma lt_updateHistories_typed: "lt_updateHistories s t pc b bi = Some (bi', s') \<Longrightarrow> lt_typed s \<Longrightarrow> lt_typed s'"
  by (auto simp: lt_updateHistories_def Let_def bind_eq_Some_conv)

lemma lt_predict_typed:
  assumes "lt_predict s t pc cond = Some (b, bi, s')" and "lt_typed s"
  shows "lt_typed s'"
proof -
  obtain bi1 where "lt_specLoopUpdate s pc b bi1 = Some s'"
    using assms(1) unfolding lt_predict_def Let_def bind_eq_Some_conv by (auto simp: bind_eq_Some_conv split: if_splits)
  then show ?thesis by (rule lt_specLoopUpdate_typed [OF _ assms(2)])
qed

lemma lt_lookup_typed: "lt_lookup s t pc = Some (b, h, s') \<Longrightarrow> lt_typed s \<Longrightarrow> lt_typed s'"
  by (auto simp: lt_lookup_def bind_eq_Some_conv dest!: lt_predict_typed lt_updateHistories_typed)

lemma lt_uncondBranch_typed: "lt_uncondBranch s t pc = Some (h, s') \<Longrightarrow> lt_typed s \<Longrightarrow> lt_typed s'"
  by (auto simp: lt_uncondBranch_def bind_eq_Some_conv dest!: lt_predict_typed lt_updateHistories_typed)

lemma lt_btbUpdate_typed: "lt_btbUpdate s t pc h = Some s' \<Longrightarrow> lt_typed s \<Longrightarrow> lt_typed s'"
  by (auto simp: lt_btbUpdate_def Let_def bind_eq_Some_conv)

lemma lt_squash_taken_typed: "lt_squash_taken s t b bi = Some s' \<Longrightarrow> lt_typed s \<Longrightarrow> lt_typed s'"
  by (auto simp: lt_squash_taken_def Let_def bind_eq_Some_conv dest!: lt_squash_loop_typed)

lemma lt_update_typed: "lt_update s t pc b h q = Some s' \<Longrightarrow> lt_typed s \<Longrightarrow> lt_cfg_ok (lt_cfg s) \<Longrightarrow> lt_typed s'"
  by (cases h; cases q) (auto simp: lt_update_def [of _ _ _ _ _ True] lt_update_def [of _ _ _ _ None] dest: lt_squash_taken_typed lt_commit_typed)

lemma lt_squash_typed: "lt_squash s t h = Some s' \<Longrightarrow> lt_typed s \<Longrightarrow> lt_typed s'"
  by (auto simp: lt_squash_def bind_eq_Some_conv dest: lt_squash_loop_typed)

text \<open>The typing of the tables strengthens the invariant with which \<open>LTAGE\<close> fulfils the contract.\<close>

interpretation lty: direction_predictor LTAGEDir "\<lambda>s. lt_ok s \<and> lt_typed s" lt_cfg lt_threads lt_hist_ok
proof unfold_locales
  fix s :: LTAGE and t :: ThreadID and a b q and h :: "BranchInfo option"
  assume s: "lt_ok s \<and> lt_typed s" and t: "tid_index t < lt_threads (lt_cfg s)"
  then have c: "lt_cfg_ok (lt_cfg s)" by (simp add: lt_ok_def)
  note k = conjunct1 [OF s] t
  show "\<exists>b h s'. dp_lookup LTAGEDir s t a = Some (b, h, s') \<and> (lt_ok s' \<and> lt_typed s') \<and> lt_cfg s' = lt_cfg s \<and> lt_hist_ok (lt_cfg s) h"
    using ltage.lookup_ok [OF k, of a] lt_lookup_typed s by fastforce
  show "\<exists>h s'. dp_uncondBranch LTAGEDir s t a = Some (h, s') \<and> (lt_ok s' \<and> lt_typed s') \<and> lt_cfg s' = lt_cfg s \<and> lt_hist_ok (lt_cfg s) h"
    using ltage.uncond_ok [OF k, of a] lt_uncondBranch_typed s by fastforce
  assume h: "lt_hist_ok (lt_cfg s) h"
  show "\<exists>s'. dp_btbUpdate LTAGEDir s t a h = Some s' \<and> (lt_ok s' \<and> lt_typed s') \<and> lt_cfg s' = lt_cfg s"
    using ltage.btbUpdate_ok [OF k h, of a] lt_btbUpdate_typed s by fastforce
  show "\<exists>s'. dp_update LTAGEDir s t a b h q = Some s' \<and> (lt_ok s' \<and> lt_typed s') \<and> lt_cfg s' = lt_cfg s"
    using ltage.update_ok [OF k h, of a b q] lt_update_typed [OF _ _ c] s by fastforce
  show "\<exists>s'. dp_squash LTAGEDir s t h = Some s' \<and> (lt_ok s' \<and> lt_typed s') \<and> lt_cfg s' = lt_cfg s"
    using ltage.squash_ok [OF k h] lt_squash_typed s by fastforce
  show "\<exists>g. dp_getGHR LTAGEDir s t h = Some g" by (rule ltage.getGHR_ok [OF k h])
qed

text \<open>
  \<^bold>\<open>C12.\<close> The tables of L-TAGE are well typed in every state a unit reaches: the prediction and
  hysteresis bits are bits, the confidence and the age of a loop entry are at most 7, the counters
  of the tagged tables keep their configured width and their \<open>u\<close> is 0 or 1, and the two chooser
  counters keep their 7 and 4 bits, although the fields are wider machine integers.
\<close>

theorem ltage_reachable_typed:
  assumes "LTAGE_new junk junkf geom rand p = Some s" and "ltage_params_ok p" and "ltage_shifts_ok p" and "geom_ok geom p"
    and "BPredUnit_new isa junk' q s = Inr u0" and "params_ok q" and "p_numThreads q = ltp_numThreads p"
    and "bp_reach LTAGEDir isa u0 u"
  shows "lt_typed (dir u)"
proof -
  have new: "lt_ok s" "lt_numThreads (lt_cfg s) = ltp_numThreads p"
    using LTAGE_new_ok [OF assms(2-4), of junk junkf rand] assms(1) by auto
  have "unit_ok (\<lambda>s. lt_ok s \<and> lt_typed s) lt_cfg lt_threads lt_hist_ok u0"
    using lty.BPredUnit_new_ok [OF assms(5,6) conjI [OF new(1) LTAGE_new_typed [OF assms(1,2)]]] new(2) assms(7) by (simp add: lt_threads_def)
  then show ?thesis using lty.reach_unit_ok [OF assms(8)] by (simp add: unit_ok_def)
qed

theorem ltage_reachable_typed_witness: "lt_typed (dir sample_ltage_unit)"
  by (rule ltage_reachable_typed [OF sample_ltage_new sample_ltage_params_ok sample_ltage_unit_new sample_bp_ok _ reach_init])
    code_simp

end
