(* ===== verification/BPred_Repair.thy ===== *)
theory BPred_Repair
  imports BPred_Undo
begin

text \<open>
  The repair of a misprediction by the base class, for derived classes whose \<open>squash\<close> of the
  younger branches does not undo their predictions. The locale \<open>repairable_predictor\<close> asks for a
  relation \<open>saved\<close> that says that the history object of a branch still determines the histories
  from before its prediction; it must survive a bounded number of younger predictions. Then a
  misprediction leaves the derived class \<open>repaired\<close>.
\<close>

locale repairable_predictor = direction_predictor P inv cfg threads hist_ok
  for P :: "('s, 'h) DirPred" and inv :: "'s \<Rightarrow> bool" and cfg :: "'s \<Rightarrow> 'c"
    and threads :: "'c \<Rightarrow> nat" and hist_ok :: "'c \<Rightarrow> 'h option \<Rightarrow> bool" +
  fixes depth :: "'c \<Rightarrow> nat"
    and saved :: "'s \<Rightarrow> Addr \<Rightarrow> nat \<Rightarrow> ThreadID \<Rightarrow> 'h option \<Rightarrow> 's \<Rightarrow> bool"
    and repaired :: "'s \<Rightarrow> Addr \<Rightarrow> bool \<Rightarrow> ThreadID \<Rightarrow> 's \<Rightarrow> bool"
  assumes saved_first:
      "inv s \<Longrightarrow> tid_index t < threads (cfg s) \<Longrightarrow>
        dp_uncondBranch P s t a = Some (h, s1) \<or> (\<exists>b. dp_lookup P s t a = Some (b, h, s1)) \<Longrightarrow>
        s2 = s1 \<or> dp_btbUpdate P s1 t a h = Some s2 \<Longrightarrow> saved s a 0 t h s2"
    and saved_next:
      "inv s \<Longrightarrow> tid_index t < threads (cfg s) \<Longrightarrow> cfg s = cfg s0 \<Longrightarrow> saved s0 a k t h s \<Longrightarrow> k < depth (cfg s) \<Longrightarrow>
        dp_uncondBranch P s t a' = Some (h', s1) \<or> (\<exists>b. dp_lookup P s t a' = Some (b, h', s1)) \<Longrightarrow>
        s2 = s1 \<or> dp_btbUpdate P s1 t a' h' = Some s2 \<Longrightarrow> saved s0 a (Suc k) t h s2"
    and saved_squash:
      "inv s \<Longrightarrow> tid_index t < threads (cfg s) \<Longrightarrow> hist_ok (cfg s) h' \<Longrightarrow> saved s0 a k t h s \<Longrightarrow>
        dp_squash P s t h' = Some s1 \<Longrightarrow> saved s0 a k t h s1"
    and saved_repair:
      "inv s \<Longrightarrow> tid_index t < threads (cfg s) \<Longrightarrow> cfg s = cfg s0 \<Longrightarrow> inv s0 \<Longrightarrow> saved s0 a k t h s \<Longrightarrow>
        dp_update P s t a x h True = Some s1 \<Longrightarrow> repaired s0 a x t s1"
begin

lemma predict_saved:
  assumes ok: "unit_ok inv cfg threads hist_ok u" and t: "tid_index t < unat (bp_numThreads u)"
    and b: "seq_bound t u k" "k < sn"
  obtains x y u' e where "predict P isa u inst sn pc t = Some (x, y, u')" and "unit_ok inv cfg threads hist_ok u'"
    and "cfg (dir u') = cfg (dir u)" and "bp_numThreads u' = bp_numThreads u" and "seq_bound t u' sn"
    and "predHist u' ! tid_index t = e # predHist u ! tid_index t" and "seqNum e = sn" and "ph_pc e = instAddr isa pc"
    and "saved (dir u) (instAddr isa pc) 0 t (bpHistory e) (dir u')"
    and "\<And>s0 a n h. cfg (dir u) = cfg s0 \<Longrightarrow> saved s0 a n t h (dir u) \<Longrightarrow> n < depth (cfg s0) \<Longrightarrow> saved s0 a (Suc n) t h (dir u')"
proof (rule predict_effect [OF ok t, of isa inst sn pc])
  let ?i = "tid_index t" and ?a = "instAddr isa pc"
  note th = unit_thread [OF ok t]
  fix x y u' s e r'
  assume p: "predict P isa u inst sn pc t = Some (x, y, u')" and d: "cfg (dir u') = cfg (dir u)"
    and f: "bp_numThreads u' = bp_numThreads u" and ip: "ip_effect (iPred u) (iPred u') ?i e"
    and ph: "predHist u' = (predHist u)[?i := e # predHist u ! ?i]" and e: "seqNum e = sn" "ph_pc e = ?a"
    and s: "dp_uncondBranch P (dir u) t ?a = Some (bpHistory e, s) \<or> (\<exists>b. dp_lookup P (dir u) t ?a = Some (b, bpHistory e, s))"
    and s': "dir u' = s \<or> dp_btbUpdate P s t ?a (bpHistory e) = Some (dir u')"
  have iv: "inv (dir u)" "?i < threads (cfg (dir u))" using ok th(5) by (simp_all add: unit_ok_def)
  have "unit_ok inv cfg threads hist_ok u'"
    using predict_ok [OF ok t seq_bound_call_ok [OF b, of inst pc], of isa] p by auto
  moreover have "seq_bound t u' sn" using seq_bound_predict [OF b(1) _ th(3,4) ph ip] b(2) e(1) by simp
  moreover have "predHist u' ! ?i = e # predHist u ! ?i" using ph th(3) by simp
  moreover have "saved s0 a (Suc n) t h (dir u')" if "cfg (dir u) = cfg s0" "saved s0 a n t h (dir u)" "n < depth (cfg s0)" for s0 a n h
    using saved_next [OF iv that(1,2) _ s s'] that by simp
  ultimately show thesis using p d f e saved_first [OF iv s s'] by (intro that [of x y u' e]) simp_all
qed

lemma predicts_saved:
  assumes "unit_ok inv cfg threads hist_ok u" and "tid_index t < unat (bp_numThreads u)"
    and "seq_bound t u k" and "sorted_wrt (<) (k # map (fst \<circ> snd) qs)"
    and "cfg (dir u) = cfg s0" and "saved s0 a n t h (dir u)" and "n + length qs \<le> depth (cfg s0)"
  shows "\<exists>u' es m. predicts P isa t u qs = Some u' \<and> unit_ok inv cfg threads hist_ok u' \<and> cfg (dir u') = cfg s0 \<and>
    bp_numThreads u' = bp_numThreads u \<and> predHist u' ! tid_index t = es @ predHist u ! tid_index t \<and>
    saved s0 a m t h (dir u')"
  using assms
proof (induction qs arbitrary: u k n)
  case Nil
  then show ?case by auto
next
  case (Cons q qs)
  obtain inst sn pc where q: "q = (inst, sn, pc)" by (cases q)
  have lt: "k < sn" and lt': "sorted_wrt (<) (sn # map (fst \<circ> snd) qs)" using Cons.prems(4) by (auto simp: q comp_def)
  show ?case
  proof (rule predict_saved [OF Cons.prems(1-3) lt, of isa inst pc])
    fix x y u' e
    assume p: "predict P isa u inst sn pc t = Some (x, y, u')" "unit_ok inv cfg threads hist_ok u'" "cfg (dir u') = cfg (dir u)"
      "bp_numThreads u' = bp_numThreads u" "seq_bound t u' sn" "predHist u' ! tid_index t = e # predHist u ! tid_index t"
      and sv: "\<And>s0 a n h. cfg (dir u) = cfg s0 \<Longrightarrow> saved s0 a n t h (dir u) \<Longrightarrow> n < depth (cfg s0) \<Longrightarrow> saved s0 a (Suc n) t h (dir u')"
    have "saved s0 a (Suc n) t h (dir u')" using Cons.prems(7) by (intro sv [OF Cons.prems(5,6)]) simp
    then obtain u2 es m where "predicts P isa t u' qs = Some u2" "unit_ok inv cfg threads hist_ok u2" "cfg (dir u2) = cfg s0"
      "bp_numThreads u2 = bp_numThreads u'" "predHist u2 ! tid_index t = es @ predHist u' ! tid_index t" "saved s0 a m t h (dir u2)"
      using Cons.IH [OF p(2) _ p(5) lt', of "Suc n"] Cons.prems p(3,4) by auto
    then show ?case using p(1,4,6) by (auto simp: q intro!: exI [of _ "es @ [e]"])
  qed
qed

lemma squash_loop_saved:
  assumes "inv s" and "tid_index t < threads (cfg s)" and "list_all (\<lambda>e. hist_ok (cfg s) (bpHistory e)) es"
    and "saved s0 a k t h s" and "squash_loop P sn t s r es = Some (s', r', rest)"
  shows "saved s0 a k t h s'"
  using assms
proof (induction es arbitrary: s r)
  case (Cons e es)
  show ?case
  proof (cases "sn < seqNum e")
    case True
    then obtain r1 s1 where 1: "dp_squash P s t (bpHistory e) = Some s1" "squash_loop P sn t s1 r1 es = Some (s', r', rest)"
      using Cons.prems(5) by (auto split: bind_splits)
    have "inv s1" "cfg s1 = cfg s" using squash_ok [OF Cons.prems(1,2)] Cons.prems(3) 1(1) by fastforce+
    moreover have "saved s0 a k t h s1" using saved_squash [OF Cons.prems(1,2) _ Cons.prems(4) 1(1)] Cons.prems(3) by simp
    ultimately show ?thesis using Cons.IH [of s1 r1] Cons.prems 1(2) by simp
  qed (use Cons.prems in auto)
qed simp

text \<open>A prediction, a run of younger ones, and the misprediction of the first.\<close>

lemma mispredict_repairs:
  assumes ok: "unit_ok inv cfg threads hist_ok u" and t: "tid_index t < unat (bp_numThreads u)"
    and b: "seq_bound t u k" and q: "sorted_wrt (<) (k # sn # map (fst \<circ> snd) qs)" and n: "length qs \<le> depth (cfg (dir u))"
  shows "\<exists>u1 u2. predicts P isa t u ((inst, sn, pc) # qs) = Some u1 \<and>
    bp_mispredict P isa rnd u1 sn tg x t = Some u2 \<and> repaired (dir u) (instAddr isa pc) x t (dir u2)"
proof -
  let ?i = "tid_index t" and ?a = "instAddr isa pc"
  have lt: "k < sn" using q by simp
  show ?thesis
  proof (rule predict_saved [OF ok t b lt, of isa inst pc])
    fix y z v e
    assume p: "predict P isa u inst sn pc t = Some (y, z, v)" and v: "unit_ok inv cfg threads hist_ok v"
      and c: "cfg (dir v) = cfg (dir u)" "bp_numThreads v = bp_numThreads u" and sb: "seq_bound t v sn"
      and ph: "predHist v ! ?i = e # predHist u ! ?i" and e: "seqNum e = sn" "ph_pc e = ?a"
      and sv: "saved (dir u) ?a 0 t (bpHistory e) (dir v)"
    obtain u1 es m where u1: "predicts P isa t v qs = Some u1" "unit_ok inv cfg threads hist_ok u1" "cfg (dir u1) = cfg (dir u)"
      "bp_numThreads u1 = bp_numThreads v" "predHist u1 ! ?i = es @ predHist v ! ?i" "saved (dir u) ?a m t (bpHistory e) (dir u1)"
      using predicts_saved [OF v _ sb _ c(1) sv, of qs isa] t c(2) q n by auto
    have t1: "?i < unat (bp_numThreads u1)" using t u1(4) c(2) by simp
    note th = unit_thread [OF u1(2) t1]
    have mem: "e \<in> set (predHist u1 ! ?i)" using u1(5) ph by simp
    then have co: "call_ok t u1 (Mispredict sn tg x rnd)" using e(1) by (auto simp: list_ex_iff)
    obtain u2 s r rest where u2: "bp_mispredict P isa rnd u1 sn tg x t = Some u2"
      "squash_loop P sn t (dir u1) (bp_RAS u1 ! ?i) (predHist u1 ! ?i) = Some (s, r, rest)" "inv s" "cfg s = cfg (dir u1)"
      "dp_update P s t ?a x (bpHistory e) True = Some (dir u2)"
      using bp_mispredict_ok [OF u1(2) t1 co, of isa] mem e by metis
    have iv: "inv (dir u1)" "list_all (\<lambda>e. hist_ok (cfg (dir u1)) (bpHistory e)) (predHist u1 ! ?i)"
      using u1(2) th(1) by (auto simp: unit_ok_def thread_ok_def entry_ok_def list_all_iff)
    have "saved (dir u) ?a m t (bpHistory e) s" by (rule squash_loop_saved [OF iv(1) th(5) iv(2) u1(6) u2(2)])
    then have "repaired (dir u) ?a x t (dir u2)"
      using saved_repair [OF u2(3) _ _ _ _ u2(5)] th(5) u2(4) u1(3) ok by (simp add: unit_ok_def)
    then show ?thesis using p u1(1) u2(1) by auto
  qed
qed

end

end
