(* ===== verification/Ltage_Repair.thy ===== *)
theory Ltage_Repair
  imports Ltage_Props BPred_Repair
begin

text \<open>
  The repair of a misprediction by L-TAGE when younger branches have been predicted since. Their
  predictions move the position in the circular history buffer, possibly around its end, and
  their squash moves nothing back. The window of outcomes behind the mispredicted branch stays in
  the buffer as long as fewer younger branches are outstanding than the buffer has entries beside
  two windows; the saved position and registers then give the history back.
\<close>

subsection \<open>What an operation does to the buffer\<close>

abbreviation lt_B :: "LTAGECfg \<Rightarrow> nat" where "lt_B c \<equiv> unat (lt_histBufferSize c)"

abbreviation lt_M :: "LTAGECfg \<Rightarrow> nat" where "lt_M c \<equiv> unat (lt_maxHist c)"

abbreviation lt_hist :: "LTAGE \<Rightarrow> ThreadID \<Rightarrow> ThreadHistory" where "lt_hist s t \<equiv> lt_threadHistory s ! tid_index t"

text \<open>
  A prediction moves one down, from position 0 to the end, and writes there. \<open>B\<close> is the size of the
  buffer and \<open>M\<close> the length of the longest window.
\<close>

definition lt_moved :: "nat \<Rightarrow> nat \<Rightarrow> ThreadHistory \<Rightarrow> ThreadHistory \<Rightarrow> bool" where
  "lt_moved B M th th' \<longleftrightarrow>
     lth_ptGhist th' = (if lth_ptGhist th = 0 then int (B - M) else lth_ptGhist th) - 1 \<and>
     (\<forall>j. j \<noteq> nat (lth_ptGhist th') \<longrightarrow> (lth_ptGhist th = 0 \<longrightarrow> j < B - M) \<longrightarrow>
        lth_globalHistory th' ! j = lth_globalHistory th ! j)"

lemma arr_put_other: "arr_put xs i v = Some ys \<Longrightarrow> j \<noteq> nat i \<Longrightarrow> ys ! j = xs ! j"
  by (auto simp: arr_put_def split: if_splits)

lemma lt_updateGHist_moved:
  assumes c: "lt_cfg_ok c" and th: "lt_th_ok c th" and u: "lt_updateGHist c b th = Some th'"
  shows "lt_moved (lt_B c) (lt_M c) th th'"
proof (cases "lth_ptGhist th = 0")
  case True
  note p = lt_th_parts [OF th]
  have o: "length (lth_globalHistory th) = lt_B c" "bits_ok (lth_globalHistory th)" using p(1) by (simp_all add: lt_buf_ok_def)
  obtain tab where tab: "for_up (lt_M c) 0 (\<lambda>i tab. do { x \<leftarrow> vec_at tab i; vec_put tab (unat (lt_histBufferSize c - lt_maxHist c + of_nat i)) x })
      (lth_globalHistory th) = Some tab" "\<And>k. k < lt_B c - lt_M c \<Longrightarrow> tab ! k = lth_globalHistory th ! k"
    using rollover_copy [OF c o] by blast
  have d: "sint (lt_histBufferSize c - lt_maxHist c) = int (lt_B c - lt_M c)" by (rule lt_cfg_buffer(3) [OF c])
  obtain tab' where "arr_put tab (int (lt_B c - lt_M c) - 1) (if b then 1 else 0) = Some tab'" and th': "th' = th\<lparr>lth_globalHistory := tab',
      lth_ptGhist := int (lt_B c - lt_M c) - 1, lth_gHist := int (lt_B c - lt_M c) - 1\<rparr>"
    using u by (auto simp: lt_updateGHist_def True tab(1) d Let_def bind_eq_Some_conv)
  then show ?thesis using tab(2) arr_put_other [of tab] by (auto simp: lt_moved_def True)
next
  case False
  then show ?thesis using u lt_th_parts(2) [OF th] arr_put_other [of "lth_globalHistory th"]
    by (auto simp: lt_updateGHist_def Let_def bind_eq_Some_conv lt_moved_def)
qed

lemma lt_updateHistories_moved:
  assumes "lt_updateHistories s t pc b bi = Some (bi', s')" and s: "lt_ok s" and t: "tid_index t < length (lt_threadHistory s)"
  shows "lt_moved (lt_B (lt_cfg s)) (lt_M (lt_cfg s)) (lt_hist s t) (lt_hist s' t)"
proof -
  obtain th ph ci ct0 ct1 where u: "lt_updateGHist (lt_cfg s) b (lt_hist s t) = Some th"
    and s': "lt_hist s' t = th\<lparr>lth_pathHist := ph, lth_computeIndices := ci, lth_computeTags0 := ct0, lth_computeTags1 := ct1\<rparr>"
    using assms(1) t by (auto simp: lt_updateHistories_def Let_def bind_eq_Some_conv vec_at_eq_Some vec_put_eq_Some)
  have "lt_cfg_ok (lt_cfg s)" using s by (simp add: lt_ok_def)
  from lt_updateGHist_moved [OF this lt_ok_thread(1) [OF s t] u] show ?thesis by (simp add: lt_moved_def s')
qed

lemma lt_predict_moved:
  assumes s: "lt_ok s" and t: "tid_index t < length (lt_threadHistory s)"
    and "lt_uncondBranch s t a = Some (h, s') \<or> (\<exists>b. lt_lookup s t a = Some (b, h, s'))"
  shows "lt_moved (lt_B (lt_cfg s)) (lt_M (lt_cfg s)) (lt_hist s t) (lt_hist s' t)"
proof -
  have m: "lt_moved (lt_B (lt_cfg s)) (lt_M (lt_cfg s)) (lt_hist s t) (lt_hist s' t)"
    if "lt_predict s t a cond = Some (b, bi, s1)" "lt_updateHistories s1 t a x bi = Some (bi', s')" for cond b bi s1 x bi'
  proof -
    have "lt_frame s s1" using lt_predict_ok [OF s t, of a cond] that(1) by auto
    then show ?thesis using lt_updateHistories_moved [OF that(2)] t by (simp add: lt_frame_def)
  qed
  show ?thesis using assms(3) by (elim disjE exE) (auto simp: lt_uncondBranch_def lt_lookup_def bind_eq_Some_conv dest!: m)
qed

text \<open>The correction for a BTB miss stays where it is and rewrites the newest outcome only.\<close>

definition lt_rewritten :: "ThreadHistory \<Rightarrow> ThreadHistory \<Rightarrow> bool" where
  "lt_rewritten th th' \<longleftrightarrow> lth_ptGhist th' = lth_ptGhist th \<and>
     (\<forall>j. j \<noteq> nat (lth_ptGhist th) \<longrightarrow> lth_globalHistory th' ! j = lth_globalHistory th ! j)"

lemma lt_btbUpdate_rewritten:
  assumes "lt_btbUpdate s t a h = Some s'" and s: "lt_ok s" and t: "tid_index t < length (lt_threadHistory s)"
  shows "lt_rewritten (lt_hist s t) (lt_hist s' t)"
  using assms(1) t lt_th_parts(2) [OF lt_ok_thread(1) [OF s t]] arr_put_other [of "lth_globalHistory (lt_hist s t)"]
  by (auto simp: lt_btbUpdate_def lt_refold_def Let_def bind_eq_Some_conv vec_at_eq_Some vec_put_eq_Some lt_rewritten_def)

subsection \<open>The window behind a branch\<close>

text \<open>
  \<open>k\<close> predictions after the one that put its outcome at position \<open>pt\<close>: where the thread is now, and
  that the outcomes older than the one at \<open>pt\<close> are still those of \<open>tab\<close>.
\<close>

definition lt_kept :: "nat \<Rightarrow> nat \<Rightarrow> uint8 list \<Rightarrow> int \<Rightarrow> nat \<Rightarrow> ThreadHistory \<Rightarrow> bool" where
  "lt_kept B M tab pt k th \<longleftrightarrow>
     lth_ptGhist th = (if int k \<le> pt then pt - int k else pt - int k + int (B - M)) \<and>
     (\<forall>j. nat pt < j \<longrightarrow> j \<le> nat pt + M \<longrightarrow> lth_globalHistory th ! j = tab ! j)"

lemma lt_kept_moved:
  assumes k: "lt_kept B M tab pt k th" and m: "lt_moved B M th th'" and b: "Suc k + 2 * M < B" and pt: "0 \<le> pt"
  shows "lt_kept B M tab pt (Suc k) th'"
proof -
  have p: "lth_ptGhist th' = (if int (Suc k) \<le> pt then pt - int (Suc k) else pt - int (Suc k) + int (B - M))"
    using k m b pt by (auto simp: lt_kept_def lt_moved_def)
  have w: "lth_globalHistory th' ! j = lth_globalHistory th ! j" if "nat pt < j" "j \<le> nat pt + M" for j
  proof -
    have "j \<noteq> nat (lth_ptGhist th')" using that b pt unfolding p by (auto simp: nat_eq_iff)
    moreover have "j < B - M" if "lth_ptGhist th = 0"
      using that \<open>j \<le> nat pt + M\<close> k b pt by (auto simp: lt_kept_def split: if_splits)
    ultimately show ?thesis using m by (simp add: lt_moved_def)
  qed
  show ?thesis using p w k by (simp add: lt_kept_def)
qed

lemma lt_kept_rewritten:
  assumes k: "lt_kept B M tab pt k th" and r: "lt_rewritten th th'" and b: "k + 2 * M < B" and pt: "0 \<le> pt"
  shows "lt_kept B M tab pt k th'"
proof -
  have "j \<noteq> nat (lth_ptGhist th)" if "nat pt < j" "j \<le> nat pt + M" for j
    using that k b pt by (auto simp: lt_kept_def nat_eq_iff)
  then show ?thesis using k r by (simp add: lt_kept_def lt_rewritten_def)
qed

text \<open>
  The history object \<open>h\<close> of the branch at \<open>a\<close>, predicted in the state \<open>s0\<close>, still gives back the
  history of the thread in \<open>s0\<close>.
\<close>

definition lt_recoverable :: "LTAGE \<Rightarrow> Addr \<Rightarrow> nat \<Rightarrow> ThreadID \<Rightarrow> BranchInfo option \<Rightarrow> LTAGE \<Rightarrow> bool" where
  "lt_recoverable s0 a k t h s \<longleftrightarrow> (\<exists>bi tab pt. h = Some (lt_save (lt_hist s0 t) pt (lt_next_path (lt_hist s0 t) a) bi) \<and>
     lt_buf_ok (lt_cfg s0) tab pt \<and> k + 2 * lt_M (lt_cfg s0) < lt_B (lt_cfg s0) \<and>
     (\<forall>i < lt_M (lt_cfg s0). outcome_at tab (pt + 1) i = outcome_at (lth_globalHistory (lt_hist s0 t)) (lth_ptGhist (lt_hist s0 t)) i) \<and>
     lt_kept (lt_B (lt_cfg s0)) (lt_M (lt_cfg s0)) tab pt k (lt_hist s t))"

definition lt_repaired :: "LTAGE \<Rightarrow> Addr \<Rightarrow> bool \<Rightarrow> ThreadID \<Rightarrow> LTAGE \<Rightarrow> bool" where
  "lt_repaired s0 a x t s \<longleftrightarrow> lt_shifted (lt_cfg s0) a x (lt_hist s0 t) (lt_hist s t) \<and>
     (lt_folded (lt_cfg s0) (lt_hist s0 t) \<longrightarrow> lt_folded (lt_cfg s0) (lt_hist s t))"

lemma lt_recoverable_rewritten:
  "lt_recoverable s0 a k t h s \<Longrightarrow> lt_rewritten (lt_hist s t) (lt_hist s' t) \<Longrightarrow> lt_recoverable s0 a k t h s'"
  unfolding lt_recoverable_def using lt_kept_rewritten lt_buf_pos(1) by blast

lemma lt_recoverable_first:
  assumes s: "lt_ok s" and t: "tid_index t < length (lt_threadHistory s)"
    and "lt_uncondBranch s t a = Some (h, s1) \<or> (\<exists>b. lt_lookup s t a = Some (b, h, s1))"
  shows "lt_recoverable s a 0 t h s1"
proof -
  have b: "2 * lt_M (lt_cfg s) < lt_B (lt_cfg s)" using s by (intro lt_cfg_buffer(1)) (simp add: lt_ok_def)
  have r: "lt_recoverable s a 0 t (Some (lt_save (lt_hist s t) pt (lt_next_path (lt_hist s t) a) bi))
      (s2\<lparr>lt_threadHistory := (lt_threadHistory s)[tid_index t := lt_advance (lt_cfg s) (lt_hist s t) (tab[nat pt := y]) pt ph]\<rparr>)"
    if "lt_buf_ok (lt_cfg s) tab pt" "\<And>i. i < lt_M (lt_cfg s) \<Longrightarrow>
      outcome_at tab (pt + 1) i = outcome_at (lth_globalHistory (lt_hist s t)) (lth_ptGhist (lt_hist s t)) i" for pt bi s2 tab y ph
    unfolding lt_recoverable_def using that b t lt_buf_pos(1) [OF that(1)]
    by (intro exI [of _ bi] exI [of _ tab] exI [of _ pt]) (simp add: lt_kept_def lt_advance_def)
  show ?thesis using assms(3)
  proof (elim disjE exE)
    assume l: "lt_uncondBranch s t a = Some (h, s1)"
    show ?thesis by (rule lt_uncondBranch_eq [OF s t refl, of a]) (use r l in auto)
  next
    fix b assume l: "lt_lookup s t a = Some (b, h, s1)"
    show ?thesis by (rule lt_lookup_eq [OF s t refl, of a]) (use r l in auto)
  qed
qed

lemma lt_recoverable_next:
  assumes r: "lt_recoverable s0 a k t h s" and b: "Suc k + 2 * lt_M (lt_cfg s0) < lt_B (lt_cfg s0)"
    and m: "lt_moved (lt_B (lt_cfg s0)) (lt_M (lt_cfg s0)) (lt_hist s t) (lt_hist s1 t)"
  shows "lt_recoverable s0 a (Suc k) t h s1"
  using r b lt_kept_moved [OF _ m b] lt_buf_pos(1) unfolding lt_recoverable_def by blast

subsection \<open>The repair\<close>

lemma fh_reset_fold:
  assumes c: "lt_cfg_ok c" and buf: "lt_buf_ok c tab pt" and i: "1 \<le> i" "i \<le> lt_n c" and fs: "lt_folds_ok c cl fs" and gs: "lt_folds_ok c cl gs"
    and old: "\<And>k. k < lt_M c \<Longrightarrow> outcome_at tab (pt + 1) k = g k"
    and comp: "fh_comp (gs ! i) = hist_fold (nat (cl i)) g (nat (lt_histLengths c ! i))"
  shows "fh_comp (fh_next_all (lt_n c) tab pt (fh_reset_all (lt_n c) (map fh_comp gs) fs) ! i) =
    hist_fold (nat (cl i)) (outcome_at tab pt) (nat (lt_histLengths c ! i))"
proof -
  have l: "i < length fs" "i < length gs" using fs gs i by (simp_all add: lt_folds_ok_def)
  have f: "fh_ok (lt_histLengths c ! i) (cl i) ((fs ! i)\<lparr>fh_comp := fh_comp (gs ! i)\<rparr>)"
    using fs i by (simp add: lt_folds_ok_def fh_ok_def)
  show ?thesis using fh_next_fold [OF c buf i f old] comp l i by (simp add: fh_all_nth)
qed

lemma lt_next_path_mod: "lt_next_path th pc = (2 * lth_pathHist th + of_bool (bit pc 0)) mod 2 ^ 16"
  unfolding lt_next_path_def take_bit_eq_mask [symmetric] take_bit_eq_mod by (simp add: mult.commute)

lemma lt_refold_repairs:
  assumes c: "lt_cfg_ok c" and th0: "lt_th_ok c th0" and th: "lt_th_ok c th" and buf: "lt_buf_ok c tab pt"
    and old: "\<And>i. i < lt_M c \<Longrightarrow> outcome_at tab (pt + 1) i = outcome_at (lth_globalHistory th0) (lth_ptGhist th0) i"
    and kept: "lt_kept (lt_B c) (lt_M c) tab pt k th" and bi: "bi = lt_save th0 pt (lt_next_path th0 a) bi0"
    and th1: "th1 = th\<lparr>lth_pathHist := lt_next_path th0 a, lth_ptGhist := pt, lth_gHist := pt,
      lth_globalHistory := (lth_globalHistory th)[nat pt := if x then 1 else 0]\<rparr>"
  shows "\<exists>th2. lt_refold c bi th1 = Some th2 \<and> lt_shifted c a x th0 th2 \<and> (lt_folded c th0 \<longrightarrow> lt_folded c th2)"
proof -
  let ?h0 = "outcome_at (lth_globalHistory th0) (lth_ptGhist th0)"
  define tab' where "tab' = (lth_globalHistory th)[nat pt := if x then 1 else 0]"
  have ok1: "lt_th_ok c th1" using th buf lt_next_path_range [of th0 a] by (simp add: lt_th_ok_def lt_buf_ok_def th1 bits_ok_update)
  have "lt_saved_ok c bi" using th0 buf lt_next_path_range [of th0 a]
    by (simp add: bi lt_saved_ok_def lt_save_def lt_th_ok_def lt_buf_ok_def lt_folds_ok_def)
  note rf = lt_refold_eq [OF c ok1 this]
  define th2 where "th2 = the (lt_refold c bi th1)"
  have th2: "lth_globalHistory th2 = tab'" "lth_ptGhist th2 = pt" "lth_pathHist th2 = lt_next_path th0 a"
    "lth_computeIndices th2 = fh_next_all (lt_n c) tab' pt (fh_reset_all (lt_n c) (map fh_comp (lth_computeIndices th0)) (lth_computeIndices th))"
    "lth_computeTags0 th2 = fh_next_all (lt_n c) tab' pt (fh_reset_all (lt_n c) (map fh_comp (lth_computeTags0 th0)) (lth_computeTags0 th))"
    "lth_computeTags1 th2 = fh_next_all (lt_n c) tab' pt (fh_reset_all (lt_n c) (map fh_comp (lth_computeTags1 th0)) (lth_computeTags1 th))"
    unfolding th2_def rf option.sel by (simp_all add: th1 bi lt_save_def tab'_def)
  have pos: "0 \<le> pt" "nat pt < length (lth_globalHistory th)" using lt_buf_pos [OF buf] buf th by (simp_all add: lt_buf_ok_def lt_th_ok_def)
  have buf': "lt_buf_ok c tab' pt" using ok1 by (simp add: lt_th_ok_def lt_buf_ok_def th1 tab'_def)
  have old': "outcome_at tab' (pt + 1) i = ?h0 i" if "i < lt_M c" for i
  proof -
    have "lth_globalHistory th ! (nat pt + Suc i) = tab ! (nat pt + Suc i)" using kept that by (simp add: lt_kept_def)
    then show ?thesis using old [OF that] pos by (simp add: outcome_at_def tab'_def nat_add_distrib)
  qed
  have "outcome_at tab' pt (Suc i) = outcome_at tab' (pt + 1) i" for i by (simp add: outcome_at_def algebra_simps)
  then have "lt_shifted c a x th0 th2"
    using old' outcome_at_update(1) [OF pos, of x] by (simp add: lt_shifted_def th2(1-3) lt_next_path_mod tab'_def)
  moreover have "lt_folded c th2" if "lt_folded c th0"
    using that fh_reset_fold [OF c buf' _ _ lt_th_parts(3) [OF th] lt_th_parts(3) [OF th0] old']
      fh_reset_fold [OF c buf' _ _ lt_th_parts(4) [OF th] lt_th_parts(4) [OF th0] old']
      fh_reset_fold [OF c buf' _ _ lt_th_parts(5) [OF th] lt_th_parts(5) [OF th0] old']
    unfolding lt_folded_def Let_def th2 by blast
  moreover have "lt_refold c bi th1 = Some th2" by (simp add: th2_def rf)
  ultimately show ?thesis by blast
qed

lemma lt_recoverable_repair:
  assumes s: "lt_ok s" and t: "tid_index t < length (lt_threadHistory s)" and cs: "lt_cfg s = lt_cfg s0"
    and s0: "lt_ok s0" and r: "lt_recoverable s0 a k t h s" and u: "lt_update s t a' x h True = Some s1"
  shows "lt_repaired s0 a x t s1"
proof -
  let ?c = "lt_cfg s0" and ?old = "lt_hist s0 t" and ?th = "lt_hist s t"
  obtain bi0 tab pt where h: "h = Some (lt_save ?old pt (lt_next_path ?old a) bi0)" and buf: "lt_buf_ok ?c tab pt"
    and old: "\<And>i. i < lt_M ?c \<Longrightarrow> outcome_at tab (pt + 1) i = outcome_at (lth_globalHistory ?old) (lth_ptGhist ?old) i"
    and kept: "lt_kept (lt_B ?c) (lt_M ?c) tab pt k ?th"
    using r unfolding lt_recoverable_def by blast
  have c: "lt_cfg_ok ?c" using s0 by (simp add: lt_ok_def)
  have "tid_index t < length (lt_threadHistory s0)" using t cs s s0 by (simp add: lt_ok_def)
  then have th0: "lt_th_ok ?c ?old" by (rule lt_ok_thread(1) [OF s0])
  have th: "lt_th_ok ?c ?th" using lt_ok_thread(1) [OF s t] cs by simp
  define bi where "bi = lt_save ?old pt (lt_next_path ?old a) bi0"
  define th1 where "th1 = ?th\<lparr>lth_pathHist := lt_next_path ?old a, lth_ptGhist := pt, lth_gHist := pt,
      lth_globalHistory := (lth_globalHistory ?th)[nat pt := if x then 1 else 0]\<rparr>"
  obtain th2 where th2: "lt_refold ?c bi th1 = Some th2" "lt_shifted ?c a x ?old th2" "lt_folded ?c ?old \<longrightarrow> lt_folded ?c th2"
    using lt_refold_repairs [OF c th0 th buf old kept bi_def th1_def] by blast
  have bi: "bi_ptGhist bi = pt" "bi_pathHist bi = lt_next_path ?old a" by (simp_all add: bi_def lt_save_def)
  have pos: "0 \<le> pt" "nat pt < length (lth_globalHistory ?th)" using lt_buf_pos [OF buf] buf th by (simp_all add: lt_buf_ok_def lt_th_ok_def)
  have "lt_squash_loop (s\<lparr>lt_threadHistory := (lt_threadHistory s)[tid_index t := th2]\<rparr>) bi = Some s1"
    using u t pos th2(1) unfolding h bi_def [symmetric]
    by (simp add: lt_update_def lt_squash_taken_def Let_def fault_simps bi cs th1_def [symmetric])
  then have "lt_hist s1 t = th2" using t by (auto simp: lt_squash_loop_def Let_def bind_eq_Some_conv split: if_splits)
  then show ?thesis using th2(2,3) by (simp add: lt_repaired_def)
qed

lemma lt_btb_rewritten:
  assumes s: "lt_ok s" and t: "tid_index t < length (lt_threadHistory s)"
    and "dp_uncondBranch LTAGEDir s t a = Some (h, s1) \<or> (\<exists>b. dp_lookup LTAGEDir s t a = Some (b, h, s1))"
    and s2: "s2 = s1 \<or> dp_btbUpdate LTAGEDir s1 t a h = Some s2"
  shows "lt_rewritten (lt_hist s1 t) (lt_hist s2 t)"
proof -
  have t': "tid_index t < lt_threads (lt_cfg s)" using t by (simp add: lt_threads_length [OF s])
  have "lt_ok s1 \<and> lt_cfg s1 = lt_cfg s"
    using assms(3) ltage.uncond_ok [OF s t', of a] ltage.lookup_ok [OF s t', of a] by auto
  then have s1: "lt_ok s1" "tid_index t < length (lt_threadHistory s1)" using t' by (simp_all add: lt_threads_length [symmetric])
  show ?thesis using s2
  proof
    assume "dp_btbUpdate LTAGEDir s1 t a h = Some s2"
    then show ?thesis using lt_btbUpdate_rewritten [OF _ s1, of a h s2] by simp
  qed (simp add: lt_rewritten_def)
qed

text \<open>The number of younger predictions the buffer bears: its entries beside two windows, less one.\<close>

definition lt_depth :: "LTAGECfg \<Rightarrow> nat" where
  "lt_depth c = lt_B c - 2 * lt_M c - 1"

interpretation ltr: repairable_predictor LTAGEDir lt_ok lt_cfg lt_threads lt_hist_ok lt_depth lt_recoverable lt_repaired
proof unfold_locales
  fix s s0 s1 s2 :: LTAGE and t :: ThreadID and a a' x k and h h' :: "BranchInfo option"
  assume s: "lt_ok s" and "tid_index t < lt_threads (lt_cfg s)"
  then have t: "tid_index t < length (lt_threadHistory s)" by (simp add: lt_threads_length)
  show "lt_recoverable s a 0 t h s2"
    if "dp_uncondBranch LTAGEDir s t a = Some (h, s1) \<or> (\<exists>b. dp_lookup LTAGEDir s t a = Some (b, h, s1))"
      "s2 = s1 \<or> dp_btbUpdate LTAGEDir s1 t a h = Some s2"
    using that lt_recoverable_first [OF s t, of a h s1] lt_recoverable_rewritten [OF _ lt_btb_rewritten [OF s t that]] by simp
  show "lt_recoverable s0 a (Suc k) t h s2"
    if "lt_cfg s = lt_cfg s0" "lt_recoverable s0 a k t h s" "k < lt_depth (lt_cfg s)"
      "dp_uncondBranch LTAGEDir s t a' = Some (h', s1) \<or> (\<exists>b. dp_lookup LTAGEDir s t a' = Some (b, h', s1))"
      "s2 = s1 \<or> dp_btbUpdate LTAGEDir s1 t a' h' = Some s2"
    using that lt_recoverable_next [OF that(2), of s1] lt_predict_moved [OF s t, of a' h' s1] lt_recoverable_rewritten [OF _ lt_btb_rewritten [OF s t that(4,5)]]
    by (simp add: lt_depth_def)
  show "lt_recoverable s0 a k t h s1"
    if "lt_hist_ok (lt_cfg s) h'" "lt_recoverable s0 a k t h s" "dp_squash LTAGEDir s t h' = Some s1"
  proof -
    have "lt_hist s1 t = lt_hist s t"
      using that(3) by (auto simp: lt_squash_def lt_squash_loop_def Let_def bind_eq_Some_conv split: if_splits)
    then show ?thesis using that(2) by (simp add: lt_recoverable_def)
  qed
  show "lt_repaired s0 a x t s1"
    if "lt_cfg s = lt_cfg s0" "lt_ok s0" "lt_recoverable s0 a k t h s" "dp_update LTAGEDir s t a x h True = Some s1"
    using lt_recoverable_repair [OF s t that(1-3)] that(4) by simp
qed

subsection \<open>A misprediction with younger branches outstanding\<close>

text \<open>
  \<^bold>\<open>C11.\<close> The repair of a misprediction by L-TAGE. A branch is predicted, then a run of younger
  branches, conditional or not, in the BTB or not; then the branch is found mispredicted with the
  outcome \<open>x\<close>, and the unit squashes the younger ones. If fewer than \<open>histBufferSize - 2 * maxHist\<close>
  younger branches are outstanding, nothing faults, and the outcome and path history of the thread
  are those from before the prediction with \<open>x\<close> and the lowest address bit shifted in; if the folded
  registers were the folds of the history before the prediction, they are so of the repaired one.
\<close>

theorem ltage_mispredict_repair:
  fixes u :: "(LTAGE, BranchInfo, 'pc) BPredUnit"
  assumes "unit_ok lt_ok lt_cfg lt_threads lt_hist_ok u" and "tid_index t < unat (bp_numThreads u)"
    and "seq_bound t u k" and "sorted_wrt (<) (k # sn # map (fst \<circ> snd) qs)"
    and "length qs + 2 * unat (lt_maxHist (lt_cfg (dir u))) < unat (lt_histBufferSize (lt_cfg (dir u)))"
  shows "\<exists>u1 u2. predicts LTAGEDir isa t u ((inst, sn, pc) # qs) = Some u1 \<and>
    bp_mispredict LTAGEDir isa rnd u1 sn tg x t = Some u2 \<and>
    lt_shifted (lt_cfg (dir u)) (instAddr isa pc) x (lt_threadHistory (dir u) ! tid_index t) (lt_threadHistory (dir u2) ! tid_index t) \<and>
    (lt_folded (lt_cfg (dir u)) (lt_threadHistory (dir u) ! tid_index t) \<longrightarrow>
      lt_folded (lt_cfg (dir u)) (lt_threadHistory (dir u2) ! tid_index t))"
  using ltr.mispredict_repairs [OF assms(1-4), of isa inst pc rnd tg x] assms(5) by (simp add: lt_depth_def lt_repaired_def)

lemma BPredUnit_new_dir: "BPredUnit_new isa junk p s = Inr u \<Longrightarrow> dir u = s"
  by (auto simp: BPredUnit_new_def ebind_eq_Inr)

theorem ltage_mispredict_repair_witness:
  "\<exists>u1 u2. predicts LTAGEDir sample_isa 0 sample_ltage_unit [(cond_branch, 1, 0x40), (cond_branch, 2, 0x44)] = Some u1 \<and>
    bp_mispredict LTAGEDir sample_isa 0 u1 1 0x80 True 0 = Some u2 \<and>
    lt_shifted (lt_cfg sample_ltage) 0x40 True (lt_threadHistory sample_ltage ! 0) (lt_threadHistory (dir u2) ! 0) \<and>
    lt_folded (lt_cfg sample_ltage) (lt_threadHistory (dir u2) ! 0)"
proof -
  have u: "dir sample_ltage_unit = sample_ltage" by (rule BPredUnit_new_dir [OF sample_ltage_unit_new])
  have n: "bp_numThreads sample_ltage_unit = 1" "seq_bound 0 sample_ltage_unit 0" by code_simp+
  have "unit_ok lt_ok lt_cfg lt_threads lt_hist_ok sample_ltage_unit"
    by (rule ltage.BPredUnit_new_ok [OF sample_ltage_unit_new sample_bp_ok sample_ltage_ok(1)]) (simp only: sample_ltage_ok(3), code_simp)
  moreover have "length [(cond_branch, 2 :: InstSeqNum, 0x44 :: Addr)] + 2 * unat (lt_maxHist (lt_cfg (dir sample_ltage_unit)))
      < unat (lt_histBufferSize (lt_cfg (dir sample_ltage_unit)))"
    by code_simp
  moreover have "lt_folded (lt_cfg sample_ltage) (lt_threadHistory sample_ltage ! 0)"
    using sample_ltage_ok(2) lt_threads_length [OF sample_ltage_ok(1), symmetric] by (simp add: sample_ltage_ok(3) lt_all_folded_def list_all_length)
  ultimately show ?thesis
    using ltage_mispredict_repair [of sample_ltage_unit 0 0 1 "[(cond_branch, 2, 0x44)]" sample_isa cond_branch "0x40" 0 "0x80" True]
    by (simp add: u n tid_index_def sample_isa_def)
qed

end
