(* ===== verification/BPred_Loops.thy ===== *)
theory BPred_Loops
  imports BPred_Unit "HOL-Library.While_Combinator"
begin

text \<open>
  The two loops of \<open>BPredUnit\<close> as the code of \<open>bpred_unit.cc\<close> has them, \<open>while\<close> loops that test and
  pop the end of the history deque, and the lemma that they stop with the result of the recursive
  \<^const>\<open>commit_loop\<close> and \<^const>\<open>squash_loop\<close>. The loop state is \<^const>\<open>None\<close> after a fault.
\<close>

section \<open>The loops of the branch prediction unit\<close>

definition commit_test :: "InstSeqNum \<Rightarrow> ('s \<times> ('h, 'pc) PredictorHistory list) option \<Rightarrow> bool" where
  "commit_test done_sn x = (case x of None \<Rightarrow> False | Some (s, hist) \<Rightarrow> hist \<noteq> [] \<and> seqNum (last hist) \<le> done_sn)"

definition commit_body ::
    "('s, 'h) DirPred \<Rightarrow> ThreadID \<Rightarrow> ('s \<times> ('h, 'pc) PredictorHistory list) option \<Rightarrow> ('s \<times> ('h, 'pc) PredictorHistory list) option" where
  "commit_body P tid x = do {
     (s, hist) \<leftarrow> x;
     let e = last hist;
     s \<leftarrow> dp_update P s tid (ph_pc e) (predTaken e) (bpHistory e) False;
     Some (s, butlast hist) }"

definition squash_test :: "InstSeqNum \<Rightarrow> ('s \<times> 'pc ReturnAddrStack \<times> ('h, 'pc) PredictorHistory list) option \<Rightarrow> bool" where
  "squash_test squashed_sn x = (case x of None \<Rightarrow> False | Some (s, r, hist) \<Rightarrow> hist \<noteq> [] \<and> seqNum (hd hist) > squashed_sn)"

definition squash_body ::
    "('s, 'h) DirPred \<Rightarrow> ThreadID \<Rightarrow> ('s \<times> 'pc ReturnAddrStack \<times> ('h, 'pc) PredictorHistory list) option \<Rightarrow>
     ('s \<times> 'pc ReturnAddrStack \<times> ('h, 'pc) PredictorHistory list) option" where
  "squash_body P tid x = do {
     (s, r, hist) \<leftarrow> x;
     r \<leftarrow> repair_RAS r (hd hist);
     s \<leftarrow> dp_squash P s tid (bpHistory (hd hist));
     Some (s, r, tl hist) }"

lemma while_option_stop: "\<not> b s \<Longrightarrow> while_option b c s = Some s"
  by (subst while_option_unfold) simp

lemma while_option_next: "b s \<Longrightarrow> while_option b c s = while_option b c (c s)"
  by (subst while_option_unfold) simp

lemma loop_test_fault [simp]: "\<not> commit_test sn None" "\<not> squash_test sn None"
  by (simp_all add: commit_test_def squash_test_def)

lemma commit_while:
  "while_option (commit_test sn) (commit_body P t) (Some (s, rev es)) = Some (map_option (map_prod id rev) (commit_loop P sn t s es))"
proof (induction es arbitrary: s)
  case Nil
  then show ?case by (simp add: while_option_stop commit_test_def)
next
  case (Cons e es)
  show ?case
  proof (cases "seqNum e \<le> sn")
    case True
    then have "commit_test sn (Some (s, rev (e # es)))" by (simp add: commit_test_def)
    moreover have "commit_body P t (Some (s, rev (e # es))) =
        map_option (\<lambda>s'. (s', rev es)) (dp_update P s t (ph_pc e) (predTaken e) (bpHistory e) False)"
      by (simp add: commit_body_def Let_def map_conv_bind_option comp_def)
    ultimately show ?thesis using True Cons
      by (cases "dp_update P s t (ph_pc e) (predTaken e) (bpHistory e) False") (simp_all add: while_option_next while_option_stop)
  next
    case False
    then show ?thesis by (simp add: while_option_stop commit_test_def)
  qed
qed

lemma squash_while:
  "while_option (squash_test sn) (squash_body P t) (Some (s, r, es)) = Some (squash_loop P sn t s r es)"
proof (induction es arbitrary: s r)
  case Nil
  then show ?case by (simp add: while_option_stop squash_test_def)
next
  case (Cons e es)
  show ?case
  proof (cases "seqNum e > sn")
    case True
    then have n: "squash_test sn (Some (s, r, e # es))" by (simp add: squash_test_def)
    show ?thesis
    proof (cases "repair_RAS r e")
      case None
      then show ?thesis using True n by (simp add: while_option_next while_option_stop squash_body_def)
    next
      case (Some r')
      then show ?thesis using True n Cons
        by (cases "dp_squash P s t (bpHistory e)") (simp_all add: while_option_next while_option_stop squash_body_def)
    qed
  next
    case False
    then show ?thesis by (simp add: while_option_stop squash_test_def)
  qed
qed

text \<open>
  \<^bold>\<open>C23.\<close> The \<open>while\<close> loops of \<open>update\<close> and \<open>squash\<close> stop for every history, whatever the direction
  predictor does: the loop that commits from the back of the deque ends with the result of
  \<open>commit_loop\<close> on the history from its oldest entry on, and the loop that squashes from the front
  ends with the result of \<open>squash_loop\<close>. A fault of an iteration ends the loop as well.
\<close>

theorem unit_loops_terminate:
  "while_option (commit_test sn) (commit_body P t) (Some (s, hist)) = Some (map_option (map_prod id rev) (commit_loop P sn t s (rev hist))) \<and>
   while_option (squash_test sn) (squash_body P t) (Some (s, r, hist)) = Some (squash_loop P sn t s r hist)"
  using commit_while [of sn P t s "rev hist"] squash_while by simp

end
