(* ===== verification/BPred_Return.thy ===== *)
theory BPred_Return
  imports BPred_Undo
begin

text \<open>
  What happens to the return address stack of a thread when a return is predicted not taken,
  found taken, and then squashed. The entry of the return holds the index and the address of the
  constructor, since \<open>predict\<close> saves the top of the stack only for a return predicted taken.
\<close>

lemma predict_return_not_taken:
  assumes p: "predict P isa u inst sn pc t = Some (False, tg, u')" and r: "isReturn inst"
    and t: "tid_index t < length (predHist u)"
  obtains e where "predHist u' = (predHist u)[tid_index t := e # predHist u ! tid_index t]" and "bp_RAS u' = bp_RAS u"
    and "bp_numThreads u' = bp_numThreads u" and "seqNum e = sn" and "wasReturn e" and "\<not> usedRAS e"
    and "RASIndex e = 0" and "RASTarget e = PCState_zero isa"
proof -
  let ?i = "tid_index t" and ?u = "u\<lparr>stats := (stats u)\<lparr>st_lookups := st_lookups (stats u) + 1\<rparr>\<rparr>"
  obtain b h v where d: "predict_direction P ?u inst (instAddr isa pc) t = Some (b, h, v)"
    using p by (auto simp: predict_def Let_def bind_eq_Some_conv)
  have v: "bp_RAS v = bp_RAS u" "predHist v = predHist u" "bp_numThreads v = bp_numThreads u"
    using d by (auto simp: predict_direction_def bind_eq_Some_conv split: if_splits)
  define e where "e = (PredictorHistory_new (PCState_zero isa) sn (instAddr isa pc) False h t)\<lparr>wasReturn := True\<rparr>"
  note p' = p [unfolded predict_def Let_def d Option.bind.simps predict_target_def]
  have "\<not> b" using p' r by (auto simp: predict_return_def Let_def bind_eq_Some_conv)
  then have u': "u' = v\<lparr>predHist := (predHist u)[?i := e # predHist u ! ?i]\<rparr>"
    using p' r t by (simp add: fault_simps v(2) e_def)
  show thesis
    by (rule that [of e]) (simp_all add: u' v e_def PredictorHistory_new_def)
qed

lemma squash_none:
  assumes "bp_squash P u sn t = Some u'" and "list_all (\<lambda>e. seqNum e \<le> sn) (predHist u ! tid_index t)"
  shows "bp_RAS u' = bp_RAS u \<and> predHist u' = predHist u"
proof -
  have "squash_loop P sn t s r (predHist u ! tid_index t) = Some (s, r, predHist u ! tid_index t)" for s r
    using assms(2) by (cases "predHist u ! tid_index t") auto
  then show ?thesis using assms(1) by (auto simp: bp_squash_def bind_eq_Some_conv vec_at_eq_Some)
qed

lemma fixup_taken_return:
  "fixup_taken isa rnd u e ghr tg t = Some (e', u') \<Longrightarrow> wasReturn e \<Longrightarrow> \<not> usedRAS e \<Longrightarrow>
    e' = e\<lparr>usedRAS := True\<rparr> \<and> bp_RAS u' = (bp_RAS u)[tid_index t := RAS_pop (bp_RAS u ! tid_index t)] \<and> predHist u' = predHist u"
  by (auto simp: fixup_taken_def vec_mod_def bind_eq_Some_conv vec_at_eq_Some vec_put_eq_Some split: if_splits)

lemma mispredict_return:
  assumes m: "bp_mispredict P isa rnd u sn tg True t = Some u'" and t: "tid_index t < length (predHist u)"
    and ph: "predHist u ! tid_index t = e # es" and e: "seqNum e = sn" "wasReturn e" "\<not> usedRAS e"
    and le: "list_all (\<lambda>e. seqNum e \<le> sn) es"
  shows "bp_RAS u' = (bp_RAS u)[tid_index t := RAS_pop (bp_RAS u ! tid_index t)] \<and>
    predHist u' = (predHist u)[tid_index t := e\<lparr>predTaken := True, usedRAS := True\<rparr> # es]"
proof -
  let ?i = "tid_index t" and ?u = "u\<lparr>stats := (stats u)\<lparr>st_condIncorrect := st_condIncorrect (stats u) + 1\<rparr>\<rparr>"
  obtain v where v: "bp_squash P ?u sn t = Some v" using m by (auto simp: bp_mispredict_def Let_def bind_eq_Some_conv)
  then have q: "bp_RAS v = bp_RAS u" "predHist v = predHist u" using squash_none [OF v] ph e(1) le by simp_all
  show ?thesis using m t e unfolding bp_mispredict_def Let_def v Option.bind.simps
    by (auto simp: q ph fault_simps bind_eq_Some_conv dest!: fixup_taken_return)
qed

lemma RAS_pop_addrStack: "addrStack (RAS_pop r) = addrStack r"
  by (simp add: RAS_pop_def decrTos_def Let_def)

lemma squash_return:
  assumes s: "bp_squash P u k t = Some u'" and t: "tid_index t < length (predHist u)"
    and ph: "predHist u ! tid_index t = e # es" and e: "k < seqNum e" "usedRAS e" "RASIndex e = 0"
    and le: "list_all (\<lambda>e. seqNum e \<le> k) es"
  shows "bp_RAS u' = (bp_RAS u)[tid_index t := (bp_RAS u ! tid_index t)\<lparr>tos := 0,
      addrStack := (addrStack (bp_RAS u ! tid_index t))[0 := RASTarget e]\<rparr>] \<and>
    predHist u' = (predHist u)[tid_index t := es]"
proof -
  have "squash_loop P k t s r es = Some (s, r, es)" for s r using le by (cases es) auto
  then show ?thesis using s t e
    by (auto simp: bp_squash_def ph repair_RAS_def RAS_restore_def Let_def fault_simps bind_eq_Some_conv vec_at_eq_Some vec_put_eq_Some)
qed

context direction_predictor begin

lemma return_clobbers_stack:
  assumes ok: "unit_ok inv cfg threads hist_ok u" and t: "tid_index t < unat (bp_numThreads u)"
    and b: "seq_bound t u k" "k < sn" and r: "isReturn inst" and p: "predict P isa u inst sn pc t = Some (False, tg0, u1)"
  shows "\<exists>u2 u3. bp_mispredict P isa rnd u1 sn tg True t = Some u2 \<and> bp_squash P u2 k t = Some u3 \<and>
    predHist u3 = predHist u \<and>
    bp_RAS u3 = (bp_RAS u)[tid_index t := (RAS_pop (bp_RAS u ! tid_index t))\<lparr>tos := 0,
      addrStack := (addrStack (bp_RAS u ! tid_index t))[0 := PCState_zero isa]\<rparr>]"
proof -
  let ?i = "tid_index t"
  note th = unit_thread [OF ok t]
  obtain e where e: "predHist u1 = (predHist u)[?i := e # predHist u ! ?i]" "bp_RAS u1 = bp_RAS u" "bp_numThreads u1 = bp_numThreads u"
    "seqNum e = sn" "wasReturn e" "\<not> usedRAS e" "RASIndex e = 0" "RASTarget e = PCState_zero isa"
    by (rule predict_return_not_taken [OF p r th(3)])
  have le: "list_all (\<lambda>e. seqNum e \<le> k) (predHist u ! ?i)" "list_all (\<lambda>e. seqNum e \<le> sn) (predHist u ! ?i)"
    using b by (auto simp: seq_bound_def list_all_iff)
  have ph: "predHist u1 ! ?i = e # predHist u ! ?i" using e(1) th(3) by simp
  have u1: "unit_ok inv cfg threads hist_ok u1" "?i < unat (bp_numThreads u1)" "call_ok t u1 (Mispredict sn tg True rnd)"
    using predict_ok [OF ok t seq_bound_call_ok [OF b, of inst pc], of isa] p t e(3,4) ph by auto
  obtain u2 where u2: "bp_mispredict P isa rnd u1 sn tg True t = Some u2" "unit_ok inv cfg threads hist_ok u2"
    using bp_mispredict_ok [OF u1, of isa] by blast
  have q2: "bp_RAS u2 = (bp_RAS u)[?i := RAS_pop (bp_RAS u ! ?i)]" "predHist u2 = (predHist u)[?i := e\<lparr>predTaken := True, usedRAS := True\<rparr> # predHist u ! ?i]"
    using mispredict_return [OF u2(1) _ ph e(4-6) le(2)] th(3) by (simp_all add: e(1,2))
  have t2: "?i < unat (bp_numThreads u2)" using u2(2) q2(2) th(3) ok t by (simp add: unit_ok_def)
  obtain u3 where u3: "bp_squash P u2 k t = Some u3" using bp_squash_ok [OF u2(2) t2, of k] by blast
  show ?thesis using squash_return [OF u3, of "e\<lparr>predTaken := True, usedRAS := True\<rparr>" "predHist u ! ?i"] u2(1) u3 th(2,3) le(1) b(2) e(4,7,8)
    by (simp add: q2 RAS_pop_addrStack)
qed

end

end
