(* ===== verification/Spec2Isabelle.thy ===== *)
theory Spec2Isabelle
  imports Tournament Ensemble_Props BPred_Stats Ensemble2_Props Gshare_Pred Yags_Pred Local_BP
    Tri_Tournament GTri_Tournament Ltage_Types Ltage_Repair BPred_Loops BPred_Return
begin

text \<open>
  A verification library for the branch prediction unit of the simulator under \<open>src/gem5\<close>, the
  directory \<open>src/gem5/src/cpu/pred\<close>. File names below are relative to that directory.

  \<^bold>\<open>The program.\<close> The fetch stage of a CPU model calls \<open>BPredUnit\<close> (\<open>bpred_unit.cc\<close>). Its \<open>predict\<close>
  asks a direction predictor, the derived class, whether the branch is taken, and the return
  address stack (\<open>ras.cc\<close>), the branch target buffer (\<open>btb.cc\<close>) or the indirect target predictor
  (\<open>indirect.cc\<close>) for the target. Each prediction is put in front of a deque of its thread together
  with the history object of the derived class. Later the pipeline calls \<open>update\<close>, which commits the
  predictions up to a sequence number, \<open>squash\<close> with a sequence number, which undoes the younger
  ones, or \<open>squash\<close> with the actual outcome of a mispredicted branch, which also repairs the entry of
  that branch. Ten derived classes are compiled: \<open>LocalBP\<close>, \<open>TournamentBP\<close>, \<open>BiModeBP\<close>, \<open>LTAGE\<close>,
  \<open>Gshare\<close>, \<open>Yags\<close>, \<open>EnsembleBP\<close>, \<open>EnsembleBP2\<close>, \<open>TriTournamentBP\<close> and \<open>GTriTournamentBP\<close>.

  \<^bold>\<open>How the code is modelled.\<close>
  \<^item> A class is a record with the names of its members. Members that only the constructor sets are a
    record of their own (\<open>EnsembleCfg\<close>, \<open>LTAGECfg\<close> and so on), so that a contract can say that the
    configuration does not change.
  \<^item> A method is a function from the state to the new state. The machine integers are words of their
    width, and additions and shifts wrap as in the compiled code. Values of type \<open>int\<close> in \<open>ltage.cc\<close> are
    integers that are converted where the code converts; the reset counter \<open>tCounter\<close> is a 32-bit
    word that wraps, and \<open>getGHR\<close> collects its 32 outcomes in an unsigned word, where the code shifts
    an \<open>int\<close> by up to 31.
  \<^item> A failed \<open>assert\<close>, an index out of the range of a vector or array, and a shift by a negative
    amount or by at least the width are faults: the operation returns \<open>None\<close>. \<open>fatal\<close> and \<open>panic\<close> in a
    constructor are values of \<open>bp_error\<close>.
  \<^item> The virtual functions of a derived class are a record \<open>DirPred\<close>; \<open>BPredUnit\<close> takes it as a
    parameter \<open>P\<close>. The history pointer \<open>bp_history\<close> is an option, \<open>None\<close> for the null pointer.
  \<^item> The calls of the pipeline are the datatype \<open>bp_call\<close>; \<open>bp_step\<close> executes one and the inductive
    predicate \<open>bp_reach\<close> is reachability by calls that \<open>call_ok\<close> allows: sequence numbers grow with
    every prediction of a thread, and a misprediction is reported for an outstanding branch or when no outstanding
    one is as old.
  \<^item> What is not under \<open>src/gem5/src/cpu/pred\<close> is a parameter: the program counter type and the functions
    of the instruction set (\<open>isa_ops\<close>, \<open>StaticInst\<close>), the values of \<open>rand()\<close> and of the random number
    generator, uninitialised memory (\<open>junk\<close>, one value for the unset thread ids of all BTB entries), and the rounded value of the expression with \<open>pow\<close>
    on doubles from which \<open>LTAGE\<close> takes its history lengths (\<open>geom\<close>), of which the theorems
    assume that it lies between 0 and \<open>maxHist\<close> (\<open>geom_ok\<close>).

  \<^bold>\<open>The theories.\<close>
  \<^item> \<open>Prelude\<close>, \<open>Int_Math\<close> (\<open>base/intmath.hh\<close>, \<open>base/bitfield.hh\<close>) and \<open>Sample_Config\<close>: types, faults,
    vectors, integer helpers, and a small setting for the concrete instances.
  \<^item> \<open>Sat_Counter\<close> (\<open>sat_counter.hh\<close>), \<open>Branch_Target\<close> (\<open>btb.cc\<close>), \<open>Return_Stack\<close> (\<open>ras.cc\<close>) and
    \<open>Indirect_Pred\<close> (\<open>indirect.cc\<close>): the parts of the unit. The first three state their contracts as
    the locales \<open>saturating\<close>, \<open>target_buffer\<close> and \<open>circular_stack\<close>, which the models interpret. The
    lemmas show that a trained counter predicts its direction, that a target is found after its
    update, that a hit comes from a branch with the same index and tag bits, and that calls and
    returns nest.
  \<^item> \<open>Pred_Interface\<close> and \<open>BPred_Unit\<close> (\<open>bpred_unit.hh\<close>, \<open>bpred_unit.cc\<close>): the virtual functions, the
    contracts \<open>direction_predictor\<close> and \<open>speculative_predictor\<close>, and the base class.
  \<^item> \<open>BPred_Safety\<close>, \<open>BPred_Undo\<close>, \<open>BPred_Stats\<close>, \<open>BPred_Loops\<close>: the base class over any derived class
    that keeps the contracts. No call faults and the invariant \<open>unit_ok\<close> is kept; a commit updates the
    derived class once per entry; a squash undoes a run of predictions; the statistics fit
    together; the \<open>while\<close> loops stop.
  \<^item> \<open>BPred_Repair\<close> and \<open>BPred_Return\<close>: the locale \<open>repairable_predictor\<close>, for derived classes whose squash
    does not undo predictions but whose saved history survives a bounded number of younger ones,
    with the repair of a misprediction; and what a return mispredicted as not taken does to the
    return address stack.
  \<^item> \<open>Ensemble\<close> and \<open>Ensemble_Props\<close> (\<open>ensemble.cc\<close>), \<open>Ensemble2\<close> and \<open>Ensemble2_Props\<close> (\<open>ensemble2.cc\<close>),
    \<open>Tournament\<close> (\<open>tournament.cc\<close>), \<open>Bi_Mode\<close> (\<open>bi_mode.cc\<close>), \<open>Local_BP\<close> (\<open>2bit_local.cc\<close>): the
    predictors with their invariants, the interpretation of the contracts, and what they predict
    and learn.
  \<^item> \<open>Pred_Copy\<close> with \<open>Gshare_Pred\<close> (\<open>gshare.cc\<close>) and \<open>Yags_Pred\<close> (\<open>yags.cc\<close>): two classes that are copies
    of the bi-mode predictor, which the locale \<open>predictor_copy\<close> makes precise.
  \<^item> \<open>Pred_Simulation\<close> with \<open>Tri_Tournament\<close> (\<open>tritournament.cc\<close>) and \<open>GTri_Tournament\<close>
    (\<open>gtritournament.cc\<close>): two classes whose additional component is never selected from two bits
    on, so that they simulate the tournament predictor.
  \<^item> \<open>Ltage\<close> (\<open>ltage.hh\<close>, \<open>ltage.cc\<close>), \<open>Ltage_Fold\<close> (the folded history registers equal the fold of the
    outcomes), \<open>Ltage_Safety\<close>, \<open>Ltage_Hist\<close> and \<open>Ltage_Contract\<close> (the invariant, the circular history
    buffer and its roll-over, the contract of the base class and the constructor), \<open>Ltage_Props\<close>
    (the properties), \<open>Ltage_Repair\<close> (the repair of a misprediction with younger branches outstanding)
    and \<open>Ltage_Types\<close> (the widths of the counters in every reachable state).
  \<^item> This theory: properties of the unit with the ensemble predictor that use several components.

  \<^bold>\<open>Loops.\<close> No loop of the model has fuel. The loops over counters and tables are \<open>for_up\<close> or
  recursion on a list, the loops of \<open>BPredUnit\<close> over the deque are recursive functions that
  \<open>BPred_Loops\<close> proves equal to the \<open>while\<close> loops of the code, and \<open>floorLog2\<close> is the
  fixed sequence of steps of the code.

  \<^bold>\<open>Conditions.\<close> The safety theorems ask for what the constructors do not check: an instruction shift
  below 64, and the table sizes named in each theorem. For \<open>LTAGE\<close> they are \<open>ltage_params_ok\<close> (sizes and
  widths whose shifts and history windows stay in range) and \<open>ltage_shifts_ok\<close> (no table index
  with fewer bits than the number of its bank). The default sizes violate the latter.

  \<^bold>\<open>Not modelled.\<close> Trace output, the \<open>dump\<close> functions and the probe points have no effect on the state
  of the unit. The registration of statistics is modelled for the base class as the list of names.
  Freeing a history object is left out. The code under preprocessor symbols that are not
  defined (\<open>USE_FREE_WEIGHTS\<close> in \<open>ensemble.cc\<close>) is not part of the program. \<open>perceptron.cc\<close> is a copy of \<open>bi_mode.cc\<close> that the
  build does not compile. The default values of \<open>BranchPredictor.py\<close> are modelled for \<open>LTAGE\<close> only, since
  all theorems hold for any parameters that satisfy their conditions. The CPU models, the memory
  system and the instruction sets of the simulator, and the benchmark programs, scripts and
  results of the repository are outside this development.
\<close>

section \<open>The unit with the ensemble predictor\<close>

text \<open>
  \<^bold>\<open>C8.\<close> \<open>BPredUnit::update(done_sn)\<close> commits exactly the outstanding predictions of the thread with
  a sequence number up to \<open>done_sn\<close>: it calls \<open>update\<close> of the ensemble once for each of them, from
  the oldest to the youngest, with the address, the direction and the history object of the entry
  and as not squashed, and removes them from the deque. The indirect predictor commits up to the same
  number. The stacks, the BTB and the counters stay as they are.
\<close>

theorem unit_commit_exact:
  assumes "unit_ok ens_ok e_cfg ens_threads ens_hist_ok u" and "tid_index t < unat (bp_numThreads u)"
  shows "\<exists>u'. bp_update EnsembleDir u sn t = Some u' \<and> unit_ok ens_ok e_cfg ens_threads ens_hist_ok u' \<and>
    predHist u' = (predHist u)[tid_index t := filter (\<lambda>e. sn < seqNum e) (predHist u ! tid_index t)] \<and>
    fold (\<lambda>e so. do { s \<leftarrow> so; e_update s t (ph_pc e) (predTaken e) (bpHistory e) False })
      (rev (filter (\<lambda>e. seqNum e \<le> sn) (predHist u ! tid_index t))) (Some (dir u)) = Some (dir u') \<and>
    ip_commit (iPred u) sn t = Some (iPred u') \<and>
    bp_RAS u' = bp_RAS u \<and> bp_BTB u' = bp_BTB u \<and> stats u' = stats u"
proof -
  have upd: "dp_update EnsembleDir = e_update" by simp
  show ?thesis using ens.bp_update_ok [OF assms, of sn] unfolding commit_all_def upd by (elim exE conjE) (rule exI, intro conjI)
qed

text \<open>Three predictions in flight: a conditional branch, a call and its return.\<close>

definition busy_unit :: "(EnsembleBP, EBPHistory, Addr) BPredUnit" where
  "busy_unit = the (predicts EnsembleDir sample_isa 0 sample_ens_unit
     [(cond_branch, 1, 0x40), (call_inst, 2, 0x44), (return_inst, 3, 0x80)])"

lemma busy_unit_run:
  "predicts EnsembleDir sample_isa 0 sample_ens_unit
     [(cond_branch, 1, 0x40), (call_inst, 2, 0x44), (return_inst, 3, 0x80)] = Some busy_unit"
  by code_simp

lemma predicts_unit_ok:
  assumes "predicts EnsembleDir isa t u qs = Some u'" and "unit_ok ens_ok e_cfg ens_threads ens_hist_ok u"
    and "tid_index t < unat (bp_numThreads u)" and "seq_bound t u k" and "sorted_wrt (<) (k # map (fst \<circ> snd) qs)"
  shows "unit_ok ens_ok e_cfg ens_threads ens_hist_ok u'"
proof -
  note th = unit_thread [OF assms(2,3)]
  have "ras_ok (bp_RAS u ! tid_index t)" using th(1) by (simp add: thread_ok_def)
  from ens.predicts_mid_run [OF assms(2,3) mid_run_init [OF this] assms(4) order_refl assms(5) th(3,4) refl, of isa]
  show ?thesis using assms(1) by auto
qed

lemma busy_unit_ok: "unit_ok ens_ok e_cfg ens_threads ens_hist_ok busy_unit"
proof (rule predicts_unit_ok [OF busy_unit_run sample_ens_unit_ok])
  show "tid_index 0 < unat (bp_numThreads sample_ens_unit)" by code_simp
  show "seq_bound 0 sample_ens_unit 0" by code_simp
qed code_simp

lemma busy_unit_thread: "tid_index 0 < unat (bp_numThreads busy_unit)"
  by code_simp

theorem unit_commit_exact_witness:
  "\<exists>u'. bp_update EnsembleDir busy_unit 2 0 = Some u' \<and> map (map seqNum) (predHist u') = [[3]] \<and>
    map (\<lambda>e. (seqNum e, ph_pc e)) (rev (filter (\<lambda>e. seqNum e \<le> 2) (predHist busy_unit ! 0))) = [(1, 0x40), (2, 0x44)] \<and>
    fold (\<lambda>e so. do { s \<leftarrow> so; e_update s 0 (ph_pc e) (predTaken e) (bpHistory e) False })
      (rev (filter (\<lambda>e. seqNum e \<le> 2) (predHist busy_unit ! 0))) (Some (dir busy_unit)) = Some (dir u')"
proof -
  have i: "tid_index 0 = 0" by (simp add: tid_index_def)
  have "map (\<lambda>e. (seqNum e, ph_pc e)) (rev (filter (\<lambda>e. seqNum e \<le> 2) (predHist busy_unit ! 0))) = [(1, 0x40), (2, 0x44)]"
    by code_simp
  moreover have "map (map seqNum) ((predHist busy_unit)[tid_index 0 := filter (\<lambda>e. 2 < seqNum e) (predHist busy_unit ! tid_index 0)]) = [[3]]"
    by code_simp
  moreover obtain u' where "bp_update EnsembleDir busy_unit 2 0 = Some u'"
    "predHist u' = (predHist busy_unit)[tid_index 0 := filter (\<lambda>e. 2 < seqNum e) (predHist busy_unit ! tid_index 0)]"
    "fold (\<lambda>e so. do { s \<leftarrow> so; e_update s 0 (ph_pc e) (predTaken e) (bpHistory e) False })
      (rev (filter (\<lambda>e. seqNum e \<le> 2) (predHist busy_unit ! tid_index 0))) (Some (dir busy_unit)) = Some (dir u')"
    using unit_commit_exact [OF busy_unit_ok busy_unit_thread, of 2] by (elim exE conjE) (rule that)
  ultimately show ?thesis unfolding i by (intro exI [of _ u'] conjI) (simp_all only:)
qed

text \<open>
  \<^bold>\<open>C7.\<close> After a taken branch was mispredicted, \<open>BPredUnit::squash\<close> has removed all younger
  predictions, marks the branch as taken for its commit, and the BTB gives its actual target
  from then on (for a branch the indirect predictor is not responsible for).
\<close>

theorem unit_mispredict_learns_target:
  assumes "unit_ok ens_ok e_cfg ens_threads ens_hist_ok u" and "tid_index t < unat (bp_numThreads u)"
    and "e \<in> set (predHist u ! tid_index t)" and "\<not> wasIndirect e"
  shows "\<exists>u' e' es. bp_mispredict EnsembleDir isa rnd u (seqNum e) target True t = Some u' \<and>
    unit_ok ens_ok e_cfg ens_threads ens_hist_ok u' \<and>
    predHist u' ! tid_index t = e' # es \<and> seqNum e' = seqNum e \<and> predTaken e' \<and>
    es = filter (\<lambda>x. seqNum x < seqNum e) (predHist u ! tid_index t) \<and>
    BTB_valid (bp_BTB u') (ph_pc e) t = Some True \<and> BTB_lookup pc0 (bp_BTB u') (ph_pc e) t = Some target"
proof -
  have "call_ok t u (Mispredict (seqNum e) target True rnd)" using assms(3) by (auto simp: list_ex_iff)
  then obtain u' e' es where u': "bp_mispredict EnsembleDir isa rnd u (seqNum e) target True t = Some u'"
    "unit_ok ens_ok e_cfg ens_threads ens_hist_ok u'" "predHist u' ! tid_index t = e' # es" "fixed_entry e e'" "predTaken e'"
    "es = filter (\<lambda>x. seqNum x < seqNum e) (predHist u ! tid_index t)"
    "BTB_update (bp_BTB u) (ph_pc e) target t = Some (bp_BTB u')"
    using ens.bp_mispredict_ok [OF assms(1,2), of "seqNum e" target True rnd isa] assms(3,4) by fastforce
  have "btb_ok (bp_BTB u)" using assms(1) by (simp add: unit_ok_def)
  then show ?thesis
    using u' tb.hit_upd [OF _ unit_tid [OF assms(2)] u'(7)] tb.look_upd [OF _ unit_tid [OF assms(2)] u'(7)]
    by (auto simp: fixed_entry_def)
qed

theorem unit_mispredict_learns_target_witness:
  "\<exists>u'. bp_mispredict EnsembleDir sample_isa 0 busy_unit 2 0x200 True 0 = Some u' \<and>
    BTB_lookup 0 (bp_BTB u') 0x44 0 = Some 0x200"
proof -
  let ?e = "predHist busy_unit ! 0 ! 1"
  have e: "?e \<in> set (predHist busy_unit ! tid_index 0)" by code_simp
  have w: "\<not> wasIndirect ?e" by code_simp
  have s: "seqNum ?e = 2" "ph_pc ?e = 0x44" by code_simp+
  show ?thesis
    using unit_mispredict_learns_target [OF busy_unit_ok busy_unit_thread e w, of sample_isa 0 "0x200" 0] unfolding s by blast
qed

text \<open>
  \<^bold>\<open>C2.\<close> A squash of predictions restores the ensemble's global histories, the outstanding
  predictions and the indirect predictor, and the return address stack up to the entries that
  calls have overwritten.
\<close>

theorem unit_squash_restores:
  assumes "unit_ok ens_ok e_cfg ens_threads ens_hist_ok u" and "tid_index t < unat (bp_numThreads u)"
    and "seq_bound t u sn" and "sorted_wrt (<) (sn # map (fst \<circ> snd) qs)"
  shows "\<exists>u1 u2. predicts EnsembleDir isa t u qs = Some u1 \<and> bp_squash EnsembleDir u1 sn t = Some u2 \<and>
    e_globalHistory (dir u2) = e_globalHistory (dir u) \<and> predHist u2 = predHist u \<and> iPred u2 = iPred u \<and>
    bp_BTB u2 = bp_BTB u \<and>
    ras_agree (unat (ras_numEntries (bp_RAS u ! tid_index t)) -
        calls (filter (\<lambda>e. sn < seqNum e) (predHist u1 ! tid_index t)))
      (bp_RAS u2 ! tid_index t) (bp_RAS u ! tid_index t)"
  by (rule ens.run_then_squash [OF assms])

theorem unit_squash_restores_witness:
  "\<exists>u1 u2. predicts EnsembleDir sample_isa 0 busy_unit [(cond_branch, 4, 0x48), (indirect_jump, 5, 0x4c)] = Some u1 \<and>
    bp_squash EnsembleDir u1 3 0 = Some u2 \<and> predHist u2 = predHist busy_unit"
proof -
  have "seq_bound 0 busy_unit 3" "sorted_wrt (<) ((3 :: InstSeqNum) # map (fst \<circ> snd) [(cond_branch, 4, 0x48 :: Addr), (indirect_jump, 5, 0x4c)])"
    by code_simp+
  from unit_squash_restores [OF busy_unit_ok busy_unit_thread this, of sample_isa] show ?thesis by blast
qed

text \<open>
  \<^bold>\<open>C25.\<close> Squashing a return that was mispredicted as not taken does not give back the stack. Whatever
  the state of the unit: a return is predicted not taken, is found taken, and is then squashed by an
  older branch. The deque is the one from before the prediction. But the repair has popped the stack
  and marked the entry as having used it without saving the index and the address, so the squash
  sets the index of the stack to 0, wherever it was, and overwrites slot 0 with the zero PC.
\<close>

theorem unit_unsaved_return_clobbers_stack:
  assumes "unit_ok ens_ok e_cfg ens_threads ens_hist_ok u" and "tid_index t < unat (bp_numThreads u)"
    and "seq_bound t u k" and "k < sn" and "isReturn inst"
    and "predict EnsembleDir isa u inst sn pc t = Some (False, next_pc, u1)"
  shows "\<exists>u2 u3. bp_mispredict EnsembleDir isa rnd u1 sn target True t = Some u2 \<and> bp_squash EnsembleDir u2 k t = Some u3 \<and>
    predHist u3 = predHist u \<and>
    bp_RAS u3 = (bp_RAS u)[tid_index t := (RAS_pop (bp_RAS u ! tid_index t))\<lparr>tos := 0,
      addrStack := (addrStack (bp_RAS u ! tid_index t))[0 := PCState_zero isa]\<rparr>]"
  by (rule direction_predictor.return_clobbers_stack [OF ens.direction_predictor_axioms assms])

text \<open>
  Two nested calls, then a conditional return that is predicted not taken: the index 2 of the stack
  becomes 0.
\<close>

definition cond_return :: "Addr StaticInst" where
  "cond_return = sample_inst False True False False"

definition nested_unit :: "(EnsembleBP, EBPHistory, Addr) BPredUnit" where
  "nested_unit = the (predicts EnsembleDir sample_isa 0 (sample_ens_unit\<lparr>dir := trained_ens\<rparr>)
     [(call_inst, 1, 0x44), (call_inst, 2, 0x84)])"

lemma nested_unit_ok: "unit_ok ens_ok e_cfg ens_threads ens_hist_ok nested_unit"
proof (rule predicts_unit_ok)
  show "predicts EnsembleDir sample_isa 0 (sample_ens_unit\<lparr>dir := trained_ens\<rparr>) [(call_inst, 1, 0x44), (call_inst, 2, 0x84)] = Some nested_unit"
    by code_simp
  have "e_cfg trained_ens = e_cfg (dir sample_ens_unit)" by code_simp
  then show "unit_ok ens_ok e_cfg ens_threads ens_hist_ok (sample_ens_unit\<lparr>dir := trained_ens\<rparr>)"
    using sample_ens_unit_ok trained_ens_ok by (simp add: unit_ok_def)
  show "tid_index 0 < unat (bp_numThreads (sample_ens_unit\<lparr>dir := trained_ens\<rparr>))" by code_simp
  show "seq_bound 0 (sample_ens_unit\<lparr>dir := trained_ens\<rparr>) 0" by code_simp
qed code_simp

theorem unit_unsaved_return_clobbers_stack_witness:
  "\<exists>u1 u2 u3. predict EnsembleDir sample_isa nested_unit cond_return 3 0x100 0 = Some (False, 0x104, u1) \<and>
    bp_mispredict EnsembleDir sample_isa 0 u1 3 0x88 True 0 = Some u2 \<and> bp_squash EnsembleDir u2 2 0 = Some u3 \<and>
    predHist u3 = predHist nested_unit \<and> map tos (bp_RAS nested_unit) = [2] \<and> map tos (bp_RAS u3) = [0]"
proof -
  have t: "tid_index 0 < unat (bp_numThreads nested_unit)" "seq_bound 0 nested_unit 2" "isReturn cond_return" by code_simp+
  have lt: "(2 :: InstSeqNum) < 3" by simp
  have p: "predict EnsembleDir sample_isa nested_unit cond_return 3 0x100 0 =
      Some (False, 0x104, snd (snd (the (predict EnsembleDir sample_isa nested_unit cond_return 3 0x100 0))))" by code_simp
  have "map tos (bp_RAS nested_unit) = [2]" by code_simp
  moreover have "map tos ((bp_RAS nested_unit)[tid_index 0 := (RAS_pop (bp_RAS nested_unit ! tid_index 0))\<lparr>tos := 0,
      addrStack := (addrStack (bp_RAS nested_unit ! tid_index 0))[0 := PCState_zero sample_isa]\<rparr>]) = [0]" by code_simp
  ultimately show ?thesis
    using unit_unsaved_return_clobbers_stack [OF nested_unit_ok t(1,2) lt t(3) p, of 0 "0x88"] p by metis
qed

text \<open>
  \<^bold>\<open>C24.\<close> Whatever the derived class, the counters of the unit fit together in every state reachable
  from construction: conditional predictions, returns and BTB lookups are lookups, BTB hits and
  indirect lookups are BTB lookups (so \<open>BTBHitPct\<close> is at most 100), every indirect lookup is a
  hit or a miss, and the two kinds of target mispredictions are mispredictions. \<open>BTBCorrect\<close>
  stays 0.
\<close>

theorem unit_statistics_consistent:
  assumes "BPredUnit_new isa junk p s = Inr u0" and "bp_reach P isa u0 u"
  shows "st_condPredicted (stats u) \<le> st_lookups (stats u) \<and>
    st_usedRAS (stats u) + st_BTBLookups (stats u) \<le> st_lookups (stats u) \<and>
    st_BTBHits (stats u) + st_indirectLookups (stats u) \<le> st_BTBLookups (stats u) \<and>
    st_indirectHits (stats u) + st_indirectMisses (stats u) = st_indirectLookups (stats u) \<and>
    st_RASIncorrect (stats u) \<le> st_condIncorrect (stats u) \<and>
    st_indirectMispredicted (stats u) \<le> st_condIncorrect (stats u) \<and>
    st_BTBCorrect (stats u) = 0"
  using reach_stats_ok [OF assms(2) BPredUnit_new_stats [OF assms(1)]] by (simp add: stats_ok_def)

definition counted_unit :: "(EnsembleBP, EBPHistory, Addr) BPredUnit" where
  "counted_unit = the (bp_step EnsembleDir sample_isa 0 sample_ens_unit (Predict indirect_jump 1 0x40))"

lemma counted_unit_reach: "bp_reach EnsembleDir sample_isa sample_ens_unit counted_unit"
proof (rule reach_step [OF reach_init, of 0 _ "Predict indirect_jump 1 0x40"])
  show "tid_index 0 < unat (bp_numThreads sample_ens_unit)" by code_simp
  show "call_ok 0 sample_ens_unit (Predict indirect_jump 1 0x40)" by code_simp
  show "bp_step EnsembleDir sample_isa 0 sample_ens_unit (Predict indirect_jump 1 0x40) = Some counted_unit"
    by code_simp
qed

theorem unit_statistics_consistent_witness:
  "st_indirectLookups (stats counted_unit) = 1 \<and>
   st_indirectHits (stats counted_unit) + st_indirectMisses (stats counted_unit) = 1"
proof -
  have new: "BPredUnit_new sample_isa 0 sample_bp sample_ens = Inr sample_ens_unit" by code_simp
  have "st_indirectLookups (stats counted_unit) = 1" by code_simp
  then show ?thesis using unit_statistics_consistent [OF new counted_unit_reach] by simp
qed

end
